theory Spec2Isabelle
  imports Main "HOL-Library.AList"
begin

section \<open>JavaScript containers\<close>

text \<open>
  A JavaScript \<open>Map\<close> iterates in insertion order; \<open>set\<close> on a key that is present
  replaces the value where it stands, \<open>set\<close> on a new key appends, \<open>delete\<close> removes the
  entry. It is modelled as an association list with these operations. A \<open>Set\<close> of
  strings is a list without repetitions, in insertion order.
\<close>

definition map_get :: "('k \<times> 'v) list \<Rightarrow> 'k \<Rightarrow> 'v option" where
  "map_get m k = map_of m k"

definition map_has :: "('k \<times> 'v) list \<Rightarrow> 'k \<Rightarrow> bool" where
  "map_has m k = (map_of m k \<noteq> None)"

definition map_set :: "('k \<times> 'v) list \<Rightarrow> 'k \<Rightarrow> 'v \<Rightarrow> ('k \<times> 'v) list" where
  "map_set m k v = AList.update k v m"

definition map_delete :: "('k \<times> 'v) list \<Rightarrow> 'k \<Rightarrow> ('k \<times> 'v) list" where
  "map_delete m k = AList.delete k m"

definition map_values :: "('k \<times> 'v) list \<Rightarrow> 'v list" where
  "map_values m = map snd m"

definition set_add :: "'a list \<Rightarrow> 'a \<Rightarrow> 'a list" where
  "set_add s x = (if x \<in> set s then s else s @ [x])"

definition set_delete :: "'a list \<Rightarrow> 'a \<Rightarrow> 'a list" where
  "set_delete s x = removeAll x s"


section \<open>Data model\<close>

text \<open>
  \<open>WebSocketConnection\<close> of \<open>websocket/index.ts\<close>. Dates are milliseconds since the
  epoch. The socket itself is not a field of the model: a send is recorded in the trace
  of the world under the connection's id, and whether the socket throws on a send is
  decided by the environment (\<open>send_throws\<close>).
\<close>

datatype user_type = Student | Parent | Admin

record connection =
  conn_id :: string
  userId :: string
  orgId :: string
  userType :: user_type
  lastHeartbeat :: int
  namespace :: string

text \<open>\<open>ActiveCall\<close> of the signaling handler.\<close>

datatype call_status = Initiated | Ringing | Connected | Ended

record active_call =
  call_id :: string
  pairingId :: string
  callerId :: string
  calleeId :: string
  callType :: string
  status :: call_status
  startedAt :: int
  connectedAt :: "int option"
  endedAt :: "int option"

text \<open>
  Rows of the tables the handlers read: \<open>profiles\<close>, \<open>pairings\<close> and \<open>presence\<close>.
  Only the columns the handlers select are kept.
\<close>

record profile =
  profile_id :: string
  full_name :: string
  avatar_url :: string
  user_type :: string
  visible_to_partner :: bool
  dnd_enabled :: bool
  push_subscription :: "string option"

record pairing =
  pairing_id :: string
  student_id :: string
  parent_id :: string
  pairing_status :: string

record presence_row =
  user_id :: string
  presence_status :: string
  last_heartbeat :: int
  metadata :: string

text \<open>The row inserted into \<open>messages\<close>, and the row as the insert returns it, joined
  with the sender's profile (\<open>id, full_name, avatar_url\<close>).\<close>

record message_row =
  message_id :: string
  msg_pairing_id :: string
  sender_id :: string
  content :: string
  message_type :: string
  created_at :: int

record saved_message =
  saved_row :: message_row
  sender :: "(string \<times> string \<times> string) option"

record call_row =
  row_id :: string
  row_pairing_id :: string
  caller_id :: string
  callee_id :: string
  call_type :: string
  row_status :: string
  started_at :: int

text \<open>Writes the handlers issue to the store.\<close>

datatype db_write =
    UpsertPresence presence_row
  | InsertMessage message_row
  | InsertCall call_row
  | UpdateCallStatus string string
  | UpdateCallConnected string int
  | UpdateCallEnded string int int string

text \<open>
  Envelopes the server sends. The \<open>id\<close> of an envelope (\<open>generateMessageId\<close>: the clock
  and \<open>Math.random\<close>) is not modelled; every other field is. The payload constructors
  carry the fields of \<open>data\<close> in the order of the source.
\<close>

record partner_presence =
  pp_userId :: string
  pp_status :: string
  pp_last_heartbeat :: int
  pp_metadata :: string

datatype payload =
    ErrorData string string
  | PresenceStateData "presence_row option" "partner_presence list"
  | PartnerPresenceUpdateData string string "string option"
  | HeartbeatAckData int
  | PresenceUpdatedData string int
  | MessageReceivedData saved_message string
  | MessageSentData saved_message string
  | TypingIndicatorData string string bool
  | CallErrorData string string string
  | CallOfferReceivedData string string string string string
  | CallOfferSentData string string
  | CallAnswerReceivedData string string
  | CallAnsweredData string string
  | CallCandidateReceivedData string string
  | CallEndedData string string int

record envelope =
  e_type :: string
  e_namespace :: string
  e_data :: payload
  e_timestamp :: int

text \<open>
  The observable effects, in the order the code performs them: \<open>Send c e ok\<close> is a call
  of \<open>socket.send\<close> on the socket of connection \<open>c\<close> (\<open>ok\<close> is false when the call
  threw), \<open>DbWrite op ok\<close> a write issued to the store (\<open>ok\<close> is false when the store
  answered with an error).
\<close>

datatype event =
    Send string envelope bool
  | DbWrite db_write bool

text \<open>
  The state of the process: the two indexes of \<open>ConnectionManager\<close>, the
  \<open>activeCalls\<close> map, the pending ringing-timeout tasks (due time and call id), the
  tables read, and the trace of effects.
\<close>

record world =
  connections :: "(string \<times> connection) list"
  userConnections :: "(string \<times> string list) list"
  activeCalls :: "(string \<times> active_call) list"
  timers :: "(int \<times> string) list"
  profiles :: "profile list"
  pairings :: "pairing list"
  presence :: "presence_row list"
  trace :: "event list"

text \<open>
  What one run of a handler gets from outside: the clock, which sockets throw on a
  send, which writes and which reads (named by their call site) the store answers with
  an error, the result of \<open>uuidv4()\<close>, and the format check of \<open>z.string().uuid()\<close>.
\<close>

record env =
  now :: int
  send_throws :: "string \<Rightarrow> bool"
  write_fails :: "db_write \<Rightarrow> bool"
  read_fails :: "string \<Rightarrow> bool"
  uuidv4 :: string
  valid_uuid :: "string \<Rightarrow> bool"


section \<open>ConnectionManager\<close>

definition addConnection :: "connection \<Rightarrow> world \<Rightarrow> world" where
  "addConnection c w =
    (let w1 = w\<lparr>connections := map_set (connections w) (conn_id c) c\<rparr>;
         w2 = (if \<not> map_has (userConnections w1) (userId c)
               then w1\<lparr>userConnections := map_set (userConnections w1) (userId c) []\<rparr>
               else w1)
     in case map_get (userConnections w2) (userId c) of
          None \<Rightarrow> w2
        | Some s \<Rightarrow>
            w2\<lparr>userConnections :=
                 map_set (userConnections w2) (userId c) (set_add s (conn_id c))\<rparr>)"

definition removeConnection :: "string \<Rightarrow> world \<Rightarrow> world" where
  "removeConnection connectionId w =
    (case map_get (connections w) connectionId of
       None \<Rightarrow> w
     | Some c \<Rightarrow>
         (let w1 = w\<lparr>connections := map_delete (connections w) connectionId\<rparr>
          in case map_get (userConnections w1) (userId c) of
               None \<Rightarrow> w1
             | Some s \<Rightarrow>
                 (let s' = set_delete s connectionId
                  in if length s' = 0
                     then w1\<lparr>userConnections := map_delete (userConnections w1) (userId c)\<rparr>
                     else w1\<lparr>userConnections :=
                              map_set (userConnections w1) (userId c) s'\<rparr>)))"

definition getConnection :: "world \<Rightarrow> string \<Rightarrow> connection option" where
  "getConnection w connectionId = map_get (connections w) connectionId"

definition getUserConnections :: "world \<Rightarrow> string \<Rightarrow> connection list" where
  "getUserConnections w u =
    (let connectionIds = (case map_get (userConnections w) u of None \<Rightarrow> [] | Some s \<Rightarrow> s)
     in List.map_filter (\<lambda>i. map_get (connections w) i) connectionIds)"

definition socket_send :: "env \<Rightarrow> string \<Rightarrow> envelope \<Rightarrow> world \<Rightarrow> world" where
  "socket_send en c e w = w\<lparr>trace := trace w @ [Send c e (\<not> send_throws en c)]\<rparr>"

text \<open>One round of the \<open>forEach\<close> of \<open>broadcastToUser\<close>: the send, and the removal of the
  connection when the send threw.\<close>

definition broadcast_one :: "env \<Rightarrow> envelope \<Rightarrow> string option \<Rightarrow> connection \<Rightarrow> world \<Rightarrow> world" where
  "broadcast_one en message excludeConnectionId conn w =
    (if Some (conn_id conn) \<noteq> excludeConnectionId
     then (let w1 = socket_send en (conn_id conn) message w
           in if send_throws en (conn_id conn) then removeConnection (conn_id conn) w1 else w1)
     else w)"

definition broadcastToUser :: "env \<Rightarrow> string \<Rightarrow> envelope \<Rightarrow> string option \<Rightarrow> world \<Rightarrow> world" where
  "broadcastToUser en u message excludeConnectionId w =
    fold (broadcast_one en message excludeConnectionId) (getUserConnections w u) w"

text \<open>
  The assignment of the clock to \<open>connection.lastHeartbeat\<close>, which the message callback
  of a socket makes, once the message has passed \<open>WSMessageSchema\<close>, before it
  dispatches. The connection object is the one the registry holds, so the entry under
  the connection's id is the one that changes.
\<close>

definition updateHeartbeat :: "env \<Rightarrow> connection \<Rightarrow> world \<Rightarrow> world" where
  "updateHeartbeat en connection w =
    (case map_get (connections w) (conn_id connection) of
       None \<Rightarrow> w
     | Some c \<Rightarrow>
         w\<lparr>connections :=
             map_set (connections w) (conn_id connection) (c\<lparr>lastHeartbeat := now en\<rparr>)\<rparr>)"

text \<open>The periodic sweep of \<open>registerWebSocketHandlers\<close>, run by \<open>setInterval\<close> every
  \<open>SWEEP_INTERVAL\<close> milliseconds.\<close>

definition SWEEP_INTERVAL :: int where
  "SWEEP_INTERVAL = 30000"

definition staleConnections :: "int \<Rightarrow> world \<Rightarrow> string list" where
  "staleConnections t w =
    map fst (filter (\<lambda>(i, conn). t - lastHeartbeat conn > 60000) (connections w))"

definition sweep :: "int \<Rightarrow> world \<Rightarrow> world" where
  "sweep t w = fold removeConnection (staleConnections t w) w"


section \<open>The store\<close>

text \<open>
  A read that the store answers with an error gives no data. \<open>single()\<close> gives the row
  when the query selects exactly one, and an error otherwise. Each read names its call
  site, so that the environment can fail any of them alone.
\<close>

definition db_select :: "env \<Rightarrow> string \<Rightarrow> 'a list \<Rightarrow> 'a list option" where
  "db_select en site rows = (if read_fails en site then None else Some rows)"

definition db_single :: "env \<Rightarrow> string \<Rightarrow> 'a list \<Rightarrow> 'a option" where
  "db_single en site rows =
    (if read_fails en site then None else case rows of [r] \<Rightarrow> Some r | _ \<Rightarrow> None)"

definition upsert_presence :: "presence_row \<Rightarrow> presence_row list \<Rightarrow> presence_row list" where
  "upsert_presence r rows =
    (if list_ex (\<lambda>x. user_id x = user_id r) rows
     then map (\<lambda>x. if user_id x = user_id r then r else x) rows
     else rows @ [r])"

text \<open>Of the tables written, only \<open>presence\<close> is read back by the handlers; the writes to
  \<open>messages\<close> and \<open>calls\<close> are kept in the trace.\<close>

definition apply_write :: "db_write \<Rightarrow> world \<Rightarrow> world" where
  "apply_write op w =
    (case op of
       UpsertPresence r \<Rightarrow> w\<lparr>presence := upsert_presence r (presence w)\<rparr>
     | _ \<Rightarrow> w)"

definition db_write :: "env \<Rightarrow> db_write \<Rightarrow> world \<Rightarrow> world" where
  "db_write en op w =
    (if write_fails en op
     then w\<lparr>trace := trace w @ [DbWrite op False]\<rparr>
     else (apply_write op w)\<lparr>trace := trace w @ [DbWrite op True]\<rparr>)"

definition active_pairings_of :: "string \<Rightarrow> world \<Rightarrow> pairing list" where
  "active_pairings_of u w =
    filter (\<lambda>p. (student_id p = u \<or> parent_id p = u) \<and> pairing_status p = ''active'')
      (pairings w)"

definition partner_of :: "string \<Rightarrow> pairing \<Rightarrow> string" where
  "partner_of u p = (if student_id p = u then parent_id p else student_id p)"


section \<open>Inbound messages and their schemas\<close>

text \<open>
  An inbound message, as the handlers receive it after \<open>WSMessageSchema.parse\<close>. The
  shapes of \<open>data\<close> are the objects of \<open>packages/schema/src/api.ts\<close> that the handlers
  below parse; a \<open>data\<close> of any other shape is \<open>OtherData\<close>. The timestamp is a
  \<open>Date\<close>, as \<open>z.date()\<close> demands: a message whose timestamp is anything else (a string,
  as \<open>JSON.parse\<close> gives it) is refused by every schema and is not a value of this type.
  Each schema gives the parsed \<open>data\<close>, or \<open>None\<close> where \<open>parse\<close> throws. The format
  test of \<open>z.string().uuid()\<close> belongs to the validation library and is a parameter
  (\<open>valid_uuid\<close> of the environment). The \<open>message\<close> callbacks of the sockets, which
  parse the text received and dispatch on its type, are not part of the model: each
  handler is modelled on the message it is given.
\<close>

record signal_data =
  callId :: string
  sd_pairingId :: string
  sd_senderId :: string
  sd_targetId :: string

record chat_data =
  cd_pairingId :: string
  cd_content :: string
  cd_messageType :: string
  cd_senderId :: string

datatype msg_data =
    PresenceUpdateMsg string string "string option"
  | HeartbeatMsg "string option"
  | ChatMsg chat_data
  | CallOfferMsg signal_data string string string
  | CallAnswerMsg signal_data string string
  | CallCandidateMsg signal_data string
  | CallHangupMsg signal_data "string option"
  | OtherData

record ws_message =
  m_id :: string
  m_type :: string
  m_namespace :: string
  m_data :: msg_data
  m_timestamp :: int
  m_userId :: "string option"

definition WSMessageSchema :: "env \<Rightarrow> ws_message \<Rightarrow> bool" where
  "WSMessageSchema en m \<longleftrightarrow>
     valid_uuid en (m_id m) \<and>
     m_namespace m \<in> {''presence'', ''chat'', ''signaling''} \<and>
     (case m_userId m of None \<Rightarrow> True | Some u \<Rightarrow> valid_uuid en u)"

definition signal_data_ok :: "env \<Rightarrow> signal_data \<Rightarrow> bool" where
  "signal_data_ok en d \<longleftrightarrow>
     valid_uuid en (callId d) \<and> valid_uuid en (sd_pairingId d) \<and>
     valid_uuid en (sd_senderId d) \<and> valid_uuid en (sd_targetId d)"

definition PresenceUpdateMessageSchema ::
  "env \<Rightarrow> ws_message \<Rightarrow> (string \<times> string \<times> string option) option" where
  "PresenceUpdateMessageSchema en m =
    (case m_data m of
       PresenceUpdateMsg u st meta \<Rightarrow>
         if WSMessageSchema en m \<and> m_type m = ''presence_update'' \<and> m_namespace m = ''presence'' \<and>
            valid_uuid en u \<and> st \<in> {''online'', ''away'', ''busy'', ''offline''}
         then Some (u, st, meta) else None
     | _ \<Rightarrow> None)"

definition PresenceHeartbeatMessageSchema :: "env \<Rightarrow> ws_message \<Rightarrow> string option option" where
  "PresenceHeartbeatMessageSchema en m =
    (case m_data m of
       HeartbeatMsg st \<Rightarrow>
         if WSMessageSchema en m \<and> m_type m = ''heartbeat'' \<and> m_namespace m = ''presence'' \<and>
            (case st of None \<Rightarrow> True | Some x \<Rightarrow> x \<in> {''online'', ''away'', ''busy''})
         then Some st else None
     | _ \<Rightarrow> None)"

definition ChatMessageSchema :: "env \<Rightarrow> ws_message \<Rightarrow> chat_data option" where
  "ChatMessageSchema en m =
    (case m_data m of
       ChatMsg d \<Rightarrow>
         if WSMessageSchema en m \<and> m_type m = ''message'' \<and> m_namespace m = ''chat'' \<and>
            valid_uuid en (cd_pairingId d) \<and>
            cd_messageType d \<in> {''text'', ''quick_text'', ''photo_nudge'', ''system''} \<and>
            valid_uuid en (cd_senderId d)
         then Some d else None
     | _ \<Rightarrow> None)"

definition CallOfferMessageSchema ::
  "env \<Rightarrow> ws_message \<Rightarrow> (signal_data \<times> string \<times> string) option" where
  "CallOfferMessageSchema en m =
    (case m_data m of
       CallOfferMsg d ct offer_type sdp \<Rightarrow>
         if WSMessageSchema en m \<and> m_type m = ''call_offer'' \<and> m_namespace m = ''signaling'' \<and>
            signal_data_ok en d \<and> ct \<in> {''video'', ''voice''} \<and> offer_type = ''offer''
         then Some (d, ct, sdp) else None
     | _ \<Rightarrow> None)"

definition CallAnswerMessageSchema :: "env \<Rightarrow> ws_message \<Rightarrow> (signal_data \<times> string) option" where
  "CallAnswerMessageSchema en m =
    (case m_data m of
       CallAnswerMsg d answer_type sdp \<Rightarrow>
         if WSMessageSchema en m \<and> m_type m = ''call_answer'' \<and> m_namespace m = ''signaling'' \<and>
            signal_data_ok en d \<and> answer_type = ''answer''
         then Some (d, sdp) else None
     | _ \<Rightarrow> None)"

definition CallCandidateMessageSchema :: "env \<Rightarrow> ws_message \<Rightarrow> (signal_data \<times> string) option" where
  "CallCandidateMessageSchema en m =
    (case m_data m of
       CallCandidateMsg d candidate \<Rightarrow>
         if WSMessageSchema en m \<and> m_type m = ''call_candidate'' \<and> m_namespace m = ''signaling'' \<and>
            signal_data_ok en d
         then Some (d, candidate) else None
     | _ \<Rightarrow> None)"

definition CallHangupMessageSchema ::
  "env \<Rightarrow> ws_message \<Rightarrow> (signal_data \<times> string option) option" where
  "CallHangupMessageSchema en m =
    (case m_data m of
       CallHangupMsg d reason \<Rightarrow>
         if WSMessageSchema en m \<and> m_type m = ''call_hangup'' \<and> m_namespace m = ''signaling'' \<and>
            signal_data_ok en d
         then Some (d, reason) else None
     | _ \<Rightarrow> None)"


section \<open>Presence handler\<close>

text \<open>
  The handlers of the presence channel. Where a send on the handler's own socket
  throws, the handler stops at that send and the exception is caught and logged by the
  handler or its caller; the log, and the termination of a socket by the route, are not
  modelled.
\<close>

definition updateUserPresence :: "env \<Rightarrow> string \<Rightarrow> string \<Rightarrow> string option \<Rightarrow> world \<Rightarrow> world" where
  "updateUserPresence en u st meta w =
    db_write en
      (UpsertPresence \<lparr>user_id = u, presence_status = st, last_heartbeat = now en,
         metadata = (case meta of None \<Rightarrow> ''{}'' | Some x \<Rightarrow> x)\<rparr>) w"

definition partner_presence_update :: "env \<Rightarrow> string \<Rightarrow> string \<Rightarrow> string option \<Rightarrow> envelope" where
  "partner_presence_update en u st meta =
    \<lparr>e_type = ''partner_presence_update'', e_namespace = ''presence'',
     e_data = PartnerPresenceUpdateData u st meta, e_timestamp = now en\<rparr>"

definition notifyPairedPartners :: "env \<Rightarrow> string \<Rightarrow> string \<Rightarrow> string option \<Rightarrow> world \<Rightarrow> world" where
  "notifyPairedPartners en u st meta w =
    (case db_select en ''notifyPairedPartners.pairings'' (active_pairings_of u w) of
       None \<Rightarrow> w
     | Some prs \<Rightarrow>
         (let partnerIds = map (partner_of u) prs
          in case db_single en ''notifyPairedPartners.profile''
                    (filter (\<lambda>p. profile_id p = u) (profiles w)) of
               None \<Rightarrow> w
             | Some userProfile \<Rightarrow>
                 (let shouldNotify = True;
                      shouldNotify = (if user_type userProfile = ''student'' \<and>
                                         \<not> visible_to_partner userProfile
                                      then False else shouldNotify);
                      shouldNotify = (if dnd_enabled userProfile then False else shouldNotify)
                  in if shouldNotify
                     then fold (\<lambda>partnerId.
                            broadcastToUser en partnerId (partner_presence_update en u st meta) None)
                          partnerIds w
                     else w)))"

text \<open>The loop of \<open>getUserPresenceState\<close> over the pairings; \<open>None\<close> when it throws
  (the joined profile of a partner is \<open>null\<close>).\<close>

fun partnersPresence :: "env \<Rightarrow> string \<Rightarrow> world \<Rightarrow> pairing list \<Rightarrow> partner_presence list option" where
  "partnersPresence en u w [] = Some []"
| "partnersPresence en u w (p # ps) =
    (let partnerId = partner_of u p
     in case find (\<lambda>q. profile_id q = partnerId) (profiles w) of
          None \<Rightarrow> None
        | Some partnerProfile \<Rightarrow>
            (let shouldShowPresence =
                   (if user_type partnerProfile = ''student'' \<and> \<not> visible_to_partner partnerProfile
                    then False else True)
             in if shouldShowPresence
                then (case db_single en ''getUserPresenceState.partner''
                             (filter (\<lambda>r. user_id r = partnerId) (presence w)) of
                        None \<Rightarrow> partnersPresence en u w ps
                      | Some r \<Rightarrow>
                          map_option
                            ((#) \<lparr>pp_userId = partnerId, pp_status = presence_status r,
                                  pp_last_heartbeat = last_heartbeat r, pp_metadata = metadata r\<rparr>)
                            (partnersPresence en u w ps))
                else partnersPresence en u w ps))"

definition getUserPresenceState :: "env \<Rightarrow> string \<Rightarrow> world \<Rightarrow> payload" where
  "getUserPresenceState en u w =
    (let ownPresence = db_single en ''getUserPresenceState.own''
                         (filter (\<lambda>r. user_id r = u) (presence w))
     in case db_select en ''getUserPresenceState.pairings'' (active_pairings_of u w) of
          None \<Rightarrow> PresenceStateData ownPresence []
        | Some prs \<Rightarrow>
            (case partnersPresence en u w prs of
               None \<Rightarrow> PresenceStateData None []
             | Some pp \<Rightarrow> PresenceStateData ownPresence pp))"

text \<open>\<open>presenceHandler\<close> up to the registration of the socket callbacks. The handlers of
  its messages are \<open>handleHeartbeat\<close> and \<open>handlePresenceUpdate\<close>; its close callback is
  \<open>presence_on_close\<close>.\<close>

definition presenceHandler :: "env \<Rightarrow> connection \<Rightarrow> world \<Rightarrow> world" where
  "presenceHandler en connection w =
    (let w1 = updateUserPresence en (userId connection) ''online'' None w;
         w2 = notifyPairedPartners en (userId connection) ''online'' None w1;
         initialPresence = getUserPresenceState en (userId connection) w2
     in socket_send en (conn_id connection)
          \<lparr>e_type = ''presence_state'', e_namespace = ''presence'',
           e_data = initialPresence, e_timestamp = now en\<rparr> w2)"

text \<open>The route \<open>/ws/presence\<close> after authentication: the connection is registered,
  then handed to \<open>presenceHandler\<close>.\<close>

definition presence_route :: "env \<Rightarrow> connection \<Rightarrow> world \<Rightarrow> world" where
  "presence_route en wsConnection w = presenceHandler en wsConnection (addConnection wsConnection w)"

definition handleHeartbeat :: "env \<Rightarrow> connection \<Rightarrow> ws_message \<Rightarrow> world \<Rightarrow> world" where
  "handleHeartbeat en connection message w =
    (case PresenceHeartbeatMessageSchema en message of
       None \<Rightarrow> w
     | Some st \<Rightarrow>
         (let w1 = (case st of
                      None \<Rightarrow> w
                    | Some x \<Rightarrow>
                        notifyPairedPartners en (userId connection) x None
                          (updateUserPresence en (userId connection) x None w))
          in socket_send en (conn_id connection)
               \<lparr>e_type = ''heartbeat_ack'', e_namespace = ''presence'',
                e_data = HeartbeatAckData (now en), e_timestamp = now en\<rparr> w1))"

definition handlePresenceUpdate :: "env \<Rightarrow> connection \<Rightarrow> ws_message \<Rightarrow> world \<Rightarrow> world" where
  "handlePresenceUpdate en connection message w =
    (case PresenceUpdateMessageSchema en message of
       None \<Rightarrow> w
     | Some (u, st, meta) \<Rightarrow>
         if u \<noteq> userId connection
         then socket_send en (conn_id connection)
                \<lparr>e_type = ''error'', e_namespace = ''presence'',
                 e_data = ErrorData ''Forbidden'' ''Cannot update presence for other users'',
                 e_timestamp = now en\<rparr> w
         else (let w1 = updateUserPresence en u st meta w;
                   w2 = notifyPairedPartners en u st meta w1
               in socket_send en (conn_id connection)
                    \<lparr>e_type = ''presence_updated'', e_namespace = ''presence'',
                     e_data = PresenceUpdatedData st (now en), e_timestamp = now en\<rparr> w2))"

definition presence_on_close :: "env \<Rightarrow> connection \<Rightarrow> world \<Rightarrow> world" where
  "presence_on_close en connection w =
    (let w1 = removeConnection (conn_id connection) w;
         hasOtherConnections = (length (getUserConnections w1 (userId connection)) > 0)
     in if \<not> hasOtherConnections
        then notifyPairedPartners en (userId connection) ''offline'' None
               (updateUserPresence en (userId connection) ''offline'' None w1)
        else w1)"


section \<open>Chat handler\<close>

text \<open>
  Sending a chat message, and what the close callback of a chat socket does. The
  snapshot \<open>chat_state\<close> sent on connect, the typing indicator and the read receipt are
  not part of the model.
\<close>

definition getUserProfile :: "env \<Rightarrow> world \<Rightarrow> string \<Rightarrow> profile option" where
  "getUserProfile en w u =
    db_single en ''getUserProfile'' (filter (\<lambda>p. profile_id p = u) (profiles w))"

definition hasPermission :: "env \<Rightarrow> world \<Rightarrow> string \<Rightarrow> string \<Rightarrow> string option \<Rightarrow> bool" where
  "hasPermission en w u action resourceId =
    (case getUserProfile en w u of
       None \<Rightarrow> False
     | Some prof \<Rightarrow>
         if user_type prof = ''admin'' then True
         else if action = ''read_pairing'' \<or> action = ''update_pairing'' then
           (case resourceId of
              None \<Rightarrow> False
            | Some r \<Rightarrow>
                if r = [] then False
                else (case db_single en ''hasPermission.pairing''
                             (filter (\<lambda>p. pairing_id p = r) (pairings w)) of
                        None \<Rightarrow> False
                      | Some p \<Rightarrow> student_id p = u \<or> parent_id p = u))
         else if action = ''send_message'' then
           (case resourceId of
              None \<Rightarrow> False
            | Some r \<Rightarrow>
                if r = [] then False
                else (case db_single en ''hasPermission.pairing''
                             (filter (\<lambda>p. pairing_id p = r) (pairings w)) of
                        None \<Rightarrow> False
                      | Some p \<Rightarrow>
                          pairing_status p = ''active'' \<and> (student_id p = u \<or> parent_id p = u)))
         else False)"

definition clearTypingIndicator :: "env \<Rightarrow> string \<Rightarrow> string \<Rightarrow> world \<Rightarrow> world" where
  "clearTypingIndicator en u pid w =
    (case db_single en ''clearTypingIndicator.pairing''
            (filter (\<lambda>p. pairing_id p = pid) (pairings w)) of
       None \<Rightarrow> w
     | Some p \<Rightarrow>
         broadcastToUser en (partner_of u p)
           \<lparr>e_type = ''typing_indicator'', e_namespace = ''chat'',
            e_data = TypingIndicatorData u pid False, e_timestamp = now en\<rparr> None w)"

definition clearTypingIndicators :: "env \<Rightarrow> string \<Rightarrow> world \<Rightarrow> world" where
  "clearTypingIndicators en u w =
    (case db_select en ''clearTypingIndicators.pairings'' (active_pairings_of u w) of
       None \<Rightarrow> w
     | Some prs \<Rightarrow> fold (\<lambda>p. clearTypingIndicator en u (pairing_id p)) prs w)"

text \<open>\<open>sendPushNotificationIfOffline\<close> decides whether a push would be sent and then only
  logs: the sending itself is not implemented in the source.\<close>

definition push_wanted :: "env \<Rightarrow> string \<Rightarrow> world \<Rightarrow> bool" where
  "push_wanted en u w =
    (let isOnline =
           (case db_single en ''sendPushNotificationIfOffline.presence''
                   (filter (\<lambda>r. user_id r = u) (presence w)) of
              None \<Rightarrow> False
            | Some r \<Rightarrow> presence_status r = ''online'' \<and> now en - last_heartbeat r < 60000)
     in \<not> isOnline \<and>
        (case db_single en ''sendPushNotificationIfOffline.profile''
                (filter (\<lambda>p. profile_id p = u) (profiles w)) of
           None \<Rightarrow> False
         | Some p \<Rightarrow> push_subscription p \<noteq> None))"

definition sendPushNotificationIfOffline :: "env \<Rightarrow> string \<Rightarrow> saved_message \<Rightarrow> world \<Rightarrow> world" where
  "sendPushNotificationIfOffline en u message w = (if push_wanted en u w then w else w)"

definition new_message_row :: "env \<Rightarrow> chat_data \<Rightarrow> message_row" where
  "new_message_row en d =
    \<lparr>message_id = uuidv4 en, msg_pairing_id = cd_pairingId d, sender_id = cd_senderId d,
     content = cd_content d, message_type = cd_messageType d, created_at = now en\<rparr>"

text \<open>The row as \<open>insert(...).select(...).single()\<close> returns it.\<close>

definition saved :: "world \<Rightarrow> message_row \<Rightarrow> saved_message" where
  "saved w row =
    \<lparr>saved_row = row,
     sender = map_option (\<lambda>p. (profile_id p, full_name p, avatar_url p))
                (find (\<lambda>p. profile_id p = sender_id row) (profiles w))\<rparr>"

definition message_received :: "env \<Rightarrow> saved_message \<Rightarrow> string \<Rightarrow> envelope" where
  "message_received en savedMessage pid =
    \<lparr>e_type = ''message_received'', e_namespace = ''chat'',
     e_data = MessageReceivedData savedMessage pid, e_timestamp = now en\<rparr>"

definition message_sent :: "env \<Rightarrow> saved_message \<Rightarrow> string \<Rightarrow> envelope" where
  "message_sent en savedMessage tempId =
    \<lparr>e_type = ''message_sent'', e_namespace = ''chat'',
     e_data = MessageSentData savedMessage tempId, e_timestamp = now en\<rparr>"

definition chat_error :: "env \<Rightarrow> string \<Rightarrow> string \<Rightarrow> envelope" where
  "chat_error en err msg =
    \<lparr>e_type = ''error'', e_namespace = ''chat'', e_data = ErrorData err msg,
     e_timestamp = now en\<rparr>"

definition handleChatMessage :: "env \<Rightarrow> connection \<Rightarrow> ws_message \<Rightarrow> world \<Rightarrow> world" where
  "handleChatMessage en connection message w =
    (case ChatMessageSchema en message of
       None \<Rightarrow> w
     | Some d \<Rightarrow>
         if \<not> hasPermission en w (userId connection) ''send_message'' (Some (cd_pairingId d))
         then socket_send en (conn_id connection)
                (chat_error en ''Forbidden'' ''You cannot send messages to this pairing'') w
         else
           (let row = new_message_row en d;
                w1 = db_write en (InsertMessage row) w
            in if write_fails en (InsertMessage row)
               then socket_send en (conn_id connection)
                      (chat_error en ''Failed to send message''
                         ''Could not save message to database'') w1
               else
                 (let savedMessage = saved w1 row
                  in case db_single en ''handleChatMessage.pairing''
                            (filter (\<lambda>p. pairing_id p = cd_pairingId d) (pairings w1)) of
                       None \<Rightarrow> w1
                     | Some p \<Rightarrow>
                         (let recipientId = partner_of (userId connection) p;
                              w2 = broadcastToUser en recipientId
                                     (message_received en savedMessage (cd_pairingId d)) None w1;
                              w3 = socket_send en (conn_id connection)
                                     (message_sent en savedMessage (m_id message)) w2
                          in if send_throws en (conn_id connection) then w3
                             else sendPushNotificationIfOffline en recipientId savedMessage
                                    (clearTypingIndicator en (userId connection)
                                       (cd_pairingId d) w3)))))"

definition chat_on_close :: "env \<Rightarrow> connection \<Rightarrow> world \<Rightarrow> world" where
  "chat_on_close en connection w =
    clearTypingIndicators en (userId connection) (removeConnection (conn_id connection) w)"


section \<open>Signaling handler\<close>

text \<open>
  The four handlers of the signaling channel, the ending of calls, the timeout task
  and the close callback. The snapshot \<open>signaling_state\<close> sent on connect is not part
  of the model.
\<close>

definition call_error :: "env \<Rightarrow> string \<Rightarrow> string \<Rightarrow> string \<Rightarrow> envelope" where
  "call_error en cid err msg =
    \<lparr>e_type = ''call_error'', e_namespace = ''signaling'', e_data = CallErrorData cid err msg,
     e_timestamp = now en\<rparr>"

definition call_ended :: "env \<Rightarrow> string \<Rightarrow> string \<Rightarrow> int \<Rightarrow> envelope" where
  "call_ended en cid reason duration =
    \<lparr>e_type = ''call_ended'', e_namespace = ''signaling'',
     e_data = CallEndedData cid reason duration, e_timestamp = now en\<rparr>"

text \<open>A user takes part in a call that has not ended: the test of \<open>handleCallOffer\<close>
  (on the callee) and of \<open>endUserCalls\<close>.\<close>

definition in_call :: "string \<Rightarrow> active_call \<Rightarrow> bool" where
  "in_call u call \<longleftrightarrow> (callerId call = u \<or> calleeId call = u) \<and> status call \<noteq> Ended"

text \<open>An assignment to a field of the call object is seen through the map, which holds
  the same object: the entry under the call's key is replaced where it stands.\<close>

definition RING_TIMEOUT :: int where
  "RING_TIMEOUT = 30000"

definition handleCallOffer :: "env \<Rightarrow> connection \<Rightarrow> ws_message \<Rightarrow> world \<Rightarrow> world" where
  "handleCallOffer en connection message w =
    (case CallOfferMessageSchema en message of
       None \<Rightarrow> w
     | Some (d, ct, sdp) \<Rightarrow>
         (case db_single en ''handleCallOffer.pairing''
                 (filter (\<lambda>p. pairing_id p = sd_pairingId d \<and> pairing_status p = ''active'')
                    (pairings w)) of
            None \<Rightarrow>
              socket_send en (conn_id connection)
                (call_error en (callId d) ''Invalid pairing'' ''Pairing not found or not active'') w
          | Some p \<Rightarrow>
              if student_id p \<noteq> userId connection \<and> parent_id p \<noteq> userId connection
              then socket_send en (conn_id connection)
                     (call_error en (callId d) ''Forbidden'' ''You are not part of this pairing'') w
              else
                (let callee = partner_of (userId connection) p;
                     existingCall = find (in_call callee) (map_values (activeCalls w))
                 in case existingCall of
                      Some c \<Rightarrow>
                        socket_send en (conn_id connection)
                          (call_error en (callId d) ''User busy''
                             ''The user is currently in another call'') w
                    | None \<Rightarrow>
                        (let call = \<lparr>call_id = callId d, pairingId = sd_pairingId d,
                                     callerId = userId connection, calleeId = callee,
                                     callType = ct, status = Initiated, startedAt = now en,
                                     connectedAt = None, endedAt = None\<rparr>;
                             w1 = w\<lparr>activeCalls := map_set (activeCalls w) (call_id call) call\<rparr>;
                             w2 = db_write en
                                    (InsertCall \<lparr>row_id = call_id call,
                                       row_pairing_id = pairingId call, caller_id = callerId call,
                                       callee_id = calleeId call, call_type = callType call,
                                       row_status = ''initiated'', started_at = startedAt call\<rparr>) w1;
                             w3 = broadcastToUser en callee
                                    \<lparr>e_type = ''call_offer_received'', e_namespace = ''signaling'',
                                     e_data = CallOfferReceivedData (call_id call) (pairingId call)
                                                (callerId call) (callType call) sdp,
                                     e_timestamp = now en\<rparr> None w2;
                             w4 = w3\<lparr>activeCalls :=
                                       map_set (activeCalls w3) (call_id call)
                                         (call\<lparr>status := Ringing\<rparr>)\<rparr>;
                             w5 = db_write en (UpdateCallStatus (call_id call) ''ringing'') w4;
                             w6 = socket_send en (conn_id connection)
                                    \<lparr>e_type = ''call_offer_sent'', e_namespace = ''signaling'',
                                     e_data = CallOfferSentData (call_id call) ''ringing'',
                                     e_timestamp = now en\<rparr> w5
                         in if send_throws en (conn_id connection) then w6
                            else w6\<lparr>timers := timers w6 @
                                       [(now en + RING_TIMEOUT, call_id call)]\<rparr>))))"

definition handleCallAnswer :: "env \<Rightarrow> connection \<Rightarrow> ws_message \<Rightarrow> world \<Rightarrow> world" where
  "handleCallAnswer en connection message w =
    (case CallAnswerMessageSchema en message of
       None \<Rightarrow> w
     | Some (d, sdp) \<Rightarrow>
         (case map_get (activeCalls w) (callId d) of
            None \<Rightarrow>
              socket_send en (conn_id connection)
                (call_error en (callId d) ''Call not found'' ''Call does not exist or has ended'') w
          | Some call \<Rightarrow>
              if calleeId call \<noteq> userId connection
              then socket_send en (conn_id connection)
                     (call_error en (call_id call) ''Forbidden''
                        ''You are not the callee for this call'') w
              else
                (let call' = call\<lparr>status := Connected, connectedAt := Some (now en)\<rparr>;
                     w1 = w\<lparr>activeCalls := map_set (activeCalls w) (callId d) call'\<rparr>;
                     w2 = db_write en (UpdateCallConnected (call_id call') (now en)) w1;
                     w3 = broadcastToUser en (callerId call')
                            \<lparr>e_type = ''call_answer_received'', e_namespace = ''signaling'',
                             e_data = CallAnswerReceivedData (call_id call') sdp,
                             e_timestamp = now en\<rparr> None w2
                 in socket_send en (conn_id connection)
                      \<lparr>e_type = ''call_answered'', e_namespace = ''signaling'',
                       e_data = CallAnsweredData (call_id call') ''connected'',
                       e_timestamp = now en\<rparr> w3)))"

definition handleCallCandidate :: "env \<Rightarrow> connection \<Rightarrow> ws_message \<Rightarrow> world \<Rightarrow> world" where
  "handleCallCandidate en connection message w =
    (case CallCandidateMessageSchema en message of
       None \<Rightarrow> w
     | Some (d, candidate) \<Rightarrow>
         (case map_get (activeCalls w) (callId d) of
            None \<Rightarrow> w
          | Some call \<Rightarrow>
              if callerId call \<noteq> userId connection \<and> calleeId call \<noteq> userId connection then w
              else
                (let targetId = (if callerId call = userId connection
                                 then calleeId call else callerId call)
                 in broadcastToUser en targetId
                      \<lparr>e_type = ''call_candidate_received'', e_namespace = ''signaling'',
                       e_data = CallCandidateReceivedData (call_id call) candidate,
                       e_timestamp = now en\<rparr> None w)))"

definition call_duration :: "active_call \<Rightarrow> int \<Rightarrow> int" where
  "call_duration call ended =
    (case connectedAt call of Some t \<Rightarrow> (ended - t) div 1000 | None \<Rightarrow> 0)"

definition endCall :: "env \<Rightarrow> string \<Rightarrow> string \<Rightarrow> world \<Rightarrow> world" where
  "endCall en cid reason w =
    (case map_get (activeCalls w) cid of
       None \<Rightarrow> w
     | Some call0 \<Rightarrow>
         (let call = call0\<lparr>status := Ended, endedAt := Some (now en)\<rparr>;
              w1 = w\<lparr>activeCalls := map_set (activeCalls w) cid call\<rparr>;
              duration = call_duration call (now en);
              w2 = db_write en (UpdateCallEnded (call_id call) (now en) duration reason) w1;
              hangupMessage = call_ended en (call_id call) reason duration;
              w3 = broadcastToUser en (callerId call) hangupMessage None w2;
              w4 = broadcastToUser en (calleeId call) hangupMessage None w3
          in w4\<lparr>activeCalls := map_delete (activeCalls w4) cid\<rparr>))"

definition handleCallHangup :: "env \<Rightarrow> connection \<Rightarrow> ws_message \<Rightarrow> world \<Rightarrow> world" where
  "handleCallHangup en connection message w =
    (case CallHangupMessageSchema en message of
       None \<Rightarrow> w
     | Some (d, reason) \<Rightarrow>
         endCall en (callId d)
           (case reason of None \<Rightarrow> ''hangup'' | Some r \<Rightarrow> if r = [] then ''hangup'' else r) w)"

definition endUserCalls :: "env \<Rightarrow> string \<Rightarrow> string \<Rightarrow> world \<Rightarrow> world" where
  "endUserCalls en u reason w =
    (let userCalls = filter (in_call u) (map_values (activeCalls w))
     in fold (\<lambda>call. endCall en (call_id call) reason) userCalls w)"

text \<open>The callback that \<open>handleCallOffer\<close> hands to \<open>setTimeout\<close>, and its firing: a
  pending task runs once its time has come.\<close>

definition ringing_timeout :: "env \<Rightarrow> string \<Rightarrow> world \<Rightarrow> world" where
  "ringing_timeout en cid w =
    (case map_get (activeCalls w) cid of
       None \<Rightarrow> w
     | Some currentCall \<Rightarrow>
         if status currentCall = Ringing then endCall en cid ''timeout'' w else w)"

definition fire_timer :: "env \<Rightarrow> int \<times> string \<Rightarrow> world \<Rightarrow> world" where
  "fire_timer en task w =
    (if task \<in> set (timers w) \<and> fst task \<le> now en
     then ringing_timeout en (snd task) (w\<lparr>timers := remove1 task (timers w)\<rparr>)
     else w)"

definition signaling_on_close :: "env \<Rightarrow> connection \<Rightarrow> world \<Rightarrow> world" where
  "signaling_on_close en connection w =
    endUserCalls en (userId connection) ''connection_lost''
      (removeConnection (conn_id connection) w)"


section \<open>The connection registry keeps its indexes consistent\<close>

text \<open>The two indexes agree: the keys of both maps are distinct, each connection stands
  under its own id and its user is indexed, and each entry of the by-user index is a
  non-empty set holding exactly the ids of that user's connections.\<close>

definition ids_of_user :: "string \<Rightarrow> (string \<times> connection) list \<Rightarrow> string list" where
  "ids_of_user u cs = map fst (filter (\<lambda>(i, c). userId c = u) cs)"

definition registry_inv :: "world \<Rightarrow> bool" where
  "registry_inv w \<longleftrightarrow>
     distinct (map fst (connections w)) \<and>
     distinct (map fst (userConnections w)) \<and>
     list_all (\<lambda>(i, c). conn_id c = i \<and> map_has (userConnections w) (userId c)) (connections w) \<and>
     list_all (\<lambda>(u, s). s \<noteq> [] \<and> distinct s \<and> set s = set (ids_of_user u (connections w)))
       (userConnections w)"

definition sem_inv :: "(string \<rightharpoonup> connection) \<Rightarrow> (string \<rightharpoonup> string list) \<Rightarrow> bool" where
  "sem_inv C U \<longleftrightarrow>
     (\<forall>i c. C i = Some c \<longrightarrow> conn_id c = i \<and> U (userId c) \<noteq> None) \<and>
     (\<forall>u s. U u = Some s \<longrightarrow> s \<noteq> [] \<and> distinct s \<and> set s = {i. \<exists>c. C i = Some c \<and> userId c = u})"

lemma set_ids_of_user:
  "distinct (map fst cs) \<Longrightarrow> set (ids_of_user u cs) = {i. \<exists>c. map_of cs i = Some c \<and> userId c = u}"
  by (auto simp: ids_of_user_def image_iff)

lemma list_all_map_of:
  "distinct (map fst al) \<Longrightarrow>
   list_all (\<lambda>(k, v). Q k v) al \<longleftrightarrow> (\<forall>k v. map_of al k = Some v \<longrightarrow> Q k v)"
  by (auto simp: list_all_iff)

lemma registry_inv_iff:
  "registry_inv w \<longleftrightarrow>
     distinct (map fst (connections w)) \<and> distinct (map fst (userConnections w)) \<and>
     sem_inv (map_of (connections w)) (map_of (userConnections w))"
proof (cases "distinct (map fst (connections w)) \<and> distinct (map fst (userConnections w))")
  case True
  then show ?thesis
    unfolding registry_inv_def sem_inv_def
    by (simp add: list_all_map_of set_ids_of_user map_has_def)
next
  case False
  then show ?thesis by (auto simp: registry_inv_def)
qed

lemma map_of_connections_add:
  "map_of (connections (addConnection c w)) = (map_of (connections w))(conn_id c \<mapsto> c)"
  by (simp add: addConnection_def Let_def map_set_def map_get_def map_has_def AList.update_conv' split: option.splits)

lemma map_of_userConnections_add:
  "map_of (userConnections (addConnection c w)) =
     (map_of (userConnections w))(userId c \<mapsto>
        set_add (case map_of (userConnections w) (userId c) of None \<Rightarrow> [] | Some s \<Rightarrow> s) (conn_id c))"
  by (auto simp add: addConnection_def Let_def map_set_def map_get_def map_has_def AList.update_conv' split: option.splits)

lemma distinct_add:
  "distinct (map fst (connections w)) \<Longrightarrow> distinct (map fst (userConnections w)) \<Longrightarrow>
   distinct (map fst (connections (addConnection c w))) \<and> distinct (map fst (userConnections (addConnection c w)))"
  by (auto simp add: addConnection_def Let_def map_set_def map_get_def map_has_def AList.distinct_update split: option.splits)

lemma set_add_props:
  "set (set_add s x) = insert x (set s)" "distinct s \<Longrightarrow> distinct (set_add s x)" "set_add s x \<noteq> []"
  by (auto simp: set_add_def)

lemma sem_inv_add:
  assumes "sem_inv C U" and "case C (conn_id c) of None \<Rightarrow> True | Some c' \<Rightarrow> userId c' = userId c"
  shows "sem_inv (C(conn_id c \<mapsto> c)) (U(userId c \<mapsto> set_add (case U (userId c) of None \<Rightarrow> [] | Some s \<Rightarrow> s) (conn_id c)))"
proof -
  define i where "i = conn_id c"
  define u where "u = userId c"
  define old where "old = (case U u of None \<Rightarrow> [] | Some s \<Rightarrow> s)"
  define C' where "C' = C(i \<mapsto> c)"
  define U' where "U' = U(u \<mapsto> set_add old i)"
  have C: "\<And>j c'. C j = Some c' \<Longrightarrow> conn_id c' = j \<and> U (userId c') \<noteq> None"
    and U: "\<And>v s. U v = Some s \<Longrightarrow> s \<noteq> [] \<and> distinct s \<and> set s = {j. \<exists>c'. C j = Some c' \<and> userId c' = v}"
    using assms(1) unfolding sem_inv_def by blast+
  have old_set: "set old = {j. \<exists>c'. C j = Some c' \<and> userId c' = u}"
  proof (cases "U u")
    case None
    then have "\<And>j c'. C j = Some c' \<Longrightarrow> userId c' \<noteq> u" using C by metis
    with None show ?thesis by (auto simp: old_def)
  next
    case (Some s)
    then show ?thesis using U[OF Some] by (simp add: old_def)
  qed
  have old_distinct: "distinct old"
    using U by (cases "U u") (auto simp: old_def)
  have same: "\<And>c'. C i = Some c' \<Longrightarrow> userId c' = u"
    using assms(2) by (auto simp: i_def u_def split: option.splits)
  have new_u: "{j. \<exists>c'. C' j = Some c' \<and> userId c' = u} = insert i (set old)"
    unfolding old_set C'_def by (auto simp: u_def)
  have new_other: "{j. \<exists>c'. C' j = Some c' \<and> userId c' = v} = {j. \<exists>c'. C j = Some c' \<and> userId c' = v}"
    if "v \<noteq> u" for v
    using that same unfolding C'_def by (auto simp: u_def)
  have "sem_inv C' U'"
    unfolding sem_inv_def
  proof (intro conjI allI impI)
    fix j c' assume "C' j = Some c'"
    then show "conn_id c' = j" using C by (auto simp: C'_def i_def split: if_splits)
  next
    fix j c' assume "C' j = Some c'"
    then show "U' (userId c') \<noteq> None" using C by (auto simp: C'_def U'_def u_def split: if_splits)
  next
    fix v s assume "U' v = Some s"
    then show "s \<noteq> []" using U by (auto simp: U'_def set_add_props(3) split: if_splits)
  next
    fix v s assume "U' v = Some s"
    then show "distinct s" using old_distinct U by (auto simp: U'_def set_add_props(2) split: if_splits)
  next
    fix v s assume a: "U' v = Some s"
    show "set s = {j. \<exists>c'. C' j = Some c' \<and> userId c' = v}"
    proof (cases "v = u")
      case True
      with a have "s = set_add old i" by (simp add: U'_def)
      then show ?thesis using new_u True by (simp add: set_add_props(1))
    next
      case False
      with a have "U v = Some s" by (simp add: U'_def)
      then show ?thesis using U new_other[OF False] by simp
    qed
  qed
  then show ?thesis by (simp add: C'_def U'_def old_def i_def u_def)
qed


lemma sem_inv_remove:
  assumes inv: "sem_inv C U" and c: "C cid = Some c" and s: "U (userId c) = Some s"
  shows "sem_inv (C(cid := None))
           (if set_delete s cid = [] then U(userId c := None) else U(userId c \<mapsto> set_delete s cid))"
proof -
  define u where "u = userId c"
  define s' where "s' = set_delete s cid"
  define C' where "C' = C(cid := None)"
  define U' where "U' = (if s' = [] then U(u := None) else U(u \<mapsto> s'))"
  have C: "\<And>j c'. C j = Some c' \<Longrightarrow> conn_id c' = j \<and> U (userId c') \<noteq> None"
    and U: "\<And>v t. U v = Some t \<Longrightarrow> t \<noteq> [] \<and> distinct t \<and> set t = {j. \<exists>c'. C j = Some c' \<and> userId c' = v}"
    using inv unfolding sem_inv_def by blast+
  have s_set: "set s = {j. \<exists>c'. C j = Some c' \<and> userId c' = u}" and s_dist: "distinct s"
    using U[OF s] by (simp_all add: u_def)
  have s'_set: "set s' = {j. \<exists>c'. C' j = Some c' \<and> userId c' = u}"
    unfolding s'_def set_delete_def C'_def using s_set by auto
  have s'_dist: "distinct s'"
    unfolding s'_def set_delete_def using s_dist by (simp add: distinct_removeAll)
  have other: "{j. \<exists>c'. C' j = Some c' \<and> userId c' = v} = {j. \<exists>c'. C j = Some c' \<and> userId c' = v}"
    if "v \<noteq> u" for v
    using that c unfolding C'_def u_def by auto
  have "sem_inv C' U'"
    unfolding sem_inv_def
  proof (intro conjI allI impI)
    fix j c' assume "C' j = Some c'"
    then show "conn_id c' = j" using C by (auto simp: C'_def split: if_splits)
  next
    fix j c' assume a: "C' j = Some c'"
    then have Cj: "C j = Some c'" by (auto simp: C'_def split: if_splits)
    show "U' (userId c') \<noteq> None"
    proof (cases "userId c' = u")
      case True
      with a have "j \<in> set s'" using s'_set by auto
      then have "s' \<noteq> []" by auto
      then show ?thesis using True by (simp add: U'_def)
    next
      case False
      then show ?thesis using C[OF Cj] by (simp add: U'_def)
    qed
  next
    fix v t assume "U' v = Some t"
    then show "t \<noteq> []" using U by (auto simp: U'_def split: if_splits)
  next
    fix v t assume "U' v = Some t"
    then show "distinct t" using U s'_dist by (auto simp: U'_def split: if_splits)
  next
    fix v t assume a: "U' v = Some t"
    show "set t = {j. \<exists>c'. C' j = Some c' \<and> userId c' = v}"
    proof (cases "v = u")
      case True
      with a have "t = s'" by (auto simp: U'_def split: if_splits)
      then show ?thesis using s'_set True by simp
    next
      case False
      with a have "U v = Some t" by (auto simp: U'_def split: if_splits)
      then show ?thesis using U other[OF False] by simp
    qed
  qed
  then show ?thesis unfolding C'_def U'_def s'_def u_def .
qed

lemma registry_inv_add:
  assumes "registry_inv w"
    and "case map_get (connections w) (conn_id c) of None \<Rightarrow> True | Some c' \<Rightarrow> userId c' = userId c"
  shows "registry_inv (addConnection c w)"
  using assms sem_inv_add[of "map_of (connections w)" "map_of (userConnections w)" c]
  by (simp add: registry_inv_iff distinct_add map_of_connections_add map_of_userConnections_add map_get_def)

lemma removeConnection_absent:
  "map_get (connections w) cid = None \<Longrightarrow> removeConnection cid w = w"
  by (simp add: removeConnection_def)

lemma registry_inv_remove:
  assumes "registry_inv w"
  shows "registry_inv (removeConnection cid w)"
proof (cases "map_of (connections w) cid")
  case None
  then show ?thesis using assms by (simp add: removeConnection_def map_get_def)
next
  case (Some c)
  have inv: "sem_inv (map_of (connections w)) (map_of (userConnections w))"
    and d: "distinct (map fst (connections w))" "distinct (map fst (userConnections w))"
    using assms by (simp_all add: registry_inv_iff)
  from inv Some obtain s where s: "map_of (userConnections w) (userId c) = Some s"
    unfolding sem_inv_def by blast
  show ?thesis
    using sem_inv_remove[OF inv Some s] d Some s
    by (simp add: registry_inv_iff removeConnection_def map_get_def map_delete_def map_set_def
        Let_def AList.delete_conv' AList.update_conv' AList.distinct_delete AList.distinct_update
        split: if_splits)
qed

lemma sem_inv_heartbeat:
  assumes inv: "sem_inv C U" and c: "C i = Some c"
  shows "sem_inv (C(i \<mapsto> c\<lparr>lastHeartbeat := t\<rparr>)) U"
proof -
  have C: "\<And>j c'. C j = Some c' \<Longrightarrow> conn_id c' = j \<and> U (userId c') \<noteq> None"
    and U: "\<And>v s. U v = Some s \<Longrightarrow> s \<noteq> [] \<and> distinct s \<and> set s = {j. \<exists>c'. C j = Some c' \<and> userId c' = v}"
    using inv unfolding sem_inv_def by blast+
  have same: "{j. \<exists>c'. (C(i \<mapsto> c\<lparr>lastHeartbeat := t\<rparr>)) j = Some c' \<and> userId c' = v} =
              {j. \<exists>c'. C j = Some c' \<and> userId c' = v}" for v
    using c by auto
  show ?thesis
    unfolding sem_inv_def same
    using C U C[OF c] by (auto split: if_splits)
qed

lemma registry_inv_heartbeat:
  assumes "registry_inv w"
  shows "registry_inv (updateHeartbeat en c w)"
proof (cases "map_of (connections w) (conn_id c)")
  case None
  then show ?thesis using assms by (simp add: updateHeartbeat_def map_get_def)
next
  case (Some c0)
  have inv: "sem_inv (map_of (connections w)) (map_of (userConnections w))"
    and d: "distinct (map fst (connections w))" "distinct (map fst (userConnections w))"
    using assms by (simp_all add: registry_inv_iff)
  show ?thesis
    using sem_inv_heartbeat[OF inv Some, of "now en"] d Some
    by (simp add: registry_inv_iff updateHeartbeat_def map_get_def map_set_def
        AList.update_conv' AList.distinct_update)
qed

lemma registry_inv_trace [simp]: "registry_inv (w\<lparr>trace := t\<rparr>) = registry_inv w"
  by (simp add: registry_inv_def)

lemma registry_inv_broadcast_one:
  "registry_inv w \<Longrightarrow> registry_inv (broadcast_one en m ex conn w)"
  by (simp add: broadcast_one_def socket_send_def Let_def registry_inv_remove)

lemma registry_inv_fold:
  "(\<And>x v. P v \<Longrightarrow> P (f x v)) \<Longrightarrow> P w \<Longrightarrow> P (fold f xs w)"
  by (induction xs arbitrary: w) auto

lemma registry_inv_broadcastToUser:
  "registry_inv w \<Longrightarrow> registry_inv (broadcastToUser en u m ex w)"
  unfolding broadcastToUser_def
  by (rule registry_inv_fold[where P = registry_inv]) (simp_all add: registry_inv_broadcast_one)

lemma registry_inv_sweep:
  "registry_inv w \<Longrightarrow> registry_inv (sweep t w)"
  unfolding sweep_def
  by (rule registry_inv_fold[where P = registry_inv]) (simp_all add: registry_inv_remove)


text \<open>The states of the registry. \<open>add_ok\<close>: the id of the connection is new, or is
  registered for the same user. The sweep is a sequence of \<open>removeConnection\<close> steps.
  The last rule lets every other part of the state change.\<close>

definition add_ok :: "connection \<Rightarrow> world \<Rightarrow> bool" where
  "add_ok c w =
    (case map_get (connections w) (conn_id c) of None \<Rightarrow> True | Some c' \<Rightarrow> userId c' = userId c)"

inductive registry_reachable :: "world \<Rightarrow> bool" where
  start: "connections w = [] \<Longrightarrow> userConnections w = [] \<Longrightarrow> registry_reachable w"
| add: "registry_reachable w \<Longrightarrow> add_ok c w \<Longrightarrow> registry_reachable (addConnection c w)"
| remove: "registry_reachable w \<Longrightarrow> registry_reachable (removeConnection cid w)"
| broadcast: "registry_reachable w \<Longrightarrow> registry_reachable (broadcastToUser en u m ex w)"
| heartbeat: "registry_reachable w \<Longrightarrow> registry_reachable (updateHeartbeat en c w)"
| other: "registry_reachable w \<Longrightarrow> connections w' = connections w \<Longrightarrow>
          userConnections w' = userConnections w \<Longrightarrow> registry_reachable w'"

definition indexed_ids :: "world \<Rightarrow> string \<Rightarrow> string list" where
  "indexed_ids w u = (case map_get (userConnections w) u of None \<Rightarrow> [] | Some s \<Rightarrow> s)"

definition world0 :: world where
  "world0 = \<lparr>connections = [], userConnections = [], activeCalls = [], timers = [],
     profiles = [], pairings = [], presence = [], trace = []\<rparr>"

definition conn_a :: connection where
  "conn_a = \<lparr>conn_id = ''c1'', userId = ''u1'', orgId = ''o1'', userType = Student,
     lastHeartbeat = 0, namespace = ''chat''\<rparr>"

definition conn_b :: connection where
  "conn_b = \<lparr>conn_id = ''c1'', userId = ''u2'', orgId = ''o1'', userType = Parent,
     lastHeartbeat = 5, namespace = ''chat''\<rparr>"

definition conn_c :: connection where
  "conn_c = \<lparr>conn_id = ''c2'', userId = ''u1'', orgId = ''o1'', userType = Student,
     lastHeartbeat = 7, namespace = ''presence''\<rparr>"

lemma registry_inv_cong:
  "connections w' = connections w \<Longrightarrow> userConnections w' = userConnections w \<Longrightarrow>
   registry_inv w' = registry_inv w"
  by (simp add: registry_inv_def)

lemma registry_reachable_inv: "registry_reachable w \<Longrightarrow> registry_inv w"
proof (induction rule: registry_reachable.induct)
  case (start w)
  then show ?case by (simp add: registry_inv_def)
next
  case (add w c)
  from add.IH add.hyps(2) show ?case
    unfolding add_ok_def by (rule registry_inv_add)
next
  case (remove w cid)
  from remove.IH show ?case by (rule registry_inv_remove)
next
  case (broadcast w en u m ex)
  from broadcast.IH show ?case by (rule registry_inv_broadcastToUser)
next
  case (heartbeat w en c)
  from heartbeat.IH show ?case by (rule registry_inv_heartbeat)
next
  case (other w w')
  from other.IH registry_inv_cong[OF other.hyps(2) other.hyps(3)] show ?case by simp
qed

lemma sem_invD1: "sem_inv C U \<Longrightarrow> C i = Some c \<Longrightarrow> conn_id c = i \<and> U (userId c) \<noteq> None"
  by (simp add: sem_inv_def)

lemma sem_invD2:
  "sem_inv C U \<Longrightarrow> U u = Some s \<Longrightarrow>
   s \<noteq> [] \<and> distinct s \<and> set s = {i. \<exists>c. C i = Some c \<and> userId c = u}"
  by (simp add: sem_inv_def)

lemma registry_inv_indexed:
  assumes "registry_inv w"
  shows "set (indexed_ids w u) = {i. \<exists>c. map_get (connections w) i = Some c \<and> userId c = u}"
    and "map_get (userConnections w) u \<noteq> Some []"
proof -
  have inv: "sem_inv (map_of (connections w)) (map_of (userConnections w))"
    using assms by (simp add: registry_inv_iff)
  show "map_get (userConnections w) u \<noteq> Some []"
    using sem_invD2[OF inv, of u "[]"] by (auto simp: map_get_def)
  show "set (indexed_ids w u) = {i. \<exists>c. map_get (connections w) i = Some c \<and> userId c = u}"
  proof (cases "map_of (userConnections w) u")
    case None
    have "userId c \<noteq> u" if "map_of (connections w) i = Some c" for i c
      using sem_invD1[OF inv that] None by auto
    with None show ?thesis by (auto simp: indexed_ids_def map_get_def)
  next
    case (Some s)
    then show ?thesis using sem_invD2[OF inv Some] by (simp add: indexed_ids_def map_get_def)
  qed
qed

text \<open>
  Claim C9, as amended. In every state of the registry reached from the empty one by
  \<open>addConnection\<close>, \<open>removeConnection\<close>, \<open>broadcastToUser\<close> and the refreshing of a
  heartbeat, where no
  \<open>addConnection\<close> reuses the id of a registered connection for another user, the
  by-user index holds for each user exactly the ids of the connections of the by-id map
  whose \<open>userId\<close> is that user, no user is mapped to an empty set, and
  \<open>removeConnection\<close> of an id that the by-id map does not hold changes nothing.
\<close>

theorem registry_indexes_consistent:
  "registry_reachable w \<Longrightarrow>
     set (indexed_ids w u) = {i. \<exists>c. map_get (connections w) i = Some c \<and> userId c = u} \<and>
     map_get (userConnections w) u \<noteq> Some [] \<and>
     (map_get (connections w) cid = None \<longrightarrow> removeConnection cid w = w)"
proof -
  assume "registry_reachable w"
  then have inv: "registry_inv w" by (rule registry_reachable_inv)
  show ?thesis
    using registry_inv_indexed(1)[OF inv, of u] registry_inv_indexed(2)[OF inv, of u]
      removeConnection_absent[of w cid]
    by simp
qed

lemma reachable_example:
  "registry_reachable (removeConnection ''c1'' (addConnection conn_c (addConnection conn_a world0)))"
  by (intro registry_reachable.intros) (simp_all add: world0_def add_ok_def map_get_def addConnection_def
      conn_a_def conn_c_def map_set_def map_has_def Let_def)

text \<open>The theorem at a concrete run: two connections of one user are registered, the
  first is removed, and removing it once more changes nothing.\<close>

theorem registry_indexes_consistent_witness:
  "registry_reachable (removeConnection ''c1'' (addConnection conn_c (addConnection conn_a world0))) \<and>
   set (indexed_ids (removeConnection ''c1'' (addConnection conn_c (addConnection conn_a world0))) ''u1'')
     = {''c2''} \<and>
   map_get (connections (removeConnection ''c1'' (addConnection conn_c (addConnection conn_a world0)))) ''c1'' = None \<and>
   removeConnection ''c1'' (removeConnection ''c1'' (addConnection conn_c (addConnection conn_a world0)))
     = removeConnection ''c1'' (addConnection conn_c (addConnection conn_a world0))"
proof -
  let ?w = "removeConnection ''c1'' (addConnection conn_c (addConnection conn_a world0))"
  have r: "registry_reachable ?w" by (rule reachable_example)
  have ev: "indexed_ids ?w ''u1'' = [''c2'']" "map_get (connections ?w) ''c1'' = None"
    by (simp_all add: world0_def map_get_def addConnection_def removeConnection_def indexed_ids_def
      conn_a_def conn_c_def map_set_def map_has_def map_delete_def set_add_def set_delete_def Let_def)
  from registry_indexes_consistent[OF r, of "''u1''" "''c1''"] ev r show ?thesis by simp
qed

text \<open>
  Claim C9 as stated fails: \<open>addConnection\<close> does not look at the by-user index of the
  connection it replaces. Registering the id \<open>c1\<close> for user \<open>u1\<close> and then for user
  \<open>u2\<close> leaves \<open>c1\<close> in the set of \<open>u1\<close>, while the by-id map holds it for \<open>u2\<close>.
\<close>

theorem registry_id_reuse_counterexample:
  "map_get (userConnections (addConnection conn_b (addConnection conn_a world0))) ''u1'' = Some [''c1''] \<and>
   map_option userId (map_get (connections (addConnection conn_b (addConnection conn_a world0))) ''c1'')
     = Some ''u2''"
  by (simp add: world0_def map_get_def addConnection_def conn_a_def conn_b_def map_set_def map_has_def
      set_add_def Let_def)


section \<open>Effects of the primitives\<close>

text \<open>What the sends, the writes and the registry operations leave unchanged, and what
  they add to the trace.\<close>

lemma fold_frame: "(\<And>x v. g (f x v) = g v) \<Longrightarrow> g (fold f xs w) = g w"
  by (induction xs arbitrary: w) auto

lemma socket_send_frame [simp]:
  "activeCalls (socket_send en c e w) = activeCalls w"
  "timers (socket_send en c e w) = timers w"
  "connections (socket_send en c e w) = connections w"
  "userConnections (socket_send en c e w) = userConnections w"
  "profiles (socket_send en c e w) = profiles w"
  "pairings (socket_send en c e w) = pairings w"
  "presence (socket_send en c e w) = presence w"
  "trace (socket_send en c e w) = trace w @ [Send c e (\<not> send_throws en c)]"
  by (simp_all add: socket_send_def)

lemma removeConnection_frame [simp]:
  "activeCalls (removeConnection c w) = activeCalls w"
  "timers (removeConnection c w) = timers w"
  "profiles (removeConnection c w) = profiles w"
  "pairings (removeConnection c w) = pairings w"
  "presence (removeConnection c w) = presence w"
  "trace (removeConnection c w) = trace w"
  by (simp_all add: removeConnection_def Let_def split: option.splits)

lemma broadcast_one_frame [simp]:
  "activeCalls (broadcast_one en m ex conn w) = activeCalls w"
  "timers (broadcast_one en m ex conn w) = timers w"
  "profiles (broadcast_one en m ex conn w) = profiles w"
  "pairings (broadcast_one en m ex conn w) = pairings w"
  "presence (broadcast_one en m ex conn w) = presence w"
  by (simp_all add: broadcast_one_def Let_def)

lemma broadcastToUser_frame [simp]:
  "activeCalls (broadcastToUser en u m ex w) = activeCalls w"
  "timers (broadcastToUser en u m ex w) = timers w"
  "profiles (broadcastToUser en u m ex w) = profiles w"
  "pairings (broadcastToUser en u m ex w) = pairings w"
  "presence (broadcastToUser en u m ex w) = presence w"
  unfolding broadcastToUser_def
  by (rule fold_frame, simp)+

lemma db_write_frame [simp]:
  "activeCalls (db_write en op w) = activeCalls w"
  "timers (db_write en op w) = timers w"
  "connections (db_write en op w) = connections w"
  "userConnections (db_write en op w) = userConnections w"
  "profiles (db_write en op w) = profiles w"
  "pairings (db_write en op w) = pairings w"
  "trace (db_write en op w) = trace w @ [DbWrite op (\<not> write_fails en op)]"
  by (simp_all add: db_write_def apply_write_def split: db_write.splits)

text \<open>\<open>is_send_of e\<close>: the event is a send of the envelope \<open>e\<close>, on any connection.
  \<open>new_events w w'\<close>: the events that the step from \<open>w\<close> to \<open>w'\<close> added.\<close>

definition is_send_of :: "envelope \<Rightarrow> event \<Rightarrow> bool" where
  "is_send_of e ev = (case ev of Send c e' ok \<Rightarrow> e' = e | DbWrite op ok \<Rightarrow> False)"

definition new_events :: "world \<Rightarrow> world \<Rightarrow> event list" where
  "new_events w w' = drop (length (trace w)) (trace w')"

lemma broadcast_one_trace:
  "\<exists>evs. trace (broadcast_one en m ex conn w) = trace w @ evs \<and> list_all (is_send_of m) evs"
  by (simp add: broadcast_one_def Let_def is_send_of_def)

lemma broadcast_fold_trace:
  "\<exists>evs. trace (fold (broadcast_one en m ex) conns w) = trace w @ evs \<and> list_all (is_send_of m) evs"
proof (induction conns arbitrary: w)
  case Nil
  then show ?case by simp
next
  case (Cons c conns)
  obtain e1 where e1: "trace (broadcast_one en m ex c w) = trace w @ e1" "list_all (is_send_of m) e1"
    using broadcast_one_trace by blast
  obtain e2 where e2: "trace (fold (broadcast_one en m ex) conns (broadcast_one en m ex c w))
      = trace (broadcast_one en m ex c w) @ e2" "list_all (is_send_of m) e2"
    using Cons.IH by blast
  show ?case
    by (rule exI[of _ "e1 @ e2"]) (simp add: e1 e2)
qed

lemma broadcastToUser_trace:
  "\<exists>evs. trace (broadcastToUser en u m ex w) = trace w @ evs \<and> list_all (is_send_of m) evs"
  unfolding broadcastToUser_def by (rule broadcast_fold_trace)


section \<open>The call-signaling engine: reachable states\<close>

text \<open>
  Between two handlers every call of the map is ringing, and then not yet connected, or
  connected (\<open>settled\<close>); \<open>initiated\<close> and \<open>ended\<close> are held only inside
  \<open>handleCallOffer\<close> and \<open>endCall\<close>. The invariant of the map: its keys are distinct,
  every call stands under its own id and is settled, and no two calls have the same
  callee. Each handler is taken as one step: the interleaving of two handlers at an
  \<open>await\<close> is not modelled.
\<close>

definition settled :: "active_call \<Rightarrow> bool" where
  "settled c \<longleftrightarrow> status c = Connected \<or> status c = Ringing \<and> connectedAt c = None"

definition calls_inv :: "world \<Rightarrow> bool" where
  "calls_inv w \<longleftrightarrow>
     distinct (map fst (activeCalls w)) \<and>
     distinct (map (\<lambda>kc. calleeId (snd kc)) (activeCalls w)) \<and>
     list_all (\<lambda>(k, c). call_id c = k \<and> settled c) (activeCalls w)"

text \<open>The call that an accepted offer leaves in the map.\<close>

definition ringing_call :: "env \<Rightarrow> connection \<Rightarrow> signal_data \<Rightarrow> string \<Rightarrow> pairing \<Rightarrow> active_call" where
  "ringing_call en connection d ct p =
    \<lparr>call_id = callId d, pairingId = sd_pairingId d, callerId = userId connection,
     calleeId = partner_of (userId connection) p, callType = ct, status = Ringing,
     startedAt = now en, connectedAt = None, endedAt = None\<rparr>"

lemma handleCallOffer_accepted:
  assumes "CallOfferMessageSchema en m = Some (d, ct, sdp)"
    and "db_single en ''handleCallOffer.pairing''
           (filter (\<lambda>p. pairing_id p = sd_pairingId d \<and> pairing_status p = ''active'') (pairings w)) = Some p"
    and "student_id p = userId connection \<or> parent_id p = userId connection"
    and "find (in_call (partner_of (userId connection) p)) (map_values (activeCalls w)) = None"
  shows "activeCalls (handleCallOffer en connection m w) =
           map_set (activeCalls w) (callId d) (ringing_call en connection d ct p)"
    and "timers (handleCallOffer en connection m w) =
           (if send_throws en (conn_id connection) then timers w
            else timers w @ [(now en + RING_TIMEOUT, callId d)])"
  using assms
  by (auto simp add: handleCallOffer_def Let_def ringing_call_def map_set_def)

lemma handleCallOffer_calls:
  "activeCalls (handleCallOffer en connection m w) = activeCalls w \<or>
   (\<exists>d ct p. find (in_call (partner_of (userId connection) p)) (map_values (activeCalls w)) = None \<and>
      activeCalls (handleCallOffer en connection m w) =
        map_set (activeCalls w) (callId d) (ringing_call en connection d ct p))"
proof (cases "CallOfferMessageSchema en m")
  case None
  then show ?thesis by (simp add: handleCallOffer_def)
next
  case (Some x)
  obtain d ct sdp where x: "x = (d, ct, sdp)" by (cases x) auto
  show ?thesis
  proof (cases "db_single en ''handleCallOffer.pairing''
           (filter (\<lambda>p. pairing_id p = sd_pairingId d \<and> pairing_status p = ''active'') (pairings w))")
    case None
    then show ?thesis using Some x by (simp add: handleCallOffer_def)
  next
    case (Some p)
    note p = this
    show ?thesis
    proof (cases "student_id p \<noteq> userId connection \<and> parent_id p \<noteq> userId connection")
      case True
      then show ?thesis using \<open>CallOfferMessageSchema en m = Some x\<close> x p by (simp add: handleCallOffer_def)
    next
      case False
      note mem = this
      show ?thesis
      proof (cases "find (in_call (partner_of (userId connection) p)) (map_values (activeCalls w))")
        case None
        have "activeCalls (handleCallOffer en connection m w) =
           map_set (activeCalls w) (callId d) (ringing_call en connection d ct p)"
          using handleCallOffer_accepted(1)[of en m d ct sdp w p connection]
            \<open>CallOfferMessageSchema en m = Some x\<close> x p mem None by blast
        with None show ?thesis by blast
      next
        case (Some c)
        then show ?thesis using \<open>CallOfferMessageSchema en m = Some x\<close> x p mem
          by (simp add: handleCallOffer_def Let_def)
      qed
    qed
  qed
qed


lemma find_None_in_call:
  "find (in_call u) (map_values cs) = None \<Longrightarrow> (k, c) \<in> set cs \<Longrightarrow> \<not> in_call u c"
  by (auto simp: find_None_iff map_values_def)

lemma set_update_subset: "set (AList.update k v cs) \<subseteq> insert (k, v) (set cs)"
  by (induction cs) auto

lemma update_new_callee:
  "f v \<notin> (\<lambda>kc. f (snd kc)) ` set cs \<Longrightarrow> distinct (map (\<lambda>kc. f (snd kc)) cs) \<Longrightarrow>
   distinct (map (\<lambda>kc. f (snd kc)) (AList.update k v cs))"
proof (induction cs)
  case Nil
  then show ?case by simp
next
  case (Cons a cs)
  show ?case
  proof (cases "fst a = k")
    case True
    then show ?thesis using Cons.prems by (auto simp: image_iff)
  next
    case False
    have "f (snd a) \<notin> (\<lambda>kc. f (snd kc)) ` set (AList.update k v cs)"
    proof
      assume "f (snd a) \<in> (\<lambda>kc. f (snd kc)) ` set (AList.update k v cs)"
      then obtain x where x: "x \<in> set (AList.update k v cs)" "f (snd a) = f (snd x)" by auto
      from x(1) set_update_subset[of k v cs] have "x = (k, v) \<or> x \<in> set cs" by auto
      then show False using x(2) Cons.prems by (auto simp: image_iff)
    qed
    moreover have "distinct (map (\<lambda>kc. f (snd kc)) (AList.update k v cs))"
      using Cons by (auto simp: image_iff)
    ultimately show ?thesis using False by simp
  qed
qed

lemma update_same_callee:
  "map_of cs k = Some v0 \<Longrightarrow> f v = f v0 \<Longrightarrow> map (\<lambda>kc. f (snd kc)) (AList.update k v cs) = map (\<lambda>kc. f (snd kc)) cs"
  by (induction cs) (auto split: if_splits)

lemma list_all_update:
  "list_all (\<lambda>(k, c). P k c) cs \<Longrightarrow> P k v \<Longrightarrow> list_all (\<lambda>(k, c). P k c) (AList.update k v cs)"
  by (induction cs) auto

lemma list_all_delete:
  "list_all P cs \<Longrightarrow> list_all P (AList.delete k cs)"
  by (induction cs) auto

lemma distinct_map_delete:
  "distinct (map g cs) \<Longrightarrow> distinct (map g (AList.delete k cs))"
  by (simp add: AList.delete_eq distinct_map_filter)

lemma calls_inv_cong: "activeCalls w' = activeCalls w \<Longrightarrow> calls_inv w' = calls_inv w"
  by (simp add: calls_inv_def)

lemma calls_inv_settled_in_call:
  "calls_inv w \<Longrightarrow> (k, c) \<in> set (activeCalls w) \<Longrightarrow> in_call u c \<longleftrightarrow> callerId c = u \<or> calleeId c = u"
  by (auto simp: calls_inv_def list_all_iff in_call_def settled_def)

lemma calls_inv_offer:
  assumes inv: "calls_inv w"
  shows "calls_inv (handleCallOffer en connection m w)"
proof -
  from handleCallOffer_calls[of en connection m w]
  consider "activeCalls (handleCallOffer en connection m w) = activeCalls w"
    | d ct p where "find (in_call (partner_of (userId connection) p)) (map_values (activeCalls w)) = None"
      "activeCalls (handleCallOffer en connection m w) =
        map_set (activeCalls w) (callId d) (ringing_call en connection d ct p)"
    by blast
  then show ?thesis
  proof cases
    case 1
    then show ?thesis using inv calls_inv_cong by blast
  next
    case 2
    let ?c = "ringing_call en connection d ct p"
    have free: "calleeId ?c \<notin> (\<lambda>kc. calleeId (snd kc)) ` set (activeCalls w)"
    proof
      assume "calleeId ?c \<in> (\<lambda>kc. calleeId (snd kc)) ` set (activeCalls w)"
      then obtain k c where kc: "(k, c) \<in> set (activeCalls w)" "calleeId c = calleeId ?c" by auto
      then have "in_call (calleeId ?c) c" using calls_inv_settled_in_call[OF inv kc(1)] by simp
      moreover have "\<not> in_call (calleeId ?c) c"
        using find_None_in_call[OF 2(1) kc(1)] by (simp add: ringing_call_def)
      ultimately show False by simp
    qed
    have c: "call_id ?c = callId d" "settled ?c" by (simp_all add: ringing_call_def settled_def)
    show ?thesis
      using inv free c unfolding calls_inv_def 2(2) map_set_def
      by (simp add: AList.distinct_update update_new_callee list_all_update)
  qed
qed


lemma handleCallAnswer_calls:
  "activeCalls (handleCallAnswer en connection m w) = activeCalls w \<or>
   (\<exists>k call. map_get (activeCalls w) k = Some call \<and>
      activeCalls (handleCallAnswer en connection m w) =
        map_set (activeCalls w) k (call\<lparr>status := Connected, connectedAt := Some (now en)\<rparr>))"
  by (auto simp: handleCallAnswer_def Let_def split: option.splits prod.splits)

lemma calls_inv_answer:
  assumes inv: "calls_inv w"
  shows "calls_inv (handleCallAnswer en connection m w)"
proof -
  from handleCallAnswer_calls[of en connection m w]
  consider "activeCalls (handleCallAnswer en connection m w) = activeCalls w"
    | k call where "map_get (activeCalls w) k = Some call"
      "activeCalls (handleCallAnswer en connection m w) =
        map_set (activeCalls w) k (call\<lparr>status := Connected, connectedAt := Some (now en)\<rparr>)"
    by blast
  then show ?thesis
  proof cases
    case 1
    then show ?thesis using inv calls_inv_cong by blast
  next
    case 2
    let ?c = "call\<lparr>status := Connected, connectedAt := Some (now en)\<rparr>"
    have in_set: "(k, call) \<in> set (activeCalls w)"
      using 2(1) by (auto simp: map_get_def dest: map_of_SomeD)
    then have "call_id call = k" using inv by (auto simp: calls_inv_def list_all_iff)
    then have c: "call_id ?c = k" "settled ?c" by (simp_all add: settled_def)
    have same: "map (\<lambda>kc. calleeId (snd kc)) (AList.update k ?c (activeCalls w)) =
        map (\<lambda>kc. calleeId (snd kc)) (activeCalls w)"
      using 2(1) by (intro update_same_callee[where ?v0.0 = call]) (simp_all add: map_get_def)
    show ?thesis
      using inv c unfolding calls_inv_def 2(2) map_set_def same
      by (simp add: AList.distinct_update list_all_update)
  qed
qed

lemma handleCallCandidate_calls [simp]:
  "activeCalls (handleCallCandidate en connection m w) = activeCalls w"
  by (auto simp: handleCallCandidate_def Let_def split: option.splits prod.splits)

lemma endCall_calls [simp]:
  "activeCalls (endCall en cid reason w) = map_delete (activeCalls w) cid"
proof (cases "map_of (activeCalls w) cid")
  case None
  then have "cid \<notin> fst ` set (activeCalls w)" by (simp add: map_of_eq_None_iff)
  then show ?thesis using None by (simp add: endCall_def map_delete_def map_get_def)
next
  case (Some c)
  then show ?thesis
    by (simp add: endCall_def Let_def map_delete_def map_set_def map_get_def AList.delete_update_same)
qed

lemma calls_inv_delete:
  "calls_inv w \<Longrightarrow> activeCalls w' = map_delete (activeCalls w) cid \<Longrightarrow> calls_inv w'"
  by (simp add: calls_inv_def map_delete_def AList.distinct_delete distinct_map_delete list_all_delete)

lemma calls_inv_endCall: "calls_inv w \<Longrightarrow> calls_inv (endCall en cid reason w)"
  by (rule calls_inv_delete[where cid = cid]) simp_all

lemma calls_inv_hangup: "calls_inv w \<Longrightarrow> calls_inv (handleCallHangup en connection m w)"
  by (auto simp: handleCallHangup_def calls_inv_endCall split: option.splits prod.splits)

lemma fold_inv: "(\<And>x v. P v \<Longrightarrow> P (f x v)) \<Longrightarrow> P w \<Longrightarrow> P (fold f xs w)"
  by (induction xs arbitrary: w) auto

lemma calls_inv_endUserCalls: "calls_inv w \<Longrightarrow> calls_inv (endUserCalls en u reason w)"
  unfolding endUserCalls_def Let_def
  by (rule fold_inv[where P = calls_inv]) (simp_all add: calls_inv_endCall)

lemma calls_inv_close: "calls_inv w \<Longrightarrow> calls_inv (signaling_on_close en connection w)"
  unfolding signaling_on_close_def
  by (rule calls_inv_endUserCalls) (simp add: calls_inv_cong[of "removeConnection (conn_id connection) w" w])

lemma calls_inv_timeout: "calls_inv w \<Longrightarrow> calls_inv (ringing_timeout en cid w)"
  by (auto simp: ringing_timeout_def calls_inv_endCall split: option.splits)

lemma calls_inv_fire: "calls_inv w \<Longrightarrow> calls_inv (fire_timer en task w)"
  unfolding fire_timer_def
  by (auto intro!: calls_inv_timeout simp: calls_inv_cong[of "w\<lparr>timers := remove1 task (timers w)\<rparr>" w])

text \<open>The states of the engine: from an empty map of calls, by the handlers of the
  signaling channel, its close callback and the firing of a timeout task; the last rule
  lets every other part of the state change.\<close>

inductive engine_reachable :: "world \<Rightarrow> bool" where
  start: "activeCalls w = [] \<Longrightarrow> engine_reachable w"
| offer: "engine_reachable w \<Longrightarrow> engine_reachable (handleCallOffer en connection m w)"
| answer: "engine_reachable w \<Longrightarrow> engine_reachable (handleCallAnswer en connection m w)"
| candidate: "engine_reachable w \<Longrightarrow> engine_reachable (handleCallCandidate en connection m w)"
| hangup: "engine_reachable w \<Longrightarrow> engine_reachable (handleCallHangup en connection m w)"
| close: "engine_reachable w \<Longrightarrow> engine_reachable (signaling_on_close en connection w)"
| timeout: "engine_reachable w \<Longrightarrow> engine_reachable (fire_timer en task w)"
| other: "engine_reachable w \<Longrightarrow> activeCalls w' = activeCalls w \<Longrightarrow> engine_reachable w'"

lemma engine_reachable_inv: "engine_reachable w \<Longrightarrow> calls_inv w"
proof (induction rule: engine_reachable.induct)
  case (start w)
  then show ?case by (simp add: calls_inv_def)
next
  case (offer w en connection m)
  then show ?case by (intro calls_inv_offer)
next
  case (answer w en connection m)
  then show ?case by (intro calls_inv_answer)
next
  case (candidate w en connection m)
  then show ?case using calls_inv_cong[OF handleCallCandidate_calls] by blast
next
  case (hangup w en connection m)
  then show ?case by (intro calls_inv_hangup)
next
  case (close w en connection)
  then show ?case by (intro calls_inv_close)
next
  case (timeout w en task)
  then show ?case by (intro calls_inv_fire)
next
  case (other w w')
  then show ?case using calls_inv_cong by blast
qed

lemma distinct_filter_le_1:
  "distinct (map f xs) \<Longrightarrow> length (filter (\<lambda>x. f x = u \<and> P x) xs) \<le> 1"
proof (induction xs)
  case Nil
  then show ?case by simp
next
  case (Cons x xs)
  show ?case
  proof (cases "f x = u")
    case True
    with Cons.prems have "\<And>y. y \<in> set xs \<Longrightarrow> f y \<noteq> u" by (auto simp: image_iff)
    then have "filter (\<lambda>x. f x = u \<and> P x) xs = []" by (auto simp: filter_empty_conv)
    then show ?thesis by simp
  next
    case False
    then show ?thesis using Cons by simp
  qed
qed

text \<open>The calls that have not ended in which a user is the callee, and those in which
  the user is the caller or the callee.\<close>

definition callee_sessions :: "string \<Rightarrow> world \<Rightarrow> active_call list" where
  "callee_sessions u w =
    filter (\<lambda>c. calleeId c = u \<and> status c \<noteq> Ended) (map_values (activeCalls w))"

definition user_sessions :: "string \<Rightarrow> world \<Rightarrow> active_call list" where
  "user_sessions u w = filter (in_call u) (map_values (activeCalls w))"

text \<open>
  Claim C1, as amended. In every reachable state of the call-signaling engine and for
  every user, at most one call of the active-call map that has not ended has that user
  as its callee. (An offer is refused only when its callee takes part in such a call;
  nothing is checked for the caller.)
\<close>

theorem one_session_per_callee:
  "engine_reachable w \<Longrightarrow> length (callee_sessions u w) \<le> 1"
proof -
  assume "engine_reachable w"
  then have "calls_inv w" by (rule engine_reachable_inv)
  then have "distinct (map calleeId (map_values (activeCalls w)))"
    by (simp add: calls_inv_def map_values_def o_def)
  then show ?thesis
    unfolding callee_sessions_def by (rule distinct_filter_le_1)
qed


section \<open>Ending a call\<close>

text \<open>
  Claim C7. Ending a call is idempotent. When the active-call map holds nothing under a
  call id, \<open>endCall\<close>, the timeout task and a hangup for that id leave the whole state
  as it is: nothing is written, nothing is sent. After \<open>endCall\<close> the map holds nothing
  under the id, so ending the call a second time changes nothing.
\<close>

theorem ended_call_is_noop:
  "(map_get (activeCalls w) cid = None \<longrightarrow>
      endCall en cid reason w = w \<and> ringing_timeout en cid w = w \<and>
      (\<forall>m d r. CallHangupMessageSchema en m = Some (d, r) \<and> callId d = cid \<longrightarrow>
         handleCallHangup en connection m w = w)) \<and>
   map_get (activeCalls (endCall en cid reason w)) cid = None \<and>
   endCall en' cid reason' (endCall en cid reason w) = endCall en cid reason w"
proof -
  have absent: "endCall e cid r v = v" if "map_get (activeCalls v) cid = None" for e r v
    using that by (simp add: endCall_def)
  have gone: "map_get (activeCalls (endCall en cid reason w)) cid = None"
    by (simp add: map_get_def map_delete_def AList.delete_conv')
  have "ringing_timeout en cid w = w" if "map_get (activeCalls w) cid = None"
    using that by (simp add: ringing_timeout_def)
  moreover have "handleCallHangup en connection m w = w"
    if "map_get (activeCalls w) cid = None" "CallHangupMessageSchema en m = Some (d, r)" "callId d = cid"
    for m d r
    using that absent by (simp add: handleCallHangup_def)
  ultimately show ?thesis using absent gone by blast
qed

section \<open>An offer to a busy callee\<close>



section \<open>The ringing timeout\<close>

lemma endCall_trace:
  assumes "map_get (activeCalls w) cid = Some c"
  shows "\<exists>evs. trace (endCall en cid reason w) =
           trace w @ DbWrite (UpdateCallEnded (call_id c) (now en) (call_duration c (now en)) reason)
                       (\<not> write_fails en (UpdateCallEnded (call_id c) (now en) (call_duration c (now en)) reason))
                     # evs \<and>
         list_all (is_send_of (call_ended en (call_id c) reason (call_duration c (now en)))) evs"
proof -
  define call where "call = c\<lparr>status := Ended, endedAt := Some (now en)\<rparr>"
  define msg where "msg = call_ended en (call_id c) reason (call_duration c (now en))"
  define w2 where "w2 = db_write en (UpdateCallEnded (call_id c) (now en) (call_duration c (now en)) reason)
                          (w\<lparr>activeCalls := map_set (activeCalls w) cid call\<rparr>)"
  define w3 where "w3 = broadcastToUser en (callerId c) msg None w2"
  define w4 where "w4 = broadcastToUser en (calleeId c) msg None w3"
  have dur: "call_duration call (now en) = call_duration c (now en)"
    by (simp add: call_def call_duration_def)
  have res: "endCall en cid reason w = w4\<lparr>activeCalls := map_delete (activeCalls w4) cid\<rparr>"
    using assms unfolding endCall_def Let_def w4_def w3_def w2_def msg_def
    by (simp add: dur[unfolded call_def] call_def)
  obtain e1 where e1: "trace w3 = trace w2 @ e1" "list_all (is_send_of msg) e1"
    unfolding w3_def using broadcastToUser_trace by blast
  obtain e2 where e2: "trace w4 = trace w3 @ e2" "list_all (is_send_of msg) e2"
    unfolding w4_def using broadcastToUser_trace by blast
  have t2: "trace w2 = trace w @ [DbWrite (UpdateCallEnded (call_id c) (now en) (call_duration c (now en)) reason)
                       (\<not> write_fails en (UpdateCallEnded (call_id c) (now en) (call_duration c (now en)) reason))]"
    by (simp add: w2_def)
  show ?thesis
    by (rule exI[of _ "e1 @ e2"]) (simp add: res e1 e2 t2 msg_def[symmetric])
qed

lemma calls_inv_lookup:
  "calls_inv w \<Longrightarrow> map_get (activeCalls w) cid = Some c \<Longrightarrow> call_id c = cid \<and> settled c"
  by (auto simp: calls_inv_def list_all_iff map_get_def dest!: map_of_SomeD)

text \<open>
  \<open>rings cid w\<close>: the map holds a ringing call under the id. \<open>offers_id en m cid\<close>: the
  message is a valid offer of the call id. \<open>no_reoffer cid w w'\<close>: the state \<open>w'\<close> is
  reached from \<open>w\<close> by runs of the handlers of the signaling channel, of its close
  callback and of timeout tasks, and by steps that leave the map of calls as it is, none
  of them a run of \<open>handleCallOffer\<close> on an offer of \<open>cid\<close>.
\<close>

definition rings :: "string \<Rightarrow> world \<Rightarrow> bool" where
  "rings cid w =
    (case map_get (activeCalls w) cid of None \<Rightarrow> False | Some c \<Rightarrow> status c = Ringing)"

definition offers_id :: "env \<Rightarrow> ws_message \<Rightarrow> string \<Rightarrow> bool" where
  "offers_id en m cid =
    (case CallOfferMessageSchema en m of None \<Rightarrow> False | Some (d, ct, sdp) \<Rightarrow> callId d = cid)"

inductive no_reoffer :: "string \<Rightarrow> world \<Rightarrow> world \<Rightarrow> bool" for cid :: string where
  same: "no_reoffer cid w w"
| offer: "no_reoffer cid w w' \<Longrightarrow> \<not> offers_id en m cid \<Longrightarrow>
          no_reoffer cid w (handleCallOffer en connection m w')"
| answer: "no_reoffer cid w w' \<Longrightarrow> no_reoffer cid w (handleCallAnswer en connection m w')"
| candidate: "no_reoffer cid w w' \<Longrightarrow> no_reoffer cid w (handleCallCandidate en connection m w')"
| hangup: "no_reoffer cid w w' \<Longrightarrow> no_reoffer cid w (handleCallHangup en connection m w')"
| close: "no_reoffer cid w w' \<Longrightarrow> no_reoffer cid w (signaling_on_close en connection w')"
| timeout: "no_reoffer cid w w' \<Longrightarrow> no_reoffer cid w (fire_timer en task w')"
| other: "no_reoffer cid w w' \<Longrightarrow> activeCalls w'' = activeCalls w' \<Longrightarrow> no_reoffer cid w w''"

lemma rings_cong: "activeCalls w' = activeCalls w \<Longrightarrow> rings cid w' = rings cid w"
  by (simp add: rings_def)

lemma rings_offer:
  assumes "\<not> offers_id en m cid"
  shows "rings cid (handleCallOffer en connection m w) = rings cid w"
proof -
  have "map_get (activeCalls (handleCallOffer en connection m w)) cid = map_get (activeCalls w) cid"
    using assms
    by (auto simp: handleCallOffer_def offers_id_def Let_def map_get_def map_set_def
        AList.update_conv' split: option.splits prod.splits)
  then show ?thesis by (simp add: rings_def)
qed

lemma rings_answer: "rings cid (handleCallAnswer en connection m w) \<Longrightarrow> rings cid w"
  using handleCallAnswer_calls[of en connection m w]
  by (auto simp: rings_def map_get_def map_set_def AList.update_conv' split: option.splits if_splits)

lemma rings_endCall: "rings cid (endCall en k reason w) \<Longrightarrow> rings cid w"
  by (auto simp: rings_def map_get_def map_delete_def AList.delete_conv' split: option.splits if_splits)

lemma rings_hangup: "rings cid (handleCallHangup en connection m w) \<Longrightarrow> rings cid w"
  by (auto simp: handleCallHangup_def dest: rings_endCall split: option.splits prod.splits)

lemma rings_endUserCalls: "\<not> rings cid w \<Longrightarrow> \<not> rings cid (endUserCalls en u reason w)"
  unfolding endUserCalls_def Let_def
  by (rule fold_inv[where P = "\<lambda>v. \<not> rings cid v"]) (auto dest: rings_endCall)

lemma rings_close: "\<not> rings cid w \<Longrightarrow> \<not> rings cid (signaling_on_close en connection w)"
  unfolding signaling_on_close_def
  by (rule rings_endUserCalls) (simp add: rings_cong[of "removeConnection (conn_id connection) w" w])

lemma rings_timeout: "rings cid (ringing_timeout en k w) \<Longrightarrow> rings cid w"
  by (auto simp: ringing_timeout_def dest: rings_endCall split: option.splits if_splits)

lemma rings_fire: "\<not> rings cid w \<Longrightarrow> \<not> rings cid (fire_timer en task w)"
  unfolding fire_timer_def
  by (auto dest!: rings_timeout simp: rings_cong[of "w\<lparr>timers := remove1 task (timers w)\<rparr>" w])

lemma no_reoffer_rings:
  "no_reoffer cid w w' \<Longrightarrow> \<not> rings cid w \<Longrightarrow> \<not> rings cid w'"
proof (induction rule: no_reoffer.induct)
  case (same w)
  then show ?case .
next
  case (offer w w' en m connection)
  then show ?case by (simp add: rings_offer)
next
  case (answer w w' en connection m)
  then show ?case using rings_answer by blast
next
  case (candidate w w' en connection m)
  then show ?case using rings_cong[OF handleCallCandidate_calls] by blast
next
  case (hangup w w' en connection m)
  then show ?case using rings_hangup by blast
next
  case (close w w' en connection)
  then show ?case by (intro rings_close) simp
next
  case (timeout w w' en task)
  then show ?case by (intro rings_fire) simp
next
  case (other w w' w'')
  then show ?case using rings_cong by blast
qed

lemma not_rings_noop: "\<not> rings cid w \<Longrightarrow> ringing_timeout en cid w = w"
  by (auto simp: rings_def ringing_timeout_def split: option.splits)

lemma answered_not_rings:
  assumes "CallAnswerMessageSchema en m = Some (d, sdp)"
    and "map_get (activeCalls w) (callId d) = Some call"
    and "calleeId call = userId connection"
  shows "\<not> rings (callId d) (handleCallAnswer en connection m w)"
  using assms
  by (simp add: handleCallAnswer_def Let_def rings_def map_get_def map_set_def AList.update_conv')

lemma ended_not_rings: "\<not> rings cid (endCall en cid reason w)"
  by (simp add: rings_def map_get_def map_delete_def AList.delete_conv')

lemma hungup_not_rings:
  "CallHangupMessageSchema en m = Some (d, r) \<Longrightarrow>
   \<not> rings (callId d) (handleCallHangup en connection m w)"
  by (simp add: handleCallHangup_def ended_not_rings)

text \<open>
  Claim C5, as amended. Each handler is taken as one step. An accepted offer whose
  confirmation is sent to the caller schedules the timeout task 30000 milliseconds
  after the offer, under the call id of the offer. The task looks that id up in the
  active-call map when it runs. In a reachable state, where the map holds a ringing
  call under the id, the call is removed from the map, the store is told that it ended
  with reason \<open>timeout\<close> and duration 0, and every send that follows is a \<open>call_ended\<close>
  envelope with that reason and duration. Where the map holds nothing under the id or a
  call that is not ringing, the task changes nothing and sends nothing. So the task is
  a no-op after the call was answered by its callee, after a hangup for the id, and
  after \<open>endCall\<close> for the id, in every state reached from there without a run of
  \<open>handleCallOffer\<close> on an offer of the same call id. (The task does not tell two
  sessions of one call id apart.)
\<close>

theorem ringing_timeout_ends_call:
  assumes "engine_reachable w"
  shows "(\<forall>c. map_get (activeCalls w) cid = Some c \<and> status c = Ringing \<longrightarrow>
            map_get (activeCalls (ringing_timeout en cid w)) cid = None \<and>
            take (Suc (length (trace w))) (trace (ringing_timeout en cid w)) =
              trace w @ [DbWrite (UpdateCallEnded cid (now en) 0 ''timeout'')
                           (\<not> write_fails en (UpdateCallEnded cid (now en) 0 ''timeout''))] \<and>
            list_all (is_send_of (call_ended en cid ''timeout'' 0))
              (drop (Suc (length (trace w))) (trace (ringing_timeout en cid w)))) \<and>
         ((map_get (activeCalls w) cid = None \<or>
           (\<exists>c. map_get (activeCalls w) cid = Some c \<and> status c \<noteq> Ringing)) \<longrightarrow>
            ringing_timeout en cid w = w) \<and>
         (\<forall>connection m d ct sdp p.
            CallOfferMessageSchema en m = Some (d, ct, sdp) \<and>
            db_single en ''handleCallOffer.pairing''
              (filter (\<lambda>p. pairing_id p = sd_pairingId d \<and> pairing_status p = ''active'') (pairings w)) = Some p \<and>
            (student_id p = userId connection \<or> parent_id p = userId connection) \<and>
            find (in_call (partner_of (userId connection) p)) (map_values (activeCalls w)) = None \<and>
            \<not> send_throws en (conn_id connection) \<longrightarrow>
            timers (handleCallOffer en connection m w) = timers w @ [(now en + 30000, callId d)]) \<and>
         (\<forall>en1 connection m d sdp call w'.
            CallAnswerMessageSchema en1 m = Some (d, sdp) \<and> callId d = cid \<and>
            map_get (activeCalls w) cid = Some call \<and> calleeId call = userId connection \<and>
            no_reoffer cid (handleCallAnswer en1 connection m w) w' \<longrightarrow>
            ringing_timeout en cid w' = w') \<and>
         (\<forall>en1 connection m d r w'.
            CallHangupMessageSchema en1 m = Some (d, r) \<and> callId d = cid \<and>
            no_reoffer cid (handleCallHangup en1 connection m w) w' \<longrightarrow>
            ringing_timeout en cid w' = w') \<and>
         (\<forall>en1 reason w'.
            no_reoffer cid (endCall en1 cid reason w) w' \<longrightarrow> ringing_timeout en cid w' = w')"
proof (intro conjI allI impI)
  fix c assume a: "map_get (activeCalls w) cid = Some c \<and> status c = Ringing"
  have inv: "calls_inv w" using assms by (rule engine_reachable_inv)
  from a have ac: "map_get (activeCalls w) cid = Some c" "status c = Ringing" by simp_all
  from calls_inv_lookup[OF inv ac(1)] ac(2) have c: "call_id c = cid" "connectedAt c = None"
    by (simp_all add: settled_def)
  then have dur: "call_duration c (now en) = 0" by (simp add: call_duration_def)
  have rt: "ringing_timeout en cid w = endCall en cid ''timeout'' w"
    using a by (simp add: ringing_timeout_def)
  show "map_get (activeCalls (ringing_timeout en cid w)) cid = None"
    by (simp add: rt map_get_def map_delete_def AList.delete_conv')
  from endCall_trace[of w cid c en "''timeout''"] a obtain evs where
    evs: "trace (endCall en cid ''timeout'' w) =
            trace w @ DbWrite (UpdateCallEnded cid (now en) 0 ''timeout'')
                       (\<not> write_fails en (UpdateCallEnded cid (now en) 0 ''timeout'')) # evs"
      "list_all (is_send_of (call_ended en cid ''timeout'' 0)) evs"
    unfolding c dur by blast
  show "take (Suc (length (trace w))) (trace (ringing_timeout en cid w)) =
              trace w @ [DbWrite (UpdateCallEnded cid (now en) 0 ''timeout'')
                           (\<not> write_fails en (UpdateCallEnded cid (now en) 0 ''timeout''))]"
    by (simp add: rt evs(1))
  show "list_all (is_send_of (call_ended en cid ''timeout'' 0))
              (drop (Suc (length (trace w))) (trace (ringing_timeout en cid w)))"
    by (simp add: rt evs)
next
  assume "map_get (activeCalls w) cid = None \<or>
           (\<exists>c. map_get (activeCalls w) cid = Some c \<and> status c \<noteq> Ringing)"
  then show "ringing_timeout en cid w = w"
    by (auto simp: ringing_timeout_def)
next
  fix connection :: connection and m d ct sdp p
  assume "CallOfferMessageSchema en m = Some (d, ct, sdp) \<and>
            db_single en ''handleCallOffer.pairing''
              (filter (\<lambda>p. pairing_id p = sd_pairingId d \<and> pairing_status p = ''active'') (pairings w)) = Some p \<and>
            (student_id p = userId connection \<or> parent_id p = userId connection) \<and>
            find (in_call (partner_of (userId connection) p)) (map_values (activeCalls w)) = None \<and>
            \<not> send_throws en (conn_id connection)"
  then show "timers (handleCallOffer en connection m w) = timers w @ [(now en + 30000, callId d)]"
    using handleCallOffer_accepted(2)[of en m d ct sdp w p connection] by (simp add: RING_TIMEOUT_def)
next
  fix en1 and connection :: connection and m d sdp call w'
  assume a: "CallAnswerMessageSchema en1 m = Some (d, sdp) \<and> callId d = cid \<and>
            map_get (activeCalls w) cid = Some call \<and> calleeId call = userId connection \<and>
            no_reoffer cid (handleCallAnswer en1 connection m w) w'"
  then have "\<not> rings cid (handleCallAnswer en1 connection m w)"
    using answered_not_rings[of en1 m d sdp w call connection] by auto
  with a have "\<not> rings cid w'" using no_reoffer_rings by blast
  then show "ringing_timeout en cid w' = w'" by (rule not_rings_noop)
next
  fix en1 and connection :: connection and m d r w'
  assume a: "CallHangupMessageSchema en1 m = Some (d, r) \<and> callId d = cid \<and>
            no_reoffer cid (handleCallHangup en1 connection m w) w'"
  then have "\<not> rings cid (handleCallHangup en1 connection m w)"
    using hungup_not_rings[of en1 m d r connection w] by auto
  with a have "\<not> rings cid w'" using no_reoffer_rings by blast
  then show "ringing_timeout en cid w' = w'" by (rule not_rings_noop)
next
  fix en1 reason w'
  assume "no_reoffer cid (endCall en1 cid reason w) w'"
  then have "\<not> rings cid w'" using no_reoffer_rings ended_not_rings by blast
  then show "ringing_timeout en cid w' = w'" by (rule not_rings_noop)
qed


section \<open>A family: one student paired with two parents\<close>

text \<open>Concrete data for the runs below: an environment in which nothing fails, three
  users, two active pairings of the student, and the messages they send.\<close>

definition uuid_shape :: "string \<Rightarrow> bool" where
  "uuid_shape s \<longleftrightarrow>
     length s = 36 \<and> s ! 8 = CHR ''-'' \<and> s ! 13 = CHR ''-'' \<and> s ! 18 = CHR ''-'' \<and> s ! 23 = CHR ''-''"

definition env_at :: "int \<Rightarrow> env" where
  "env_at t = \<lparr>now = t, send_throws = (\<lambda>c. False), write_fails = (\<lambda>op. False),
     read_fails = (\<lambda>site. False), uuidv4 = ''0e0e0e0e-0000-4000-8000-00000000000e'',
     valid_uuid = uuid_shape\<rparr>"

definition alice :: string where "alice = ''aaaaaaaa-aaaa-4aaa-8aaa-aaaaaaaaaaaa''"
definition bob :: string where "bob = ''bbbbbbbb-bbbb-4bbb-8bbb-bbbbbbbbbbbb''"
definition carol :: string where "carol = ''cccccccc-cccc-4ccc-8ccc-cccccccccccc''"

definition pair_ab :: pairing where
  "pair_ab = \<lparr>pairing_id = ''10000000-0000-4000-8000-000000000001'', student_id = alice,
     parent_id = bob, pairing_status = ''active''\<rparr>"

definition pair_ac :: pairing where
  "pair_ac = \<lparr>pairing_id = ''10000000-0000-4000-8000-000000000002'', student_id = alice,
     parent_id = carol, pairing_status = ''active''\<rparr>"

definition profile_of :: "string \<Rightarrow> string \<Rightarrow> profile" where
  "profile_of u ut = \<lparr>profile_id = u, full_name = ''name'', avatar_url = ''url'', user_type = ut,
     visible_to_partner = True, dnd_enabled = False, push_subscription = None\<rparr>"

definition conn_of :: "string \<Rightarrow> string \<Rightarrow> connection" where
  "conn_of ns u = \<lparr>conn_id = ns @ ''_'' @ u @ ''_1700000000000_k3j9x2q1z'', userId = u,
     orgId = ''org'', userType = (if u = alice then Student else Parent), lastHeartbeat = 0,
     namespace = ns\<rparr>"

definition family :: world where
  "family = \<lparr>connections = [], userConnections = [], activeCalls = [], timers = [],
     profiles = [profile_of alice ''student'', profile_of bob ''parent'', profile_of carol ''parent''],
     pairings = [pair_ab, pair_ac], presence = [], trace = []\<rparr>"

definition offer_msg :: "string \<Rightarrow> pairing \<Rightarrow> string \<Rightarrow> string \<Rightarrow> ws_message" where
  "offer_msg cid p from to =
    \<lparr>m_id = ''0f0f0f0f-0000-4000-8000-00000000000f'', m_type = ''call_offer'',
     m_namespace = ''signaling'',
     m_data = CallOfferMsg \<lparr>callId = cid, sd_pairingId = pairing_id p, sd_senderId = from,
                sd_targetId = to\<rparr> ''video'' ''offer'' ''v=0'',
     m_timestamp = 0, m_userId = None\<rparr>"

definition call1 :: string where "call1 = ''c0000000-0000-4000-8000-000000000001''"
definition call2 :: string where "call2 = ''c0000000-0000-4000-8000-000000000002''"

lemma people_distinct [simp]:
  "alice \<noteq> bob" "alice \<noteq> carol" "bob \<noteq> carol" "bob \<noteq> alice" "carol \<noteq> alice" "carol \<noteq> bob"
  by (simp_all add: alice_def bob_def carol_def)

lemma calls_distinct [simp]: "call1 \<noteq> call2" "call2 \<noteq> call1"
  by (simp_all add: call1_def call2_def)

lemma uuid_shapes [simp]:
  "uuid_shape alice" "uuid_shape bob" "uuid_shape carol" "uuid_shape call1" "uuid_shape call2"
  "uuid_shape (pairing_id pair_ab)" "uuid_shape (pairing_id pair_ac)"
  "uuid_shape ''0f0f0f0f-0000-4000-8000-00000000000f''"
  by (simp_all add: uuid_shape_def alice_def bob_def carol_def call1_def call2_def pair_ab_def pair_ac_def)

lemma offer_msg_parses:
  "uuid_shape cid \<Longrightarrow> uuid_shape (pairing_id p) \<Longrightarrow> uuid_shape from \<Longrightarrow> uuid_shape to \<Longrightarrow>
   CallOfferMessageSchema (env_at t) (offer_msg cid p from to) =
     Some (\<lparr>callId = cid, sd_pairingId = pairing_id p, sd_senderId = from, sd_targetId = to\<rparr>,
           ''video'', ''v=0'')"
  by (simp add: CallOfferMessageSchema_def WSMessageSchema_def signal_data_ok_def offer_msg_def env_at_def)

lemma family_pairing_lookup:
  "pairings w = [pair_ab, pair_ac] \<Longrightarrow>
   db_single (env_at t) site
     (filter (\<lambda>p. pairing_id p = pairing_id pair_ab \<and> pairing_status p = ''active'') (pairings w))
     = Some pair_ab"
  "pairings w = [pair_ab, pair_ac] \<Longrightarrow>
   db_single (env_at t) site
     (filter (\<lambda>p. pairing_id p = pairing_id pair_ac \<and> pairing_status p = ''active'') (pairings w))
     = Some pair_ac"
  by (simp_all add: db_single_def env_at_def pair_ab_def pair_ac_def)

definition after_first_offer :: world where
  "after_first_offer =
     handleCallOffer (env_at 1000) (conn_of ''signaling'' alice) (offer_msg call1 pair_ab alice bob) family"

definition after_second_offer :: world where
  "after_second_offer =
     handleCallOffer (env_at 2000) (conn_of ''signaling'' alice) (offer_msg call2 pair_ac alice carol)
       after_first_offer"

lemma handleCallOffer_pairings [simp]: "pairings (handleCallOffer en connection m w) = pairings w"
  by (auto simp: handleCallOffer_def Let_def split: option.splits prod.splits)

lemma sample_lookup:
  assumes "pairings w = [pair_ab, pair_ac]" and "p = pair_ab \<or> p = pair_ac"
  shows "db_single (env_at t) site
           (filter (\<lambda>q. pairing_id q = pairing_id p \<and> pairing_status q = ''active'') (pairings w))
         = Some p"
  using assms by (auto simp: db_single_def env_at_def pair_ab_def pair_ac_def)

lemma sample_offer_parses:
  assumes "p = pair_ab \<or> p = pair_ac" and "uuid_shape cid" and "uuid_shape from" and "uuid_shape to"
  shows "CallOfferMessageSchema (env_at t) (offer_msg cid p from to) =
     Some (\<lparr>callId = cid, sd_pairingId = pairing_id p, sd_senderId = from, sd_targetId = to\<rparr>,
           ''video'', ''v=0'')"
  using assms
  by (auto simp add: CallOfferMessageSchema_def WSMessageSchema_def signal_data_ok_def offer_msg_def env_at_def)

definition alice_offer_data :: "string \<Rightarrow> pairing \<Rightarrow> signal_data" where
  "alice_offer_data cid p =
    \<lparr>callId = cid, sd_pairingId = pairing_id p, sd_senderId = alice, sd_targetId = parent_id p\<rparr>"

lemma alice_offer_conditions:
  assumes w: "pairings w = [pair_ab, pair_ac]" and p: "p = pair_ab \<or> p = pair_ac"
    and cid: "uuid_shape cid"
    and free: "find (in_call (parent_id p)) (map_values (activeCalls w)) = None"
  shows "CallOfferMessageSchema (env_at t) (offer_msg cid p alice (parent_id p)) =
           Some (alice_offer_data cid p, ''video'', ''v=0'')"
    and "db_single (env_at t) ''handleCallOffer.pairing''
           (filter (\<lambda>q. pairing_id q = sd_pairingId (alice_offer_data cid p) \<and>
                        pairing_status q = ''active'') (pairings w)) = Some p"
    and "student_id p = userId (conn_of ''signaling'' alice) \<or>
         parent_id p = userId (conn_of ''signaling'' alice)"
    and "find (in_call (partner_of (userId (conn_of ''signaling'' alice)) p))
           (map_values (activeCalls w)) = None"
    and "\<not> send_throws (env_at t) (conn_id (conn_of ''signaling'' alice))"
proof -
  have st: "student_id p = alice" using p by (auto simp: pair_ab_def pair_ac_def)
  have up: "uuid_shape (parent_id p)" using p by (auto simp: pair_ab_def pair_ac_def)
  show "CallOfferMessageSchema (env_at t) (offer_msg cid p alice (parent_id p)) =
           Some (alice_offer_data cid p, ''video'', ''v=0'')"
    unfolding alice_offer_data_def using sample_offer_parses[OF p cid _ up, of alice t] by simp
  show "db_single (env_at t) ''handleCallOffer.pairing''
           (filter (\<lambda>q. pairing_id q = sd_pairingId (alice_offer_data cid p) \<and>
                        pairing_status q = ''active'') (pairings w)) = Some p"
    using sample_lookup[OF w p] by (simp add: alice_offer_data_def)
  show "student_id p = userId (conn_of ''signaling'' alice) \<or>
        parent_id p = userId (conn_of ''signaling'' alice)"
    using st by (simp add: conn_of_def)
  show "find (in_call (partner_of (userId (conn_of ''signaling'' alice)) p))
          (map_values (activeCalls w)) = None"
    using free st by (simp add: partner_of_def conn_of_def)
  show "\<not> send_throws (env_at t) (conn_id (conn_of ''signaling'' alice))"
    by (simp add: env_at_def)
qed

lemma alice_offer_accepted:
  assumes w: "pairings w = [pair_ab, pair_ac]" and p: "p = pair_ab \<or> p = pair_ac"
    and cid: "uuid_shape cid"
    and free: "find (in_call (parent_id p)) (map_values (activeCalls w)) = None"
  shows "activeCalls (handleCallOffer (env_at t) (conn_of ''signaling'' alice)
                        (offer_msg cid p alice (parent_id p)) w) =
           map_set (activeCalls w) cid
             \<lparr>call_id = cid, pairingId = pairing_id p, callerId = alice, calleeId = parent_id p,
              callType = ''video'', status = Ringing, startedAt = t, connectedAt = None,
              endedAt = None\<rparr>"
proof -
  have st: "student_id p = alice" using p by (auto simp: pair_ab_def pair_ac_def)
  note c = alice_offer_conditions[OF w p cid free]
  show ?thesis
    unfolding handleCallOffer_accepted(1)[OF c(1) c(2) c(3) c(4)]
    by (simp add: ringing_call_def alice_offer_data_def partner_of_def st)
       (simp add: conn_of_def env_at_def)
qed

definition session :: "string \<Rightarrow> pairing \<Rightarrow> int \<Rightarrow> active_call" where
  "session cid p t =
    \<lparr>call_id = cid, pairingId = pairing_id p, callerId = alice, calleeId = parent_id p,
     callType = ''video'', status = Ringing, startedAt = t, connectedAt = None, endedAt = None\<rparr>"

lemma after_first_offer_calls:
  "activeCalls after_first_offer = [(call1, session call1 pair_ab 1000)]"
  and after_first_offer_pairings: "pairings after_first_offer = [pair_ab, pair_ac]"
proof -
  have p: "pairings family = [pair_ab, pair_ac]" by (simp add: family_def)
  have f: "find (in_call (parent_id pair_ab)) (map_values (activeCalls family)) = None"
    by (simp add: family_def map_values_def)
  have b: "parent_id pair_ab = bob" by (simp add: pair_ab_def)
  note acc = alice_offer_accepted[OF p _ _ f, of call1 1000, simplified, unfolded b]
  show "activeCalls after_first_offer = [(call1, session call1 pair_ab 1000)]"
    unfolding after_first_offer_def acc
    by (simp add: family_def map_set_def session_def b)
  show "pairings after_first_offer = [pair_ab, pair_ac]"
    by (simp add: after_first_offer_def p)
qed

lemma after_second_offer_calls:
  "activeCalls after_second_offer =
     [(call1, session call1 pair_ab 1000), (call2, session call2 pair_ac 2000)]"
proof -
  have f: "find (in_call (parent_id pair_ac)) (map_values (activeCalls after_first_offer)) = None"
    by (simp add: after_first_offer_calls map_values_def session_def in_call_def pair_ab_def pair_ac_def)
  have c: "parent_id pair_ac = carol" by (simp add: pair_ac_def)
  note acc = alice_offer_accepted[OF after_first_offer_pairings _ _ f, of call2 2000, simplified, unfolded c]
  show ?thesis
    unfolding after_second_offer_def acc
    by (simp add: after_first_offer_calls map_set_def session_def c)
qed

lemma family_reachable: "engine_reachable family"
  by (rule engine_reachable.start) (simp add: family_def)

lemma after_first_offer_reachable: "engine_reachable after_first_offer"
  unfolding after_first_offer_def by (rule engine_reachable.offer[OF family_reachable])

lemma after_second_offer_reachable: "engine_reachable after_second_offer"
  unfolding after_second_offer_def by (rule engine_reachable.offer[OF after_first_offer_reachable])

text \<open>
  Claim C1 as stated fails: \<open>handleCallOffer\<close> tests only whether the callee is busy.
  The student offers a call to one parent and, while it rings, a second call to the
  other parent; both are accepted, and the student is the caller of two calls that have
  not ended.
\<close>

theorem caller_in_two_calls_counterexample:
  "engine_reachable after_second_offer \<and> length (user_sessions alice after_second_offer) = 2"
  using after_second_offer_reachable
  by (simp add: user_sessions_def after_second_offer_calls map_values_def in_call_def session_def)

text \<open>The theorem of claim C1 in that state: the first parent is the callee of one call.\<close>

theorem one_session_per_callee_witness:
  "engine_reachable after_second_offer \<and> callee_sessions bob after_second_offer \<noteq> [] \<and>
   length (callee_sessions bob after_second_offer) \<le> 1"
  using one_session_per_callee[OF after_second_offer_reachable, of bob] after_second_offer_reachable
  by (simp add: callee_sessions_def after_second_offer_calls map_values_def session_def pair_ab_def pair_ac_def)


definition hangup_msg :: "string \<Rightarrow> pairing \<Rightarrow> string \<Rightarrow> string \<Rightarrow> ws_message" where
  "hangup_msg cid p from to =
    \<lparr>m_id = ''0f0f0f0f-0000-4000-8000-00000000000f'', m_type = ''call_hangup'',
     m_namespace = ''signaling'',
     m_data = CallHangupMsg \<lparr>callId = cid, sd_pairingId = pairing_id p, sd_senderId = from,
                sd_targetId = to\<rparr> None,
     m_timestamp = 0, m_userId = None\<rparr>"

lemma sample_hangup_parses:
  "CallHangupMessageSchema (env_at t) (hangup_msg call1 pair_ab alice bob) =
     Some (\<lparr>callId = call1, sd_pairingId = pairing_id pair_ab, sd_senderId = alice,
            sd_targetId = bob\<rparr>, None)"
  by (simp add: CallHangupMessageSchema_def WSMessageSchema_def signal_data_ok_def hangup_msg_def env_at_def)

text \<open>Claim C7 at concrete inputs: ending a call that the map does not hold, and ending
  the ringing call of the student twice.\<close>

theorem ended_call_is_noop_witness:
  "map_get (activeCalls family) call1 = None \<and>
   endCall (env_at 5000) call1 ''hangup'' family = family \<and>
   ringing_timeout (env_at 5000) call1 family = family \<and>
   handleCallHangup (env_at 5000) (conn_of ''signaling'' alice) (hangup_msg call1 pair_ab alice bob) family
     = family \<and>
   endCall (env_at 6000) call1 ''hangup'' (endCall (env_at 5000) call1 ''hangup'' after_first_offer)
     = endCall (env_at 5000) call1 ''hangup'' after_first_offer"
proof -
  have a: "map_get (activeCalls family) call1 = None" by (simp add: family_def map_get_def)
  from ended_call_is_noop[of family call1 "env_at 5000" "''hangup''" "conn_of ''signaling'' alice"]
    a sample_hangup_parses[of 5000]
  have "endCall (env_at 5000) call1 ''hangup'' family = family \<and>
        ringing_timeout (env_at 5000) call1 family = family \<and>
        handleCallHangup (env_at 5000) (conn_of ''signaling'' alice) (hangup_msg call1 pair_ab alice bob) family
          = family"
    by (metis signal_data.select_convs(1))
  moreover from ended_call_is_noop[of after_first_offer call1 "env_at 5000" "''hangup''" _ "env_at 6000" "''hangup''"]
  have "endCall (env_at 6000) call1 ''hangup'' (endCall (env_at 5000) call1 ''hangup'' after_first_offer)
     = endCall (env_at 5000) call1 ''hangup'' after_first_offer"
    by blast
  ultimately show ?thesis using a by blast
qed




section \<open>The chat relay: persistence, delivery, confirmation\<close>

text \<open>A broadcast with no excluded connection sends once on every connection that the
  user holds when it starts, in the order of the registry.\<close>

lemma broadcast_fold_trace_exact:
  "trace (fold (broadcast_one en m None) conns w) =
     trace w @ map (\<lambda>c. Send (conn_id c) m (\<not> send_throws en (conn_id c))) conns"
  by (induction conns arbitrary: w) (simp_all add: broadcast_one_def Let_def)

lemma broadcastToUser_trace_exact:
  "trace (broadcastToUser en u m None w) =
     trace w @ map (\<lambda>c. Send (conn_id c) m (\<not> send_throws en (conn_id c))) (getUserConnections w u)"
  unfolding broadcastToUser_def by (rule broadcast_fold_trace_exact)

lemma sendPushNotificationIfOffline_id [simp]: "sendPushNotificationIfOffline en u sm w = w"
  by (simp add: sendPushNotificationIfOffline_def)

text \<open>A delivery is a send of a \<open>message_received\<close> envelope, a confirmation a send of
  a \<open>message_sent\<close> envelope; \<open>carried\<close> is the stored row that such an envelope holds.\<close>

definition is_delivery :: "event \<Rightarrow> bool" where
  "is_delivery ev = (case ev of Send c e ok \<Rightarrow> e_type e = ''message_received'' | DbWrite op ok \<Rightarrow> False)"


definition carried :: "event \<Rightarrow> message_row option" where
  "carried ev =
    (case ev of
       Send c e ok \<Rightarrow>
         (case e_data e of
            MessageReceivedData sm pid \<Rightarrow> Some (saved_row sm)
          | MessageSentData sm tempId \<Rightarrow> Some (saved_row sm)
          | _ \<Rightarrow> None)
     | DbWrite op ok \<Rightarrow> None)"



lemma getUserConnections_cong:
  "connections w' = connections w \<Longrightarrow> userConnections w' = userConnections w \<Longrightarrow>
   getUserConnections w' u = getUserConnections w u"
  by (simp add: getUserConnections_def)

lemma getUserConnections_db_write [simp]:
  "getUserConnections (db_write en op w) u = getUserConnections w u"
  by (rule getUserConnections_cong) simp_all

lemma saved_db_write [simp]: "saved (db_write en op w) row = saved w row"
  by (simp add: saved_def)

lemma new_events_append: "trace w' = trace w @ evs \<Longrightarrow> new_events w w' = evs"
  by (simp add: new_events_def)

definition typing_cleared :: "env \<Rightarrow> string \<Rightarrow> string \<Rightarrow> envelope" where
  "typing_cleared en u pid =
    \<lparr>e_type = ''typing_indicator'', e_namespace = ''chat'',
     e_data = TypingIndicatorData u pid False, e_timestamp = now en\<rparr>"

lemma clearTypingIndicator_trace:
  "\<exists>evs. trace (clearTypingIndicator en u pid w) = trace w @ evs \<and>
     list_all (is_send_of (typing_cleared en u pid)) evs"
proof (cases "db_single en ''clearTypingIndicator.pairing'' (filter (\<lambda>p. pairing_id p = pid) (pairings w))")
  case None
  then show ?thesis by (simp add: clearTypingIndicator_def)
next
  case (Some p)
  then show ?thesis
    using broadcastToUser_trace[of en "partner_of u p" "typing_cleared en u pid" None w]
    by (simp add: clearTypingIndicator_def typing_cleared_def)
qed

lemma handleChatMessage_sent:
  assumes s: "ChatMessageSchema en m = Some d"
    and perm: "hasPermission en w (userId connection) ''send_message'' (Some (cd_pairingId d))"
    and ok: "\<not> write_fails en (InsertMessage (new_message_row en d))"
    and pr: "db_single en ''handleChatMessage.pairing''
               (filter (\<lambda>p. pairing_id p = cd_pairingId d) (pairings w)) = Some p"
  shows "\<exists>T. new_events w (handleChatMessage en connection m w) =
           DbWrite (InsertMessage (new_message_row en d)) True #
           map (\<lambda>c. Send (conn_id c)
                      (message_received en (saved w (new_message_row en d)) (cd_pairingId d))
                      (\<not> send_throws en (conn_id c)))
             (getUserConnections w (partner_of (userId connection) p)) @
           Send (conn_id connection) (message_sent en (saved w (new_message_row en d)) (m_id m))
             (\<not> send_throws en (conn_id connection)) # T \<and>
         list_all (is_send_of (typing_cleared en (userId connection) (cd_pairingId d))) T"
proof -
  define row where "row = new_message_row en d"
  define w1 where "w1 = db_write en (InsertMessage row) w"
  define w2 where "w2 = broadcastToUser en (partner_of (userId connection) p)
                          (message_received en (saved w row) (cd_pairingId d)) None w1"
  define w3 where "w3 = socket_send en (conn_id connection) (message_sent en (saved w row) (m_id m)) w2"
  define B where "B = map (\<lambda>c. Send (conn_id c)
                      (message_received en (saved w row) (cd_pairingId d))
                      (\<not> send_throws en (conn_id c)))
             (getUserConnections w (partner_of (userId connection) p))"
  define C where "C = Send (conn_id connection) (message_sent en (saved w row) (m_id m))
             (\<not> send_throws en (conn_id connection))"
  have res: "handleChatMessage en connection m w =
      (if send_throws en (conn_id connection) then w3
       else clearTypingIndicator en (userId connection) (cd_pairingId d) w3)"
    using s perm ok pr
    by (simp add: handleChatMessage_def Let_def w3_def w2_def w1_def row_def)
  have t3: "trace w3 = trace w @ DbWrite (InsertMessage row) True # B @ [C]"
    using ok by (simp add: w3_def w2_def w1_def broadcastToUser_trace_exact B_def C_def row_def)
  obtain T where T: "trace (handleChatMessage en connection m w) = trace w3 @ T"
    "list_all (is_send_of (typing_cleared en (userId connection) (cd_pairingId d))) T"
  proof (cases "send_throws en (conn_id connection)")
    case True
    then have "trace (handleChatMessage en connection m w) = trace w3 @ []" by (simp add: res)
    then show ?thesis using that by simp
  next
    case False
    then show ?thesis
      using clearTypingIndicator_trace[of en "userId connection" "cd_pairingId d" w3] that
      by (auto simp: res)
  qed
  have "new_events w (handleChatMessage en connection m w) = DbWrite (InsertMessage row) True # B @ C # T"
    by (rule new_events_append) (simp add: T(1) t3)
  with T(2) show ?thesis unfolding B_def C_def row_def by blast
qed







section \<open>The family on the chat channel\<close>

text \<open>The student holds one chat connection, the first parent two.\<close>

definition second_conn :: "string \<Rightarrow> string \<Rightarrow> connection" where
  "second_conn ns u = (conn_of ns u)\<lparr>conn_id := ns @ ''_'' @ u @ ''_1700000000500_p0q8w7e6r''\<rparr>"

definition chat_family :: world where
  "chat_family =
     addConnection (second_conn ''chat'' bob)
       (addConnection (conn_of ''chat'' bob) (addConnection (conn_of ''chat'' alice) family))"

definition chat_msg :: "pairing \<Rightarrow> string \<Rightarrow> ws_message" where
  "chat_msg p from =
    \<lparr>m_id = ''0d0d0d0d-0000-4000-8000-00000000000d'', m_type = ''message'', m_namespace = ''chat'',
     m_data = ChatMsg \<lparr>cd_pairingId = pairing_id p, cd_content = ''good night'',
                cd_messageType = ''text'', cd_senderId = from\<rparr>,
     m_timestamp = 0, m_userId = None\<rparr>"

lemma chat_family_registry:
  "connections chat_family =
     [(conn_id (conn_of ''chat'' alice), conn_of ''chat'' alice),
      (conn_id (conn_of ''chat'' bob), conn_of ''chat'' bob),
      (conn_id (second_conn ''chat'' bob), second_conn ''chat'' bob)]"
  "userConnections chat_family =
     [(alice, [conn_id (conn_of ''chat'' alice)]),
      (bob, [conn_id (conn_of ''chat'' bob), conn_id (second_conn ''chat'' bob)])]"
  "pairings chat_family = [pair_ab, pair_ac]"
  "profiles chat_family = profiles family"
  "trace chat_family = []"
  by (simp_all add: chat_family_def addConnection_def Let_def map_set_def map_has_def map_get_def
      set_add_def conn_of_def second_conn_def family_def alice_def bob_def)


lemma conn_ids_distinct [simp]:
  "conn_id (conn_of ''chat'' alice) \<noteq> conn_id (conn_of ''chat'' bob)"
  "conn_id (conn_of ''chat'' alice) \<noteq> conn_id (second_conn ''chat'' bob)"
  "conn_id (conn_of ''chat'' bob) \<noteq> conn_id (second_conn ''chat'' bob)"
  "conn_id (conn_of ''chat'' bob) \<noteq> conn_id (conn_of ''chat'' alice)"
  "conn_id (second_conn ''chat'' bob) \<noteq> conn_id (conn_of ''chat'' alice)"
  "conn_id (second_conn ''chat'' bob) \<noteq> conn_id (conn_of ''chat'' bob)"
  by (simp_all add: conn_of_def second_conn_def alice_def bob_def)

lemma chat_family_bob_connections:
  "getUserConnections chat_family bob = [conn_of ''chat'' bob, second_conn ''chat'' bob]"
  by (simp add: getUserConnections_def chat_family_registry map_get_def List.map_filter_simps)

definition chat_data_of :: "pairing \<Rightarrow> string \<Rightarrow> chat_data" where
  "chat_data_of p from =
    \<lparr>cd_pairingId = pairing_id p, cd_content = ''good night'', cd_messageType = ''text'',
     cd_senderId = from\<rparr>"


lemma env_at_fields [simp]:
  "now (env_at t) = t" "send_throws (env_at t) = (\<lambda>c. False)"
  "write_fails (env_at t) = (\<lambda>op. False)" "read_fails (env_at t) = (\<lambda>site. False)"
  "valid_uuid (env_at t) = uuid_shape"
  by (simp_all add: env_at_def)


lemma chat_msg_parses:
  "valid_uuid en = uuid_shape \<Longrightarrow> uuid_shape from \<Longrightarrow>
   ChatMessageSchema en (chat_msg pair_ab from) = Some (chat_data_of pair_ab from)"
  by (simp add: ChatMessageSchema_def WSMessageSchema_def chat_msg_def chat_data_of_def
      uuid_shape_def pair_ab_def)

lemma alice_may_send:
  "read_fails en = (\<lambda>site. False) \<Longrightarrow> pairings w = [pair_ab, pair_ac] \<Longrightarrow>
   profiles w = profiles family \<Longrightarrow>
   hasPermission en w alice ''send_message'' (Some (pairing_id pair_ab))"
  by (simp add: hasPermission_def getUserProfile_def db_single_def family_def
      profile_of_def pair_ab_def pair_ac_def)

lemma chat_pairing_lookup:
  "read_fails en = (\<lambda>site. False) \<Longrightarrow> pairings w = [pair_ab, pair_ac] \<Longrightarrow>
   db_single en site (filter (\<lambda>p. pairing_id p = pairing_id pair_ab) (pairings w)) = Some pair_ab"
  by (simp add: db_single_def pair_ab_def pair_ac_def)





section \<open>The recorded sender of a chat message\<close>

text \<open>The student's connection sends, into the pairing with the first parent, a message
  whose \<open>senderId\<close> is the second parent.\<close>

definition spoofed :: "event list" where
  "spoofed = new_events chat_family
     (handleChatMessage (env_at 1000) (conn_of ''chat'' alice) (chat_msg pair_ab carol) chat_family)"

definition spoofed_row :: message_row where
  "spoofed_row =
    \<lparr>message_id = ''0e0e0e0e-0000-4000-8000-00000000000e'',
     msg_pairing_id = ''10000000-0000-4000-8000-000000000001'', sender_id = carol,
     content = ''good night'', message_type = ''text'', created_at = 1000\<rparr>"

lemma spoofed_events:
  "\<exists>rest. spoofed =
     [DbWrite (InsertMessage spoofed_row) True,
      Send (conn_id (conn_of ''chat'' bob))
        (message_received (env_at 1000) (saved chat_family spoofed_row) (pairing_id pair_ab)) True,
      Send (conn_id (second_conn ''chat'' bob))
        (message_received (env_at 1000) (saved chat_family spoofed_row) (pairing_id pair_ab)) True]
     @ rest"
proof -
  have u: "userId (conn_of ''chat'' alice) = alice" by (simp add: conn_of_def)
  have d: "cd_pairingId (chat_data_of pair_ab carol) = pairing_id pair_ab"
    by (simp add: chat_data_of_def)
  have row: "new_message_row (env_at 1000) (chat_data_of pair_ab carol) = spoofed_row"
    by (simp add: new_message_row_def chat_data_of_def spoofed_row_def env_at_def pair_ab_def)
  have nf: "\<not> write_fails (env_at 1000) (InsertMessage (new_message_row (env_at 1000) (chat_data_of pair_ab carol)))"
    by simp
  from handleChatMessage_sent[of "env_at 1000" "chat_msg pair_ab carol" "chat_data_of pair_ab carol"
      chat_family "conn_of ''chat'' alice" pair_ab, unfolded u d,
      OF chat_msg_parses[OF env_at_fields(5) uuid_shapes(3)]
         alice_may_send[OF env_at_fields(4) chat_family_registry(3) chat_family_registry(4)]
         nf chat_pairing_lookup[OF env_at_fields(4) chat_family_registry(3)]]
  obtain T where "spoofed =
           DbWrite (InsertMessage spoofed_row) True #
           map (\<lambda>c. Send (conn_id c)
                      (message_received (env_at 1000) (saved chat_family spoofed_row) (pairing_id pair_ab))
                      (\<not> send_throws (env_at 1000) (conn_id c)))
             (getUserConnections chat_family (partner_of alice pair_ab)) @
           Send (conn_id (conn_of ''chat'' alice))
             (message_sent (env_at 1000) (saved chat_family spoofed_row) (m_id (chat_msg pair_ab carol)))
             (\<not> send_throws (env_at 1000) (conn_id (conn_of ''chat'' alice))) # T"
    unfolding spoofed_def row by blast
  moreover have "partner_of alice pair_ab = bob" by (simp add: partner_of_def pair_ab_def)
  ultimately show ?thesis by (auto simp: chat_family_bob_connections)
qed

text \<open>
  Claim C10. The row that \<open>handleChatMessage\<close> inserts takes its \<open>sender_id\<close> from
  \<open>data.senderId\<close> of the message; the user of the connection decides the permission
  and the recipient only. So whenever the message is valid, the permission check
  passes, the insert succeeds and the pairing is found, the row with that sender is
  stored and then delivered to every connection of the recipient. And there is an input
  whose \<open>senderId\<close> differs from the user of the connection and whose permission check
  passes, for which a row is stored and delivered whose sender is not that user.
\<close>

theorem sender_taken_from_envelope:
  "(\<forall>d p. ChatMessageSchema en m = Some d \<and>
      hasPermission en w (userId connection) ''send_message'' (Some (cd_pairingId d)) \<and>
      \<not> write_fails en (InsertMessage (new_message_row en d)) \<and>
      db_single en ''handleChatMessage.pairing''
        (filter (\<lambda>p. pairing_id p = cd_pairingId d) (pairings w)) = Some p \<longrightarrow>
      new_message_row en d =
        \<lparr>message_id = uuidv4 en, msg_pairing_id = cd_pairingId d, sender_id = cd_senderId d,
         content = cd_content d, message_type = cd_messageType d, created_at = now en\<rparr> \<and>
      (\<exists>rest. new_events w (handleChatMessage en connection m w) =
         DbWrite (InsertMessage (new_message_row en d)) True #
         map (\<lambda>c. Send (conn_id c)
                    (message_received en (saved w (new_message_row en d)) (cd_pairingId d))
                    (\<not> send_throws en (conn_id c)))
           (getUserConnections w (partner_of (userId connection) p)) @ rest)) \<and>
   (\<exists>en' connection' m' w' d' row.
      ChatMessageSchema en' m' = Some d' \<and>
      hasPermission en' w' (userId connection') ''send_message'' (Some (cd_pairingId d')) \<and>
      cd_senderId d' \<noteq> userId connection' \<and>
      sender_id row \<noteq> userId connection' \<and>
      DbWrite (InsertMessage row) True \<in> set (new_events w' (handleChatMessage en' connection' m' w')) \<and>
      list_ex (\<lambda>ev. is_delivery ev \<and> carried ev = Some row)
        (new_events w' (handleChatMessage en' connection' m' w')))"
proof (intro conjI allI impI)
  fix d p
  assume a: "ChatMessageSchema en m = Some d \<and>
      hasPermission en w (userId connection) ''send_message'' (Some (cd_pairingId d)) \<and>
      \<not> write_fails en (InsertMessage (new_message_row en d)) \<and>
      db_single en ''handleChatMessage.pairing''
        (filter (\<lambda>p. pairing_id p = cd_pairingId d) (pairings w)) = Some p"
  show "new_message_row en d =
        \<lparr>message_id = uuidv4 en, msg_pairing_id = cd_pairingId d, sender_id = cd_senderId d,
         content = cd_content d, message_type = cd_messageType d, created_at = now en\<rparr>"
    by (simp add: new_message_row_def)
  from a handleChatMessage_sent[of en m d w connection p]
  show "\<exists>rest. new_events w (handleChatMessage en connection m w) =
         DbWrite (InsertMessage (new_message_row en d)) True #
         map (\<lambda>c. Send (conn_id c)
                    (message_received en (saved w (new_message_row en d)) (cd_pairingId d))
                    (\<not> send_throws en (conn_id c)))
           (getUserConnections w (partner_of (userId connection) p)) @ rest"
    by blast
next
  from spoofed_events obtain rest where sp: "spoofed =
     [DbWrite (InsertMessage spoofed_row) True,
      Send (conn_id (conn_of ''chat'' bob))
        (message_received (env_at 1000) (saved chat_family spoofed_row) (pairing_id pair_ab)) True,
      Send (conn_id (second_conn ''chat'' bob))
        (message_received (env_at 1000) (saved chat_family spoofed_row) (pairing_id pair_ab)) True]
     @ rest"
    by blast
  have 1: "ChatMessageSchema (env_at 1000) (chat_msg pair_ab carol) = Some (chat_data_of pair_ab carol)"
    by (rule chat_msg_parses[OF env_at_fields(5) uuid_shapes(3)])
  have 2: "hasPermission (env_at 1000) chat_family (userId (conn_of ''chat'' alice)) ''send_message''
             (Some (cd_pairingId (chat_data_of pair_ab carol)))"
    using alice_may_send[OF env_at_fields(4) chat_family_registry(3) chat_family_registry(4)]
    by (simp add: conn_of_def chat_data_of_def)
  have 3: "cd_senderId (chat_data_of pair_ab carol) \<noteq> userId (conn_of ''chat'' alice)"
    "sender_id spoofed_row \<noteq> userId (conn_of ''chat'' alice)"
    by (simp_all add: chat_data_of_def conn_of_def spoofed_row_def)
  have 4: "DbWrite (InsertMessage spoofed_row) True \<in> set spoofed" by (simp add: sp)
  have 5: "list_ex (\<lambda>ev. is_delivery ev \<and> carried ev = Some spoofed_row) spoofed"
    by (simp add: sp is_delivery_def carried_def message_received_def saved_def)
  from 1 2 3 4 5 show "\<exists>en' connection' m' w' d' row.
      ChatMessageSchema en' m' = Some d' \<and>
      hasPermission en' w' (userId connection') ''send_message'' (Some (cd_pairingId d')) \<and>
      cd_senderId d' \<noteq> userId connection' \<and>
      sender_id row \<noteq> userId connection' \<and>
      DbWrite (InsertMessage row) True \<in> set (new_events w' (handleChatMessage en' connection' m' w')) \<and>
      list_ex (\<lambda>ev. is_delivery ev \<and> carried ev = Some row)
        (new_events w' (handleChatMessage en' connection' m' w'))"
    unfolding spoofed_def by blast
qed

text \<open>Claim C10 at a concrete input: the connection is the student's, the row stored and
  delivered to both connections of the first parent names the second parent as its
  sender.\<close>

theorem sender_taken_from_envelope_witness:
  "userId (conn_of ''chat'' alice) = alice \<and>
   new_message_row (env_at 1000) (chat_data_of pair_ab carol) =
     \<lparr>message_id = ''0e0e0e0e-0000-4000-8000-00000000000e'',
      msg_pairing_id = ''10000000-0000-4000-8000-000000000001'', sender_id = carol,
      content = ''good night'', message_type = ''text'', created_at = 1000\<rparr> \<and>
   (\<exists>rest. spoofed =
      DbWrite (InsertMessage (new_message_row (env_at 1000) (chat_data_of pair_ab carol))) True #
      map (\<lambda>c. Send (conn_id c)
                 (message_received (env_at 1000)
                    (saved chat_family (new_message_row (env_at 1000) (chat_data_of pair_ab carol)))
                    (pairing_id pair_ab)) True)
        [conn_of ''chat'' bob, second_conn ''chat'' bob] @ rest)"
proof -
  have u: "userId (conn_of ''chat'' alice) = alice" by (simp add: conn_of_def)
  have d: "cd_pairingId (chat_data_of pair_ab carol) = pairing_id pair_ab"
    by (simp add: chat_data_of_def)
  have nf: "\<not> write_fails (env_at 1000) (InsertMessage (new_message_row (env_at 1000) (chat_data_of pair_ab carol)))"
    by simp
  have po: "partner_of alice pair_ab = bob" by (simp add: partner_of_def pair_ab_def)
  from sender_taken_from_envelope[of "env_at 1000" "chat_msg pair_ab carol" chat_family
      "conn_of ''chat'' alice", THEN conjunct1, rule_format, of "chat_data_of pair_ab carol" pair_ab,
      unfolded u d]
    chat_msg_parses[OF env_at_fields(5) uuid_shapes(3), of 1000]
    alice_may_send[OF env_at_fields(4) chat_family_registry(3) chat_family_registry(4), of 1000]
    nf chat_pairing_lookup[OF env_at_fields(4) chat_family_registry(3), of 1000 "''handleChatMessage.pairing''"]
  have E: "\<exists>rest. spoofed =
         DbWrite (InsertMessage (new_message_row (env_at 1000) (chat_data_of pair_ab carol))) True #
         map (\<lambda>c. Send (conn_id c)
                    (message_received (env_at 1000)
                       (saved chat_family (new_message_row (env_at 1000) (chat_data_of pair_ab carol)))
                       (pairing_id pair_ab))
                    (\<not> send_throws (env_at 1000) (conn_id c)))
           (getUserConnections chat_family (partner_of alice pair_ab)) @ rest"
    unfolding spoofed_def by blast
  have R: "new_message_row (env_at 1000) (chat_data_of pair_ab carol) =
     \<lparr>message_id = ''0e0e0e0e-0000-4000-8000-00000000000e'',
      msg_pairing_id = ''10000000-0000-4000-8000-000000000001'', sender_id = carol,
      content = ''good night'', message_type = ''text'', created_at = 1000\<rparr>"
    by (simp add: new_message_row_def chat_data_of_def pair_ab_def env_at_def)
  from E have "\<exists>rest. spoofed =
      DbWrite (InsertMessage (new_message_row (env_at 1000) (chat_data_of pair_ab carol))) True #
      map (\<lambda>c. Send (conn_id c)
                 (message_received (env_at 1000)
                    (saved chat_family (new_message_row (env_at 1000) (chat_data_of pair_ab carol)))
                    (pairing_id pair_ab)) True)
        [conn_of ''chat'' bob, second_conn ''chat'' bob] @ rest"
    by (simp add: po chat_family_bob_connections)
  with u R show ?thesis by blast
qed


section \<open>The presence coordinator\<close>

text \<open>
  \<open>suppressed\<close>: the rule of \<open>notifyPairedPartners\<close> under which no partner is notified
  (the user is a student who is not visible to the partner, or has do-not-disturb on).
  \<open>is_partner_update\<close>: the event is a send of a \<open>partner_presence_update\<close> envelope.
  \<open>presence_written\<close>: the upsert of the presence row that \<open>updateUserPresence\<close>
  issues, with its outcome.
\<close>

definition suppressed :: "profile \<Rightarrow> bool" where
  "suppressed p \<longleftrightarrow> (user_type p = ''student'' \<and> \<not> visible_to_partner p) \<or> dnd_enabled p"

definition is_partner_update :: "event \<Rightarrow> bool" where
  "is_partner_update ev =
    (case ev of Send c e ok \<Rightarrow> e_type e = ''partner_presence_update'' | DbWrite op ok \<Rightarrow> False)"

definition presence_record :: "env \<Rightarrow> string \<Rightarrow> string \<Rightarrow> string option \<Rightarrow> presence_row" where
  "presence_record en u st meta =
    \<lparr>user_id = u, presence_status = st, last_heartbeat = now en,
     metadata = (case meta of None \<Rightarrow> ''{}'' | Some x \<Rightarrow> x)\<rparr>"

definition presence_written :: "env \<Rightarrow> string \<Rightarrow> string \<Rightarrow> string option \<Rightarrow> event" where
  "presence_written en u st meta =
    DbWrite (UpsertPresence (presence_record en u st meta))
      (\<not> write_fails en (UpsertPresence (presence_record en u st meta)))"

lemma updateUserPresence_frame [simp]:
  "activeCalls (updateUserPresence en u st meta w) = activeCalls w"
  "timers (updateUserPresence en u st meta w) = timers w"
  "connections (updateUserPresence en u st meta w) = connections w"
  "userConnections (updateUserPresence en u st meta w) = userConnections w"
  "profiles (updateUserPresence en u st meta w) = profiles w"
  "pairings (updateUserPresence en u st meta w) = pairings w"
  "trace (updateUserPresence en u st meta w) = trace w @ [presence_written en u st meta]"
  by (simp_all add: updateUserPresence_def presence_written_def presence_record_def)

lemma active_pairings_of_cong:
  "pairings w' = pairings w \<Longrightarrow> active_pairings_of u w' = active_pairings_of u w"
  by (simp add: active_pairings_of_def)

lemma notifyPairedPartners_suppressed:
  assumes "filter (\<lambda>p. profile_id p = u) (profiles w) = [prof]" and "suppressed prof"
  shows "notifyPairedPartners en u st meta w = w"
  using assms
  by (auto simp: notifyPairedPartners_def db_single_def db_select_def suppressed_def Let_def
      split: option.splits)

lemma not_partner_update [simp]:
  "\<not> is_partner_update (DbWrite op ok)"
  "\<not> is_partner_update (presence_written en u st meta)"
  "e_type e \<noteq> ''partner_presence_update'' \<Longrightarrow> \<not> is_partner_update (Send c e ok)"
  "is_partner_update (Send c (partner_presence_update en u st meta) ok)"
  by (simp_all add: is_partner_update_def presence_written_def partner_presence_update_def)

lemma hidden_presenceHandler:
  assumes "filter (\<lambda>p. profile_id p = userId connection) (profiles w) = [prof]" and "suppressed prof"
  shows "new_events w (presenceHandler en connection w) =
           [presence_written en (userId connection) ''online'' None,
            Send (conn_id connection)
              \<lparr>e_type = ''presence_state'', e_namespace = ''presence'',
               e_data = getUserPresenceState en (userId connection)
                          (updateUserPresence en (userId connection) ''online'' None w),
               e_timestamp = now en\<rparr> (\<not> send_throws en (conn_id connection))]"
  using assms notifyPairedPartners_suppressed[of "userId connection"
      "updateUserPresence en (userId connection) ''online'' None w" prof en "''online''" None]
  by (simp add: presenceHandler_def Let_def new_events_def)

lemma hidden_handleHeartbeat:
  assumes "filter (\<lambda>p. profile_id p = userId connection) (profiles w) = [prof]" and "suppressed prof"
  shows "new_events w (handleHeartbeat en connection m w) =
           (case PresenceHeartbeatMessageSchema en m of
              None \<Rightarrow> []
            | Some st \<Rightarrow>
                (case st of None \<Rightarrow> [] | Some x \<Rightarrow> [presence_written en (userId connection) x None]) @
                [Send (conn_id connection)
                   \<lparr>e_type = ''heartbeat_ack'', e_namespace = ''presence'',
                    e_data = HeartbeatAckData (now en), e_timestamp = now en\<rparr>
                   (\<not> send_throws en (conn_id connection))])"
proof (cases "PresenceHeartbeatMessageSchema en m")
  case None
  then show ?thesis by (simp add: handleHeartbeat_def new_events_def)
next
  case (Some st)
  show ?thesis
  proof (cases st)
    case None
    then show ?thesis using Some by (simp add: handleHeartbeat_def new_events_def)
  next
    case (Some x)
    then show ?thesis
      using \<open>PresenceHeartbeatMessageSchema en m = Some st\<close> assms
        notifyPairedPartners_suppressed[of "userId connection"
          "updateUserPresence en (userId connection) x None w" prof en x None]
      by (simp add: handleHeartbeat_def new_events_def)
  qed
qed

lemma hidden_handlePresenceUpdate:
  assumes "filter (\<lambda>p. profile_id p = userId connection) (profiles w) = [prof]" and "suppressed prof"
  shows "new_events w (handlePresenceUpdate en connection m w) =
           (case PresenceUpdateMessageSchema en m of
              None \<Rightarrow> []
            | Some (u, st, meta) \<Rightarrow>
                if u \<noteq> userId connection
                then [Send (conn_id connection)
                        \<lparr>e_type = ''error'', e_namespace = ''presence'',
                         e_data = ErrorData ''Forbidden'' ''Cannot update presence for other users'',
                         e_timestamp = now en\<rparr> (\<not> send_throws en (conn_id connection))]
                else [presence_written en u st meta,
                      Send (conn_id connection)
                        \<lparr>e_type = ''presence_updated'', e_namespace = ''presence'',
                         e_data = PresenceUpdatedData st (now en), e_timestamp = now en\<rparr>
                        (\<not> send_throws en (conn_id connection))])"
proof (cases "PresenceUpdateMessageSchema en m")
  case None
  then show ?thesis by (simp add: handlePresenceUpdate_def new_events_def)
next
  case (Some x)
  obtain u st meta where x: "x = (u, st, meta)" by (cases x) auto
  show ?thesis
  proof (cases "u = userId connection")
    case False
    then show ?thesis using Some x by (simp add: handlePresenceUpdate_def new_events_def)
  next
    case True
    then show ?thesis
      using Some x assms
        notifyPairedPartners_suppressed[of "userId connection"
          "updateUserPresence en (userId connection) st meta w" prof en st meta]
      by (simp add: handlePresenceUpdate_def new_events_def Let_def)
  qed
qed

lemma hidden_presence_on_close:
  assumes "filter (\<lambda>p. profile_id p = userId connection) (profiles w) = [prof]" and "suppressed prof"
  shows "new_events w (presence_on_close en connection w) =
           (if getUserConnections (removeConnection (conn_id connection) w) (userId connection) = []
            then [presence_written en (userId connection) ''offline'' None] else [])"
  using assms
    notifyPairedPartners_suppressed[of "userId connection"
      "updateUserPresence en (userId connection) ''offline'' None
         (removeConnection (conn_id connection) w)" prof en "''offline''" None]
  by (simp add: presence_on_close_def Let_def new_events_def)


text \<open>
  Claim C8. Let the profile of the user of a presence connection be suppressed: a
  student with \<open>visible_to_partner\<close> false, or any user with do-not-disturb on. Then no
  run of the four places where a presence status changes (the connect, a heartbeat, a
  presence update, the close of the connection) sends a \<open>partner_presence_update\<close>
  envelope to anyone, while the upsert of the presence row is issued as usual: on the
  connect, on a heartbeat that carries a status, on an update for the user's own id,
  and on the close that leaves the user without connections.
\<close>

theorem suppressed_presence_not_notified:
  assumes "filter (\<lambda>p. profile_id p = userId connection) (profiles w) = [prof]"
    and "suppressed prof"
  shows "\<not> list_ex is_partner_update (new_events w (presenceHandler en connection w)) \<and>
     presence_written en (userId connection) ''online'' None
       \<in> set (new_events w (presenceHandler en connection w)) \<and>
     \<not> list_ex is_partner_update (new_events w (handleHeartbeat en connection m w)) \<and>
     (\<forall>st. PresenceHeartbeatMessageSchema en m = Some (Some st) \<longrightarrow>
        presence_written en (userId connection) st None
          \<in> set (new_events w (handleHeartbeat en connection m w))) \<and>
     \<not> list_ex is_partner_update (new_events w (handlePresenceUpdate en connection m w)) \<and>
     (\<forall>st meta. PresenceUpdateMessageSchema en m = Some (userId connection, st, meta) \<longrightarrow>
        presence_written en (userId connection) st meta
          \<in> set (new_events w (handlePresenceUpdate en connection m w))) \<and>
     \<not> list_ex is_partner_update (new_events w (presence_on_close en connection w)) \<and>
     (getUserConnections (removeConnection (conn_id connection) w) (userId connection) = [] \<longrightarrow>
        presence_written en (userId connection) ''offline'' None
          \<in> set (new_events w (presence_on_close en connection w)))"
proof -
  note h = hidden_presenceHandler[OF assms, of en] hidden_handleHeartbeat[OF assms, of en m]
    hidden_handlePresenceUpdate[OF assms, of en m] hidden_presence_on_close[OF assms, of en]
  have 1: "\<not> list_ex is_partner_update (new_events w (presenceHandler en connection w))"
    "presence_written en (userId connection) ''online'' None
       \<in> set (new_events w (presenceHandler en connection w))"
    by (simp_all add: h(1))
  have 2: "\<not> list_ex is_partner_update (new_events w (handleHeartbeat en connection m w))"
    by (simp add: h(2) split: option.splits)
  have 3: "presence_written en (userId connection) st None
          \<in> set (new_events w (handleHeartbeat en connection m w))"
    if "PresenceHeartbeatMessageSchema en m = Some (Some st)" for st
    using that by (simp add: h(2))
  have 4: "\<not> list_ex is_partner_update (new_events w (handlePresenceUpdate en connection m w))"
    by (simp add: h(3) split: option.splits prod.splits)
  have 5: "presence_written en (userId connection) st meta
          \<in> set (new_events w (handlePresenceUpdate en connection m w))"
    if "PresenceUpdateMessageSchema en m = Some (userId connection, st, meta)" for st meta
    using that by (simp add: h(3))
  have 6: "\<not> list_ex is_partner_update (new_events w (presence_on_close en connection w))"
    by (simp add: h(4))
  have 7: "presence_written en (userId connection) ''offline'' None
          \<in> set (new_events w (presence_on_close en connection w))"
    if "getUserConnections (removeConnection (conn_id connection) w) (userId connection) = []"
    using that by (simp add: h(4))
  from 1 2 3 4 5 6 7 show ?thesis by blast
qed

text \<open>Without failing sockets a broadcast leaves the registry as it is.\<close>

lemma broadcast_one_registry:
  "send_throws en = (\<lambda>c. False) \<Longrightarrow>
   connections (broadcast_one en m ex conn w) = connections w \<and>
   userConnections (broadcast_one en m ex conn w) = userConnections w"
  by (simp add: broadcast_one_def Let_def)

lemma broadcastToUser_registry:
  assumes "send_throws en = (\<lambda>c. False)"
  shows "connections (broadcastToUser en u m ex w) = connections w"
    and "userConnections (broadcastToUser en u m ex w) = userConnections w"
  unfolding broadcastToUser_def
  by (rule fold_frame, simp add: broadcast_one_registry[OF assms])+

lemma notify_fold_trace:
  assumes nt: "send_throws en = (\<lambda>c. False)"
  shows "trace (fold (\<lambda>partnerId. broadcastToUser en partnerId msg None) pids w) =
           trace w @ concat (map (\<lambda>pid. map (\<lambda>c. Send (conn_id c) msg True) (getUserConnections w pid)) pids) \<and>
         connections (fold (\<lambda>partnerId. broadcastToUser en partnerId msg None) pids w) = connections w \<and>
         userConnections (fold (\<lambda>partnerId. broadcastToUser en partnerId msg None) pids w) = userConnections w"
proof (induction pids arbitrary: w)
  case Nil
  then show ?case by simp
next
  case (Cons pid pids)
  let ?w1 = "broadcastToUser en pid msg None w"
  have reg: "connections ?w1 = connections w" "userConnections ?w1 = userConnections w"
    using broadcastToUser_registry[OF nt] by simp_all
  have guc: "getUserConnections ?w1 q = getUserConnections w q" for q
    by (rule getUserConnections_cong[OF reg])
  have t1: "trace ?w1 = trace w @ map (\<lambda>c. Send (conn_id c) msg True) (getUserConnections w pid)"
    by (simp add: broadcastToUser_trace_exact nt)
  show ?case
    using Cons.IH[of ?w1] by (simp add: guc t1 reg)
qed

lemma notifyPairedPartners_visible:
  assumes nt: "send_throws en = (\<lambda>c. False)"
    and rd: "\<not> read_fails en ''notifyPairedPartners.pairings''"
    and pf: "db_single en ''notifyPairedPartners.profile''
               (filter (\<lambda>p. profile_id p = u) (profiles w)) = Some prof"
    and vis: "\<not> suppressed prof"
  shows "trace (notifyPairedPartners en u st meta w) =
           trace w @ concat (map (\<lambda>p. map (\<lambda>c. Send (conn_id c) (partner_presence_update en u st meta) True)
                                       (getUserConnections w (partner_of u p)))
                             (active_pairings_of u w))"
    and "connections (notifyPairedPartners en u st meta w) = connections w"
    and "userConnections (notifyPairedPartners en u st meta w) = userConnections w"
proof -
  have res: "notifyPairedPartners en u st meta w =
      fold (\<lambda>partnerId. broadcastToUser en partnerId (partner_presence_update en u st meta) None)
        (map (partner_of u) (active_pairings_of u w)) w"
    using rd pf vis
    by (auto simp: notifyPairedPartners_def db_select_def suppressed_def Let_def)
  note f = notify_fold_trace[OF nt, of "partner_presence_update en u st meta"
      "map (partner_of u) (active_pairings_of u w)" w]
  show "trace (notifyPairedPartners en u st meta w) =
           trace w @ concat (map (\<lambda>p. map (\<lambda>c. Send (conn_id c) (partner_presence_update en u st meta) True)
                                       (getUserConnections w (partner_of u p)))
                             (active_pairings_of u w))"
    unfolding res using f by (simp add: map_map o_def)
  show "connections (notifyPairedPartners en u st meta w) = connections w"
    unfolding res using f by simp
  show "userConnections (notifyPairedPartners en u st meta w) = userConnections w"
    unfolding res using f by simp
qed

lemma filter_partner_updates:
  "filter is_partner_update
     (concat (map (\<lambda>p. map (\<lambda>c. Send (conn_id c) (partner_presence_update en u st meta) True) (f p)) ps))
   = concat (map (\<lambda>p. map (\<lambda>c. Send (conn_id c) (partner_presence_update en u st meta) True) (f p)) ps)"
  by (induction ps) (simp_all add: filter_id_conv)

lemma presenceHandler_notifies:
  assumes nt: "send_throws en = (\<lambda>c. False)"
    and rd: "\<not> read_fails en ''notifyPairedPartners.pairings''"
    and pf: "db_single en ''notifyPairedPartners.profile''
               (filter (\<lambda>p. profile_id p = userId connection) (profiles w)) = Some prof"
    and vis: "\<not> suppressed prof"
  shows "filter is_partner_update (new_events w (presenceHandler en connection w)) =
           concat (map (\<lambda>p. map (\<lambda>c. Send (conn_id c)
                                       (partner_presence_update en (userId connection) ''online'' None) True)
                                (getUserConnections w (partner_of (userId connection) p)))
                       (active_pairings_of (userId connection) w))"
    and "connections (presenceHandler en connection w) = connections w"
    and "userConnections (presenceHandler en connection w) = userConnections w"
proof -
  let ?u = "userId connection"
  let ?w1 = "updateUserPresence en ?u ''online'' None w"
  have pf1: "db_single en ''notifyPairedPartners.profile''
               (filter (\<lambda>p. profile_id p = ?u) (profiles ?w1)) = Some prof"
    using pf by simp
  have guc: "getUserConnections ?w1 q = getUserConnections w q" for q
    by (rule getUserConnections_cong) simp_all
  have ap: "active_pairings_of ?u ?w1 = active_pairings_of ?u w"
    by (rule active_pairings_of_cong) simp
  note n = notifyPairedPartners_visible[OF nt rd pf1 vis, of "''online''" None, unfolded guc ap]
  have ev: "new_events w (presenceHandler en connection w) =
      presence_written en ?u ''online'' None #
      concat (map (\<lambda>p. map (\<lambda>c. Send (conn_id c) (partner_presence_update en ?u ''online'' None) True)
                            (getUserConnections w (partner_of ?u p)))
                  (active_pairings_of ?u w)) @
      [Send (conn_id connection)
         \<lparr>e_type = ''presence_state'', e_namespace = ''presence'',
          e_data = getUserPresenceState en ?u (notifyPairedPartners en ?u ''online'' None ?w1),
          e_timestamp = now en\<rparr> (\<not> send_throws en (conn_id connection))]"
    by (rule new_events_append) (simp add: presenceHandler_def Let_def n(1))
  show "filter is_partner_update (new_events w (presenceHandler en connection w)) =
           concat (map (\<lambda>p. map (\<lambda>c. Send (conn_id c)
                                       (partner_presence_update en ?u ''online'' None) True)
                                (getUserConnections w (partner_of ?u p)))
                       (active_pairings_of ?u w))"
    unfolding ev by (simp add: filter_partner_updates)
  show "connections (presenceHandler en connection w) = connections w"
    by (simp add: presenceHandler_def Let_def n(2))
  show "userConnections (presenceHandler en connection w) = userConnections w"
    by (simp add: presenceHandler_def Let_def n(3))
qed


lemma addConnection_frame [simp]:
  "activeCalls (addConnection c w) = activeCalls w"
  "timers (addConnection c w) = timers w"
  "profiles (addConnection c w) = profiles w"
  "pairings (addConnection c w) = pairings w"
  "presence (addConnection c w) = presence w"
  "trace (addConnection c w) = trace w"
  by (simp_all add: addConnection_def Let_def split: option.splits)

lemma notifyPairedPartners_frame [simp]:
  "activeCalls (notifyPairedPartners en u st meta w) = activeCalls w"
  "timers (notifyPairedPartners en u st meta w) = timers w"
  "profiles (notifyPairedPartners en u st meta w) = profiles w"
  "pairings (notifyPairedPartners en u st meta w) = pairings w"
  "presence (notifyPairedPartners en u st meta w) = presence w"
  by (simp_all add: notifyPairedPartners_def Let_def fold_frame split: option.splits)

lemma presenceHandler_frame [simp]:
  "activeCalls (presenceHandler en c w) = activeCalls w"
  "timers (presenceHandler en c w) = timers w"
  "profiles (presenceHandler en c w) = profiles w"
  "pairings (presenceHandler en c w) = pairings w"
  by (simp_all add: presenceHandler_def Let_def)

lemma presenceHandler_presence:
  "\<not> write_fails en (UpsertPresence (presence_record en (userId c) ''online'' None)) \<Longrightarrow>
   presence (presenceHandler en c w) =
     upsert_presence (presence_record en (userId c) ''online'' None) (presence w)"
  by (simp add: presenceHandler_def Let_def updateUserPresence_def db_write_def apply_write_def
      presence_record_def socket_send_def)

text \<open>What opening a presence connection sends to the partners, when nothing fails and
  the profile of the user does not suppress it.\<close>

lemma presence_route_notifies:
  assumes "send_throws en = (\<lambda>c. False)"
    and "\<not> read_fails en ''notifyPairedPartners.pairings''"
    and "db_single en ''notifyPairedPartners.profile''
           (filter (\<lambda>p. profile_id p = userId connection) (profiles w)) = Some prof"
    and "\<not> suppressed prof"
  shows "filter is_partner_update (new_events w (presence_route en connection w)) =
           concat (map (\<lambda>p. map (\<lambda>c. Send (conn_id c)
                                       (partner_presence_update en (userId connection) ''online'' None) True)
                                (getUserConnections (addConnection connection w)
                                   (partner_of (userId connection) p)))
                       (active_pairings_of (userId connection) w))"
proof -
  have ne: "new_events w (presence_route en connection w) =
            new_events (addConnection connection w) (presenceHandler en connection (addConnection connection w))"
    by (simp add: new_events_def presence_route_def)
  have pf: "db_single en ''notifyPairedPartners.profile''
           (filter (\<lambda>p. profile_id p = userId connection) (profiles (addConnection connection w))) = Some prof"
    using assms(3) by simp
  have ap: "active_pairings_of (userId connection) (addConnection connection w) =
            active_pairings_of (userId connection) w"
    by (rule active_pairings_of_cong) simp
  show ?thesis
    unfolding ne presenceHandler_notifies(1)[OF assms(1) assms(2) pf assms(4)] ap ..
qed


lemma partnersPresence_cong:
  "profiles w' = profiles w \<Longrightarrow> presence w' = presence w \<Longrightarrow>
   partnersPresence en u w' ps = partnersPresence en u w ps"
  by (induction ps) (auto simp: Let_def split: option.splits)

lemma getUserPresenceState_cong:
  "profiles w' = profiles w \<Longrightarrow> presence w' = presence w \<Longrightarrow> pairings w' = pairings w \<Longrightarrow>
   getUserPresenceState en u w' = getUserPresenceState en u w"
  by (auto simp: getUserPresenceState_def partnersPresence_cong[of w' w]
      active_pairings_of_cong[of w' w] Let_def split: option.splits)

lemma updateUserPresence_presence:
  "presence (updateUserPresence en u st meta w) =
     (if write_fails en (UpsertPresence (presence_record en u st meta)) then presence w
      else upsert_presence (presence_record en u st meta) (presence w))"
  by (simp add: updateUserPresence_def db_write_def apply_write_def presence_record_def)

lemma presenceHandler_events:
  assumes nt: "send_throws en = (\<lambda>c. False)"
    and rd: "\<not> read_fails en ''notifyPairedPartners.pairings''"
    and pf: "db_single en ''notifyPairedPartners.profile''
               (filter (\<lambda>p. profile_id p = userId connection) (profiles w)) = Some prof"
    and vis: "\<not> suppressed prof"
  shows "new_events w (presenceHandler en connection w) =
      presence_written en (userId connection) ''online'' None #
      concat (map (\<lambda>p. map (\<lambda>c. Send (conn_id c)
                                  (partner_presence_update en (userId connection) ''online'' None) True)
                            (getUserConnections w (partner_of (userId connection) p)))
                  (active_pairings_of (userId connection) w)) @
      [Send (conn_id connection)
         \<lparr>e_type = ''presence_state'', e_namespace = ''presence'',
          e_data = getUserPresenceState en (userId connection)
                     (updateUserPresence en (userId connection) ''online'' None w),
          e_timestamp = now en\<rparr> True]"
proof -
  let ?u = "userId connection"
  let ?w1 = "updateUserPresence en ?u ''online'' None w"
  have pf1: "db_single en ''notifyPairedPartners.profile''
               (filter (\<lambda>p. profile_id p = ?u) (profiles ?w1)) = Some prof"
    using pf by simp
  have guc: "getUserConnections ?w1 q = getUserConnections w q" for q
    by (rule getUserConnections_cong) simp_all
  have ap: "active_pairings_of ?u ?w1 = active_pairings_of ?u w"
    by (rule active_pairings_of_cong) simp
  note n = notifyPairedPartners_visible[OF nt rd pf1 vis, of "''online''" None, unfolded guc ap]
  have st: "getUserPresenceState en ?u (notifyPairedPartners en ?u ''online'' None ?w1) =
            getUserPresenceState en ?u ?w1"
    by (rule getUserPresenceState_cong) simp_all
  show ?thesis
    by (rule new_events_append) (simp add: presenceHandler_def Let_def n(1) st nt)
qed

text \<open>
  Claim C2, as amended. Every opening of a presence connection by a user, the first or
  an additional one, sets the user online, persists it and notifies. When no send
  throws, the pairings are read, the profile of the user is found and it is not
  suppressed, the events of the run are, in this order: the upsert of the user's
  presence row with status \<open>online\<close>; one \<open>partner_presence_update\<close> envelope with
  status \<open>online\<close> on each registered connection of the partner of each active pairing
  of the user, and no other such envelope; the \<open>presence_state\<close> snapshot on the new
  connection. The presence table holds the row when the store takes the write, and the
  registry is the one with the new connection added. How many connections the user
  already holds plays no part, so a partner is notified once for every presence
  connection that the user opens.
\<close>

theorem every_presence_connect_notifies:
  assumes "send_throws en = (\<lambda>c. False)"
    and "\<not> read_fails en ''notifyPairedPartners.pairings''"
    and "db_single en ''notifyPairedPartners.profile''
           (filter (\<lambda>p. profile_id p = userId connection) (profiles w)) = Some prof"
    and "\<not> suppressed prof"
  shows "filter is_partner_update (new_events w (presence_route en connection w)) =
           concat (map (\<lambda>p. map (\<lambda>c. Send (conn_id c)
                                       (partner_presence_update en (userId connection) ''online'' None) True)
                                (getUserConnections (addConnection connection w)
                                   (partner_of (userId connection) p)))
                       (active_pairings_of (userId connection) w)) \<and>
         new_events w (presence_route en connection w) =
           presence_written en (userId connection) ''online'' None #
           concat (map (\<lambda>p. map (\<lambda>c. Send (conn_id c)
                                       (partner_presence_update en (userId connection) ''online'' None) True)
                                (getUserConnections (addConnection connection w)
                                   (partner_of (userId connection) p)))
                       (active_pairings_of (userId connection) w)) @
           [Send (conn_id connection)
              \<lparr>e_type = ''presence_state'', e_namespace = ''presence'',
               e_data = getUserPresenceState en (userId connection)
                          (updateUserPresence en (userId connection) ''online'' None w),
               e_timestamp = now en\<rparr> True] \<and>
         presence (presence_route en connection w) =
           (if write_fails en (UpsertPresence (presence_record en (userId connection) ''online'' None))
            then presence w
            else upsert_presence (presence_record en (userId connection) ''online'' None) (presence w)) \<and>
         connections (presence_route en connection w) = connections (addConnection connection w) \<and>
         userConnections (presence_route en connection w) = userConnections (addConnection connection w)"
proof -
  let ?u = "userId connection"
  let ?w0 = "addConnection connection w"
  have ne: "new_events w (presence_route en connection w) =
            new_events ?w0 (presenceHandler en connection ?w0)"
    by (simp add: new_events_def presence_route_def)
  have pf: "db_single en ''notifyPairedPartners.profile''
           (filter (\<lambda>p. profile_id p = ?u) (profiles ?w0)) = Some prof"
    using assms(3) by simp
  have ap: "active_pairings_of ?u ?w0 = active_pairings_of ?u w"
    by (rule active_pairings_of_cong) simp
  have st: "getUserPresenceState en ?u (updateUserPresence en ?u ''online'' None ?w0) =
            getUserPresenceState en ?u (updateUserPresence en ?u ''online'' None w)"
    by (rule getUserPresenceState_cong) (simp_all add: updateUserPresence_presence)
  note ev = presenceHandler_events[OF assms(1) assms(2) pf assms(4), unfolded ap st]
  note reg = presenceHandler_notifies(2,3)[OF assms(1) assms(2) pf assms(4)]
  have 1: "filter is_partner_update (new_events w (presence_route en connection w)) =
           concat (map (\<lambda>p. map (\<lambda>c. Send (conn_id c)
                                       (partner_presence_update en ?u ''online'' None) True)
                                (getUserConnections ?w0 (partner_of ?u p)))
                       (active_pairings_of ?u w))"
    unfolding ne ev by (simp add: filter_partner_updates)
  have 3: "presence (presence_route en connection w) =
           (if write_fails en (UpsertPresence (presence_record en ?u ''online'' None))
            then presence w
            else upsert_presence (presence_record en ?u ''online'' None) (presence w))"
    by (simp add: presence_route_def presenceHandler_def Let_def updateUserPresence_presence)
  have 2: "new_events w (presence_route en connection w) =
           presence_written en ?u ''online'' None #
           concat (map (\<lambda>p. map (\<lambda>c. Send (conn_id c)
                                       (partner_presence_update en ?u ''online'' None) True)
                                (getUserConnections ?w0 (partner_of ?u p)))
                       (active_pairings_of ?u w)) @
           [Send (conn_id connection)
              \<lparr>e_type = ''presence_state'', e_namespace = ''presence'',
               e_data = getUserPresenceState en ?u (updateUserPresence en ?u ''online'' None w),
               e_timestamp = now en\<rparr> True]"
    unfolding ne by (rule ev)
  have 4: "connections (presence_route en connection w) = connections ?w0"
    "userConnections (presence_route en connection w) = userConnections ?w0"
    by (simp_all add: presence_route_def reg)
  from 1 2 3 4 show ?thesis by blast
qed

section \<open>The family on the presence channel\<close>

text \<open>The first parent holds a presence connection. The student opens one, and then a
  second one.\<close>

definition presence_family :: world where
  "presence_family = addConnection (conn_of ''presence'' bob) family"

definition first_connect :: world where
  "first_connect = presence_route (env_at 1000) (conn_of ''presence'' alice) presence_family"

definition second_connect :: world where
  "second_connect = presence_route (env_at 2000) (second_conn ''presence'' alice) first_connect"

lemma presence_ids_distinct [simp]:
  "conn_id (conn_of ''presence'' alice) \<noteq> conn_id (conn_of ''presence'' bob)"
  "conn_id (conn_of ''presence'' bob) \<noteq> conn_id (conn_of ''presence'' alice)"
  "conn_id (second_conn ''presence'' alice) \<noteq> conn_id (conn_of ''presence'' bob)"
  "conn_id (conn_of ''presence'' bob) \<noteq> conn_id (second_conn ''presence'' alice)"
  "conn_id (second_conn ''presence'' alice) \<noteq> conn_id (conn_of ''presence'' alice)"
  "conn_id (conn_of ''presence'' alice) \<noteq> conn_id (second_conn ''presence'' alice)"
  by (simp_all add: conn_of_def second_conn_def alice_def bob_def)

lemma sample_users [simp]:
  "userId (conn_of ns u) = u" "userId (second_conn ns u) = u"
  by (simp_all add: conn_of_def second_conn_def)

lemma family_fields [simp]:
  "pairings family = [pair_ab, pair_ac]" "presence family = []" "trace family = []"
  "connections family = []" "userConnections family = []" "activeCalls family = []"
  by (simp_all add: family_def)

lemma alice_pairings:
  "pairings w = [pair_ab, pair_ac] \<Longrightarrow> active_pairings_of alice w = [pair_ab, pair_ac]"
  "partner_of alice pair_ab = bob" "partner_of alice pair_ac = carol"
  by (simp_all add: active_pairings_of_def partner_of_def pair_ab_def pair_ac_def)

lemma alice_profile_found:
  "profiles w = profiles family \<Longrightarrow>
   db_single (env_at t) site (filter (\<lambda>p. profile_id p = alice) (profiles w))
     = Some (profile_of alice ''student'')"
  by (simp add: db_single_def family_def profile_of_def)

lemma alice_visible: "\<not> suppressed (profile_of alice ''student'')"
  by (simp add: suppressed_def profile_of_def)

lemma presence_family_registry:
  "connections presence_family = [(conn_id (conn_of ''presence'' bob), conn_of ''presence'' bob)]"
  "userConnections presence_family = [(bob, [conn_id (conn_of ''presence'' bob)])]"
  by (simp_all add: presence_family_def addConnection_def Let_def map_set_def map_has_def
      map_get_def set_add_def)

lemma presence_family_tables [simp]:
  "pairings presence_family = [pair_ab, pair_ac]" "profiles presence_family = profiles family"
  "presence presence_family = []" "trace presence_family = []"
  by (simp_all add: presence_family_def)

lemma first_connect_registry:
  "connections first_connect =
     [(conn_id (conn_of ''presence'' bob), conn_of ''presence'' bob),
      (conn_id (conn_of ''presence'' alice), conn_of ''presence'' alice)]"
  "userConnections first_connect =
     [(bob, [conn_id (conn_of ''presence'' bob)]), (alice, [conn_id (conn_of ''presence'' alice)])]"
proof -
  have pf: "db_single (env_at 1000) ''notifyPairedPartners.profile''
      (filter (\<lambda>p. profile_id p = userId (conn_of ''presence'' alice))
         (profiles (addConnection (conn_of ''presence'' alice) presence_family)))
      = Some (profile_of alice ''student'')"
    by (simp add: alice_profile_found presence_family_def)
  note n = presenceHandler_notifies(2,3)[OF env_at_fields(2) _ pf alice_visible, simplified]
  show "connections first_connect =
     [(conn_id (conn_of ''presence'' bob), conn_of ''presence'' bob),
      (conn_id (conn_of ''presence'' alice), conn_of ''presence'' alice)]"
    unfolding first_connect_def presence_route_def n(1)
    by (simp add: addConnection_def Let_def map_set_def map_has_def map_get_def set_add_def
        presence_family_registry)
  show "userConnections first_connect =
     [(bob, [conn_id (conn_of ''presence'' bob)]), (alice, [conn_id (conn_of ''presence'' alice)])]"
    unfolding first_connect_def presence_route_def n(2)
    by (simp add: addConnection_def Let_def map_set_def map_has_def map_get_def set_add_def
        presence_family_registry)
qed

lemma first_connect_tables:
  "pairings first_connect = [pair_ab, pair_ac]" "profiles first_connect = profiles family"
  "presence first_connect = [presence_record (env_at 1000) alice ''online'' None]"
  by (simp_all add: first_connect_def presence_route_def presence_family_def
      presenceHandler_presence upsert_presence_def)

lemma bob_listens:
  "connections w = (conn_id (conn_of ''presence'' bob), conn_of ''presence'' bob) # rest \<Longrightarrow>
   userConnections w = (bob, [conn_id (conn_of ''presence'' bob)]) # others \<Longrightarrow>
   getUserConnections w bob = [conn_of ''presence'' bob]"
  by (simp add: getUserConnections_def map_get_def List.map_filter_simps)

lemma carol_absent:
  "map_of (userConnections w) carol = None \<Longrightarrow> getUserConnections w carol = []"
  by (simp add: getUserConnections_def map_get_def List.map_filter_simps)


lemma first_connect_events:
  "filter is_partner_update (new_events presence_family first_connect) =
     [Send (conn_id (conn_of ''presence'' bob))
        (partner_presence_update (env_at 1000) alice ''online'' None) True]"
proof -
  have pf: "db_single (env_at 1000) ''notifyPairedPartners.profile''
      (filter (\<lambda>p. profile_id p = userId (conn_of ''presence'' alice)) (profiles presence_family))
      = Some (profile_of alice ''student'')"
    by (simp add: alice_profile_found)
  have reg: "connections (addConnection (conn_of ''presence'' alice) presence_family) =
      (conn_id (conn_of ''presence'' bob), conn_of ''presence'' bob) #
      [(conn_id (conn_of ''presence'' alice), conn_of ''presence'' alice)]"
    "userConnections (addConnection (conn_of ''presence'' alice) presence_family) =
      (bob, [conn_id (conn_of ''presence'' bob)]) # [(alice, [conn_id (conn_of ''presence'' alice)])]"
    by (simp_all add: addConnection_def Let_def map_set_def map_has_def map_get_def set_add_def
        presence_family_registry)
  have c: "getUserConnections (addConnection (conn_of ''presence'' alice) presence_family) carol = []"
    by (rule carol_absent) (simp add: reg)
  show ?thesis
    unfolding first_connect_def
      presence_route_notifies[OF env_at_fields(2) _ pf alice_visible, simplified]
    by (simp add: alice_pairings bob_listens[OF reg] c)
qed

lemma second_connect_events:
  "filter is_partner_update (new_events first_connect second_connect) =
     [Send (conn_id (conn_of ''presence'' bob))
        (partner_presence_update (env_at 2000) alice ''online'' None) True]"
proof -
  have pf: "db_single (env_at 2000) ''notifyPairedPartners.profile''
      (filter (\<lambda>p. profile_id p = userId (second_conn ''presence'' alice)) (profiles first_connect))
      = Some (profile_of alice ''student'')"
    by (simp add: alice_profile_found first_connect_tables)
  have reg: "connections (addConnection (second_conn ''presence'' alice) first_connect) =
      (conn_id (conn_of ''presence'' bob), conn_of ''presence'' bob) #
      [(conn_id (conn_of ''presence'' alice), conn_of ''presence'' alice),
       (conn_id (second_conn ''presence'' alice), second_conn ''presence'' alice)]"
    "userConnections (addConnection (second_conn ''presence'' alice) first_connect) =
      (bob, [conn_id (conn_of ''presence'' bob)]) #
      [(alice, [conn_id (conn_of ''presence'' alice), conn_id (second_conn ''presence'' alice)])]"
    by (simp_all add: addConnection_def Let_def map_set_def map_has_def map_get_def set_add_def
        first_connect_registry)
  have c: "getUserConnections (addConnection (second_conn ''presence'' alice) first_connect) carol = []"
    by (rule carol_absent) (simp add: reg)
  show ?thesis
    unfolding second_connect_def
      presence_route_notifies[OF env_at_fields(2) _ pf alice_visible, simplified]
    by (simp add: alice_pairings first_connect_tables bob_listens[OF reg] c)
qed

text \<open>
  Claim C2 as stated fails: \<open>presenceHandler\<close> notifies on every connection it is given.
  After the first connect the student holds one connection and is online, and the
  parent has been notified; the second connect notifies the parent again.
\<close>

theorem second_presence_connection_counterexample:
  "getUserConnections first_connect alice = [conn_of ''presence'' alice] \<and>
   map user_id (presence first_connect) = [alice] \<and>
   map presence_status (presence first_connect) = [''online''] \<and>
   filter is_partner_update (new_events presence_family first_connect) =
     [Send (conn_id (conn_of ''presence'' bob))
        (partner_presence_update (env_at 1000) alice ''online'' None) True] \<and>
   filter is_partner_update (new_events first_connect second_connect) =
     [Send (conn_id (conn_of ''presence'' bob))
        (partner_presence_update (env_at 2000) alice ''online'' None) True]"
proof -
  have "getUserConnections first_connect alice = [conn_of ''presence'' alice]"
    by (simp add: getUserConnections_def first_connect_registry map_get_def List.map_filter_simps)
  then show ?thesis
    using first_connect_events second_connect_events
    by (simp add: first_connect_tables presence_record_def)
qed

text \<open>The theorem of claim C2 at the second connect of the student: the row is written
  again, the parent is notified again.\<close>

theorem every_presence_connect_notifies_witness:
  "db_single (env_at 2000) ''notifyPairedPartners.profile''
      (filter (\<lambda>p. profile_id p = userId (second_conn ''presence'' alice)) (profiles first_connect))
      = Some (profile_of alice ''student'') \<and>
   filter is_partner_update (new_events first_connect second_connect) =
     concat (map (\<lambda>p. map (\<lambda>c. Send (conn_id c)
                                 (partner_presence_update (env_at 2000) alice ''online'' None) True)
                          (getUserConnections (addConnection (second_conn ''presence'' alice) first_connect)
                             (partner_of alice p)))
                 [pair_ab, pair_ac]) \<and>
   hd (new_events first_connect second_connect) = presence_written (env_at 2000) alice ''online'' None \<and>
   presence second_connect = [presence_record (env_at 2000) alice ''online'' None]"
proof -
  have pf: "db_single (env_at 2000) ''notifyPairedPartners.profile''
      (filter (\<lambda>p. profile_id p = userId (second_conn ''presence'' alice)) (profiles first_connect))
      = Some (profile_of alice ''student'')"
    by (simp add: alice_profile_found first_connect_tables)
  have rd: "\<not> read_fails (env_at 2000) ''notifyPairedPartners.pairings''" by simp
  from every_presence_connect_notifies[OF env_at_fields(2) rd pf alice_visible] pf
  show ?thesis
    by (simp add: second_connect_def alice_pairings first_connect_tables upsert_presence_def
        presence_record_def)
qed


text \<open>The student has set \<open>visible_to_partner\<close> to false; the parent is connected.\<close>

definition hidden_alice :: profile where
  "hidden_alice = (profile_of alice ''student'')\<lparr>visible_to_partner := False\<rparr>"

definition hidden_family :: world where
  "hidden_family =
     (addConnection (conn_of ''presence'' alice) presence_family)
       \<lparr>profiles := [hidden_alice, profile_of bob ''parent'', profile_of carol ''parent'']\<rparr>"

definition away_heartbeat :: ws_message where
  "away_heartbeat =
    \<lparr>m_id = ''0b0b0b0b-0000-4000-8000-00000000000b'', m_type = ''heartbeat'',
     m_namespace = ''presence'', m_data = HeartbeatMsg (Some ''away''), m_timestamp = 0,
     m_userId = None\<rparr>"

lemma hidden_family_facts:
  "filter (\<lambda>p. profile_id p = userId (conn_of ''presence'' alice)) (profiles hidden_family)
     = [hidden_alice]"
  "suppressed hidden_alice"
  "PresenceHeartbeatMessageSchema (env_at 3000) away_heartbeat = Some (Some ''away'')"
  "getUserConnections hidden_family bob = [conn_of ''presence'' bob]"
  "getUserConnections (removeConnection (conn_id (conn_of ''presence'' alice)) hidden_family)
     (userId (conn_of ''presence'' alice)) = []"
proof -
  show "filter (\<lambda>p. profile_id p = userId (conn_of ''presence'' alice)) (profiles hidden_family)
     = [hidden_alice]"
    by (simp add: hidden_family_def hidden_alice_def profile_of_def)
  show "suppressed hidden_alice"
    by (simp add: suppressed_def hidden_alice_def profile_of_def)
  show "PresenceHeartbeatMessageSchema (env_at 3000) away_heartbeat = Some (Some ''away'')"
    by (simp add: PresenceHeartbeatMessageSchema_def WSMessageSchema_def away_heartbeat_def
        uuid_shape_def)
  have reg: "connections hidden_family =
      (conn_id (conn_of ''presence'' bob), conn_of ''presence'' bob) #
      [(conn_id (conn_of ''presence'' alice), conn_of ''presence'' alice)]"
    "userConnections hidden_family =
      (bob, [conn_id (conn_of ''presence'' bob)]) # [(alice, [conn_id (conn_of ''presence'' alice)])]"
    by (simp_all add: hidden_family_def addConnection_def Let_def map_set_def map_has_def
        map_get_def set_add_def presence_family_registry)
  show "getUserConnections hidden_family bob = [conn_of ''presence'' bob]"
    by (rule bob_listens[OF reg])
  show "getUserConnections (removeConnection (conn_id (conn_of ''presence'' alice)) hidden_family)
     (userId (conn_of ''presence'' alice)) = []"
    by (simp add: getUserConnections_def removeConnection_def reg map_get_def map_delete_def
        map_set_def set_delete_def Let_def List.map_filter_simps)
qed

text \<open>Claim C8 at concrete inputs: the hidden student connects, sends a heartbeat with
  status \<open>away\<close>, and closes the only connection. The presence row is written each
  time, and the connected parent is never notified.\<close>

theorem suppressed_presence_not_notified_witness:
  "getUserConnections hidden_family bob = [conn_of ''presence'' bob] \<and>
   \<not> list_ex is_partner_update
       (new_events hidden_family (presenceHandler (env_at 1000) (conn_of ''presence'' alice) hidden_family)) \<and>
   presence_written (env_at 1000) alice ''online'' None
     \<in> set (new_events hidden_family
              (presenceHandler (env_at 1000) (conn_of ''presence'' alice) hidden_family)) \<and>
   \<not> list_ex is_partner_update
       (new_events hidden_family
          (handleHeartbeat (env_at 3000) (conn_of ''presence'' alice) away_heartbeat hidden_family)) \<and>
   presence_written (env_at 3000) alice ''away'' None
     \<in> set (new_events hidden_family
              (handleHeartbeat (env_at 3000) (conn_of ''presence'' alice) away_heartbeat hidden_family)) \<and>
   presence_written (env_at 9000) alice ''offline'' None
     \<in> set (new_events hidden_family
              (presence_on_close (env_at 9000) (conn_of ''presence'' alice) hidden_family))"
proof -
  note a = suppressed_presence_not_notified[OF hidden_family_facts(1) hidden_family_facts(2),
      of "env_at 1000" away_heartbeat, unfolded sample_users]
  note b = suppressed_presence_not_notified[OF hidden_family_facts(1) hidden_family_facts(2),
      of "env_at 3000" away_heartbeat, unfolded sample_users]
  note c = suppressed_presence_not_notified[OF hidden_family_facts(1) hidden_family_facts(2),
      of "env_at 9000" away_heartbeat, unfolded sample_users]
  from a have 1: "\<not> list_ex is_partner_update
       (new_events hidden_family (presenceHandler (env_at 1000) (conn_of ''presence'' alice) hidden_family))"
    "presence_written (env_at 1000) alice ''online'' None
     \<in> set (new_events hidden_family
              (presenceHandler (env_at 1000) (conn_of ''presence'' alice) hidden_family))"
    by blast+
  from b hidden_family_facts(3) have 2: "\<not> list_ex is_partner_update
       (new_events hidden_family
          (handleHeartbeat (env_at 3000) (conn_of ''presence'' alice) away_heartbeat hidden_family))"
    "presence_written (env_at 3000) alice ''away'' None
     \<in> set (new_events hidden_family
              (handleHeartbeat (env_at 3000) (conn_of ''presence'' alice) away_heartbeat hidden_family))"
    by blast+
  from c hidden_family_facts(5)[unfolded sample_users] have 3:
    "presence_written (env_at 9000) alice ''offline'' None
     \<in> set (new_events hidden_family
              (presence_on_close (env_at 9000) (conn_of ''presence'' alice) hidden_family))"
    by blast
  from 1 2 3 hidden_family_facts(4) show ?thesis by blast
qed


section \<open>The stale-connection sweep\<close>

lemma connections_removeConnection:
  "connections (removeConnection i w) = map_delete (connections w) i"
proof (cases "map_of (connections w) i")
  case None
  then have "i \<notin> fst ` set (connections w)" by (simp add: map_of_eq_None_iff)
  then show ?thesis using None by (simp add: removeConnection_def map_get_def map_delete_def)
next
  case (Some c)
  then show ?thesis
    by (simp add: removeConnection_def map_get_def Let_def split: option.splits)
qed

lemma connections_fold_remove:
  "connections (fold removeConnection ids w) = filter (\<lambda>(k, c). k \<notin> set ids) (connections w)"
proof (induction ids arbitrary: w)
  case Nil
  then show ?case by simp
next
  case (Cons i ids)
  show ?case
    by (auto simp add: Cons.IH connections_removeConnection map_delete_def AList.delete_eq
        case_prod_unfold intro!: filter_cong)
qed

lemma stale_ids:
  assumes "distinct (map fst cs)" and "(k, c) \<in> set cs"
  shows "k \<in> set (map fst (filter (\<lambda>(i, conn). P conn) cs)) \<longleftrightarrow> P c"
proof
  assume "k \<in> set (map fst (filter (\<lambda>(i, conn). P conn) cs))"
  then obtain c' where c': "(k, c') \<in> set cs" "P c'" by auto
  from assms c'(1) have "c' = c" by (meson eq_key_imp_eq_value)
  with c'(2) show "P c" by simp
next
  assume "P c"
  with assms(2) show "k \<in> set (map fst (filter (\<lambda>(i, conn). P conn) cs))"
    by (force simp: image_iff)
qed

lemma connections_sweep:
  assumes "distinct (map fst (connections w))"
  shows "connections (sweep t w) =
           filter (\<lambda>(i, conn). t - lastHeartbeat conn \<le> 60000) (connections w)"
proof -
  have "filter (\<lambda>(k, c). k \<notin> set (staleConnections t w)) (connections w) =
        filter (\<lambda>(i, conn). t - lastHeartbeat conn \<le> 60000) (connections w)"
  proof (rule filter_cong[OF refl])
    fix x assume x: "x \<in> set (connections w)"
    obtain k c where kc: "x = (k, c)" by (cases x)
    from stale_ids[OF assms x[unfolded kc], of "\<lambda>conn. t - lastHeartbeat conn > 60000"]
    show "(case x of (k, c) \<Rightarrow> k \<notin> set (staleConnections t w)) =
          (case x of (i, conn) \<Rightarrow> t - lastHeartbeat conn \<le> 60000)"
      by (auto simp: kc staleConnections_def)
  qed
  then show ?thesis by (simp add: sweep_def connections_fold_remove)
qed

lemma sweep_frame [simp]:
  "activeCalls (sweep t w) = activeCalls w"
  "timers (sweep t w) = timers w"
  "profiles (sweep t w) = profiles w"
  "pairings (sweep t w) = pairings w"
  "presence (sweep t w) = presence w"
  "trace (sweep t w) = trace w"
  unfolding sweep_def by (rule fold_frame, simp)+

lemma registry_reachable_sweep: "registry_reachable w \<Longrightarrow> registry_reachable (sweep t w)"
  unfolding sweep_def
  by (rule fold_inv[where P = registry_reachable]) (simp_all add: registry_reachable.remove)

text \<open>
  Claim C6, as amended. The sweep, run every 30000 milliseconds, removes from the
  registry exactly the connections whose last heartbeat is more than 60000 milliseconds
  old, from both indexes, and does nothing else: the active calls, the timers, the
  presence rows and the trace are as before. It does not run the cleanup of a close
  callback (no presence row is set offline, no partner is notified, no call is ended).
\<close>

theorem sweep_only_unregisters:
  assumes "registry_reachable w"
  shows "connections (sweep t w) =
           filter (\<lambda>(i, conn). t - lastHeartbeat conn \<le> 60000) (connections w) \<and>
         set (indexed_ids (sweep t w) u) =
           {i. \<exists>c. map_get (connections (sweep t w)) i = Some c \<and> userId c = u} \<and>
         activeCalls (sweep t w) = activeCalls w \<and> timers (sweep t w) = timers w \<and>
         presence (sweep t w) = presence w \<and> trace (sweep t w) = trace w \<and>
         SWEEP_INTERVAL = 30000"
proof -
  have d: "distinct (map fst (connections w))"
    using registry_reachable_inv[OF assms] by (simp add: registry_inv_def)
  have inv: "registry_inv (sweep t w)"
    using registry_inv_sweep[OF registry_reachable_inv[OF assms]] .
  show ?thesis
    using connections_sweep[OF d, of t] registry_inv_indexed(1)[OF inv, of u]
    by (simp add: SWEEP_INTERVAL_def)
qed


text \<open>Both the parent and the student hold a presence connection registered at time 0;
  the student's heartbeat is refreshed at 90000.\<close>

definition refreshed_family :: world where
  "refreshed_family =
     updateHeartbeat (env_at 90000) (conn_of ''presence'' alice)
       (addConnection (conn_of ''presence'' alice) presence_family)"

lemma refreshed_family_registry:
  "connections refreshed_family =
     [(conn_id (conn_of ''presence'' bob), conn_of ''presence'' bob),
      (conn_id (conn_of ''presence'' alice), (conn_of ''presence'' alice)\<lparr>lastHeartbeat := 90000\<rparr>)]"
  by (simp add: refreshed_family_def updateHeartbeat_def addConnection_def Let_def map_set_def
      map_has_def map_get_def set_add_def presence_family_registry)

lemma refreshed_family_reachable: "registry_reachable refreshed_family"
  unfolding refreshed_family_def presence_family_def
  by (intro registry_reachable.heartbeat registry_reachable.add registry_reachable.start)
     (simp_all add: add_ok_def map_get_def addConnection_def Let_def map_set_def map_has_def
       set_add_def)

text \<open>Claim C6, as amended, at a concrete state: the sweep at 100000 removes the
  connection of the parent and keeps that of the student.\<close>

theorem sweep_only_unregisters_witness:
  "registry_reachable refreshed_family \<and>
   connections (sweep 100000 refreshed_family) =
     [(conn_id (conn_of ''presence'' alice), (conn_of ''presence'' alice)\<lparr>lastHeartbeat := 90000\<rparr>)] \<and>
   set (indexed_ids (sweep 100000 refreshed_family) bob) = {} \<and>
   trace (sweep 100000 refreshed_family) = trace refreshed_family"
proof -
  from sweep_only_unregisters[OF refreshed_family_reachable, of 100000 bob]
  have c: "connections (sweep 100000 refreshed_family) =
           filter (\<lambda>(i, conn). 100000 - lastHeartbeat conn \<le> 60000) (connections refreshed_family)"
    and i: "set (indexed_ids (sweep 100000 refreshed_family) bob) =
           {i. \<exists>c. map_get (connections (sweep 100000 refreshed_family)) i = Some c \<and> userId c = bob}"
    and t: "trace (sweep 100000 refreshed_family) = trace refreshed_family"
    by blast+
  have c': "connections (sweep 100000 refreshed_family) =
     [(conn_id (conn_of ''presence'' alice), (conn_of ''presence'' alice)\<lparr>lastHeartbeat := 90000\<rparr>)]"
    unfolding c by (simp add: refreshed_family_registry) (simp add: conn_of_def)
  have "set (indexed_ids (sweep 100000 refreshed_family) bob) = {}"
    unfolding i c' by (auto simp: map_get_def split: if_splits)
  with c' t refreshed_family_reachable show ?thesis by blast
qed

text \<open>After the first connect the student opens a signaling connection and offers a
  call to the first parent at time 1000.\<close>

definition ringing_family :: world where
  "ringing_family =
     handleCallOffer (env_at 1000) (conn_of ''signaling'' alice)
       (offer_msg call1 pair_ab alice bob)
       (addConnection (conn_of ''signaling'' alice) first_connect)"

lemma handleCallOffer_registry:
  assumes "send_throws en = (\<lambda>c. False)"
  shows "connections (handleCallOffer en connection m w) = connections w"
    and "userConnections (handleCallOffer en connection m w) = userConnections w"
  using assms broadcastToUser_registry[OF assms]
  by (auto simp: handleCallOffer_def Let_def split: option.splits prod.splits)

lemma db_write_presence [simp]:
  "presence (db_write en (InsertCall r) w) = presence w"
  "presence (db_write en (UpdateCallStatus a b) w) = presence w"
  "presence (db_write en (UpdateCallConnected a t) w) = presence w"
  "presence (db_write en (UpdateCallEnded a t d r') w) = presence w"
  "presence (db_write en (InsertMessage mr) w) = presence w"
  by (simp_all add: db_write_def apply_write_def)

lemma handleCallOffer_presence [simp]:
  "presence (handleCallOffer en connection m w) = presence w"
  by (simp add: handleCallOffer_def Let_def split: option.splits prod.splits)

lemma updateHeartbeat_frame [simp]:
  "activeCalls (updateHeartbeat en c w) = activeCalls w"
  "timers (updateHeartbeat en c w) = timers w"
  "userConnections (updateHeartbeat en c w) = userConnections w"
  "profiles (updateHeartbeat en c w) = profiles w"
  "pairings (updateHeartbeat en c w) = pairings w"
  "presence (updateHeartbeat en c w) = presence w"
  "trace (updateHeartbeat en c w) = trace w"
  by (simp_all add: updateHeartbeat_def split: option.splits)

lemma first_connect_calls [simp]: "activeCalls first_connect = []"
  by (simp add: first_connect_def presence_route_def presence_family_def)

lemma signaling_ids_distinct [simp]:
  "conn_id (conn_of ''signaling'' alice) \<noteq> conn_id (conn_of ''presence'' bob)"
  "conn_id (conn_of ''signaling'' alice) \<noteq> conn_id (conn_of ''presence'' alice)"
  "conn_id (conn_of ''presence'' bob) \<noteq> conn_id (conn_of ''signaling'' alice)"
  "conn_id (conn_of ''presence'' alice) \<noteq> conn_id (conn_of ''signaling'' alice)"
  by (simp_all add: conn_of_def)

lemma ringing_family_facts:
  "activeCalls ringing_family = [(call1, session call1 pair_ab 1000)]"
  "connections ringing_family =
     [(conn_id (conn_of ''presence'' bob), conn_of ''presence'' bob),
      (conn_id (conn_of ''presence'' alice), conn_of ''presence'' alice),
      (conn_id (conn_of ''signaling'' alice), conn_of ''signaling'' alice)]"
  "presence ringing_family = presence first_connect"
proof -
  let ?w = "addConnection (conn_of ''signaling'' alice) first_connect"
  have p: "pairings ?w = [pair_ab, pair_ac]" by (simp add: first_connect_tables)
  have f: "find (in_call (parent_id pair_ab)) (map_values (activeCalls ?w)) = None"
    by (simp add: map_values_def)
  have b: "parent_id pair_ab = bob" by (simp add: pair_ab_def)
  have pp: "pair_ab = pair_ab \<or> pair_ab = pair_ac" by simp
  note acc = alice_offer_accepted[OF p pp uuid_shapes(4) f, of 1000, unfolded b]
  show "activeCalls ringing_family = [(call1, session call1 pair_ab 1000)]"
    unfolding ringing_family_def acc by (simp add: map_set_def session_def b)
  show "connections ringing_family =
     [(conn_id (conn_of ''presence'' bob), conn_of ''presence'' bob),
      (conn_id (conn_of ''presence'' alice), conn_of ''presence'' alice),
      (conn_id (conn_of ''signaling'' alice), conn_of ''signaling'' alice)]"
    unfolding ringing_family_def handleCallOffer_registry(1)[OF env_at_fields(2)]
    by (simp add: addConnection_def Let_def map_set_def map_has_def
        map_get_def set_add_def first_connect_registry)
  show "presence ringing_family = presence first_connect"
    by (simp add: ringing_family_def)
qed

lemma presence_on_close_presence:
  "getUserConnections (removeConnection (conn_id c) w) (userId c) = [] \<Longrightarrow>
   \<not> write_fails en (UpsertPresence (presence_record en (userId c) ''offline'' None)) \<Longrightarrow>
   presence (presence_on_close en c w) =
     upsert_presence (presence_record en (userId c) ''offline'' None) (presence w)"
  by (simp add: presence_on_close_def Let_def updateUserPresence_def db_write_def apply_write_def
      presence_record_def)

text \<open>
  Claim C6 as stated fails in its second half: the sweep calls \<open>removeConnection\<close> and
  nothing else. At time 100000 every connection is stale. The sweep unregisters them
  and leaves the student's ringing call in the map, where the close callback of the
  signaling channel ends it; and it leaves the student's presence row online and the
  trace unchanged, where the close callback of the presence channel sets the row
  offline.
\<close>

theorem sweep_skips_cleanup_counterexample:
  "connections (sweep 100000 ringing_family) = [] \<and>
   activeCalls (sweep 100000 ringing_family) = [(call1, session call1 pair_ab 1000)] \<and>
   activeCalls (signaling_on_close (env_at 100000) (conn_of ''signaling'' alice) ringing_family) = [] \<and>
   connections (sweep 100000 first_connect) = [] \<and>
   map presence_status (presence (sweep 100000 first_connect)) = [''online''] \<and>
   trace (sweep 100000 first_connect) = trace first_connect \<and>
   map presence_status
     (presence (presence_on_close (env_at 100000) (conn_of ''presence'' alice) first_connect))
     = [''offline'']"
proof -
  have d1: "distinct (map fst (connections ringing_family))"
    by (simp add: ringing_family_facts)
  have d2: "distinct (map fst (connections first_connect))"
    by (simp add: first_connect_registry)
  have 1: "connections (sweep 100000 ringing_family) = []"
    unfolding connections_sweep[OF d1] by (simp add: ringing_family_facts conn_of_def)
  have 2: "activeCalls (sweep 100000 ringing_family) = [(call1, session call1 pair_ab 1000)]"
    by (simp add: ringing_family_facts)
  have 3: "activeCalls (signaling_on_close (env_at 100000) (conn_of ''signaling'' alice) ringing_family) = []"
    by (simp add: signaling_on_close_def endUserCalls_def Let_def ringing_family_facts
        map_values_def in_call_def session_def map_delete_def)
  have 4: "connections (sweep 100000 first_connect) = []"
    unfolding connections_sweep[OF d2] by (simp add: first_connect_registry conn_of_def)
  have 5: "map presence_status (presence (sweep 100000 first_connect)) = [''online'']"
    by (simp add: first_connect_tables presence_record_def)
  have g: "getUserConnections (removeConnection (conn_id (conn_of ''presence'' alice)) first_connect)
             (userId (conn_of ''presence'' alice)) = []"
    by (simp add: getUserConnections_def removeConnection_def first_connect_registry map_get_def
        map_delete_def map_set_def set_delete_def Let_def List.map_filter_simps)
  have 7: "map presence_status
     (presence (presence_on_close (env_at 100000) (conn_of ''presence'' alice) first_connect))
     = [''offline'']"
    unfolding presence_on_close_presence[OF g, of "env_at 100000", simplified]
    by (simp add: first_connect_tables upsert_presence_def presence_record_def)
  from 1 2 3 4 5 7 show ?thesis by simp
qed


section \<open>A call id offered again\<close>

text \<open>The student and the first parent hold a signaling connection. The student
  offers a call at time 1000 and hangs up at 5000; at 20000 the student offers a call
  again, under the same call id. In other runs the parent answers the first call at
  3000, and the student offers a call to the second parent, under another id, after the
  hangup.\<close>

definition signaling_family :: world where
  "signaling_family =
     addConnection (conn_of ''signaling'' bob) (addConnection (conn_of ''signaling'' alice) family)"

definition first_ring :: world where
  "first_ring =
     handleCallOffer (env_at 1000) (conn_of ''signaling'' alice) (offer_msg call1 pair_ab alice bob)
       signaling_family"

definition hung_up :: world where
  "hung_up =
     handleCallHangup (env_at 5000) (conn_of ''signaling'' alice) (hangup_msg call1 pair_ab alice bob)
       first_ring"

definition second_ring :: world where
  "second_ring =
     handleCallOffer (env_at 20000) (conn_of ''signaling'' alice) (offer_msg call1 pair_ab alice bob)
       hung_up"

definition answer_msg :: "string \<Rightarrow> pairing \<Rightarrow> string \<Rightarrow> string \<Rightarrow> ws_message" where
  "answer_msg cid p from to =
    \<lparr>m_id = ''0f0f0f0f-0000-4000-8000-00000000000f'', m_type = ''call_answer'',
     m_namespace = ''signaling'',
     m_data = CallAnswerMsg \<lparr>callId = cid, sd_pairingId = pairing_id p, sd_senderId = from,
                sd_targetId = to\<rparr> ''answer'' ''v=0'',
     m_timestamp = 0, m_userId = None\<rparr>"

definition answered :: world where
  "answered =
     handleCallAnswer (env_at 3000) (conn_of ''signaling'' bob) (answer_msg call1 pair_ab bob alice)
       first_ring"

definition rung_carol :: world where
  "rung_carol =
     handleCallOffer (env_at 6000) (conn_of ''signaling'' alice) (offer_msg call2 pair_ac alice carol)
       hung_up"

text \<open>What \<open>endCall\<close> adds to the trace when no send throws: the write, then the
  \<open>call_ended\<close> envelope on every connection of the caller and of the callee.\<close>

lemma endCall_frame [simp]:
  "timers (endCall en cid reason w) = timers w"
  "pairings (endCall en cid reason w) = pairings w"
  "profiles (endCall en cid reason w) = profiles w"
  by (simp_all add: endCall_def Let_def split: option.splits)

lemma endCall_registry:
  assumes "send_throws en = (\<lambda>c. False)"
  shows "connections (endCall en cid reason w) = connections w"
    and "userConnections (endCall en cid reason w) = userConnections w"
  using broadcastToUser_registry[OF assms]
  by (simp_all add: endCall_def Let_def split: option.splits)

lemma endCall_events:
  assumes nt: "send_throws en = (\<lambda>c. False)"
    and c: "map_get (activeCalls w) cid = Some c"
  shows "new_events w (endCall en cid reason w) =
           DbWrite (UpdateCallEnded (call_id c) (now en) (call_duration c (now en)) reason)
             (\<not> write_fails en (UpdateCallEnded (call_id c) (now en) (call_duration c (now en)) reason)) #
           map (\<lambda>k. Send (conn_id k) (call_ended en (call_id c) reason (call_duration c (now en))) True)
             (getUserConnections w (callerId c)) @
           map (\<lambda>k. Send (conn_id k) (call_ended en (call_id c) reason (call_duration c (now en))) True)
             (getUserConnections w (calleeId c))"
proof -
  define call where "call = c\<lparr>status := Ended, endedAt := Some (now en)\<rparr>"
  define msg where "msg = call_ended en (call_id c) reason (call_duration c (now en))"
  define w2 where "w2 = db_write en (UpdateCallEnded (call_id c) (now en) (call_duration c (now en)) reason)
                          (w\<lparr>activeCalls := map_set (activeCalls w) cid call\<rparr>)"
  define w3 where "w3 = broadcastToUser en (callerId c) msg None w2"
  define w4 where "w4 = broadcastToUser en (calleeId c) msg None w3"
  have dur: "call_duration call (now en) = call_duration c (now en)"
    by (simp add: call_def call_duration_def)
  have res: "endCall en cid reason w = w4\<lparr>activeCalls := map_delete (activeCalls w4) cid\<rparr>"
    using c unfolding endCall_def Let_def w4_def w3_def w2_def msg_def
    by (simp add: dur[unfolded call_def] call_def)
  have g2: "getUserConnections w2 q = getUserConnections w q" for q
    by (rule getUserConnections_cong) (simp_all add: w2_def)
  have g3: "getUserConnections w3 q = getUserConnections w q" for q
    unfolding g2[symmetric]
    by (rule getUserConnections_cong) (simp_all add: w3_def broadcastToUser_registry[OF nt])
  have t2: "trace w2 = trace w @ [DbWrite (UpdateCallEnded (call_id c) (now en) (call_duration c (now en)) reason)
                       (\<not> write_fails en (UpdateCallEnded (call_id c) (now en) (call_duration c (now en)) reason))]"
    by (simp add: w2_def)
  have t3: "trace w3 = trace w2 @ map (\<lambda>k. Send (conn_id k) msg True) (getUserConnections w (callerId c))"
    by (simp add: w3_def broadcastToUser_trace_exact nt g2)
  have t4: "trace w4 = trace w3 @ map (\<lambda>k. Send (conn_id k) msg True) (getUserConnections w (calleeId c))"
    by (simp add: w4_def broadcastToUser_trace_exact nt g3)
  show ?thesis
    by (rule new_events_append) (simp add: res t4 t3 t2 msg_def)
qed

lemma signaling_ids [simp]:
  "conn_id (conn_of ''signaling'' alice) \<noteq> conn_id (conn_of ''signaling'' bob)"
  "conn_id (conn_of ''signaling'' bob) \<noteq> conn_id (conn_of ''signaling'' alice)"
  by (simp_all add: conn_of_def alice_def bob_def)

lemma signaling_family_facts:
  "connections signaling_family =
     [(conn_id (conn_of ''signaling'' alice), conn_of ''signaling'' alice),
      (conn_id (conn_of ''signaling'' bob), conn_of ''signaling'' bob)]"
  "userConnections signaling_family =
     [(alice, [conn_id (conn_of ''signaling'' alice)]), (bob, [conn_id (conn_of ''signaling'' bob)])]"
  "activeCalls signaling_family = []" "timers signaling_family = []"
  "pairings signaling_family = [pair_ab, pair_ac]" "trace signaling_family = []"
  by (simp_all add: signaling_family_def addConnection_def Let_def map_set_def map_has_def
      map_get_def set_add_def family_def)

lemma callers_listen:
  assumes "connections w = connections signaling_family"
    and "userConnections w = userConnections signaling_family"
  shows "getUserConnections w alice = [conn_of ''signaling'' alice]"
    and "getUserConnections w bob = [conn_of ''signaling'' bob]"
  using assms
  by (simp_all add: getUserConnections_def signaling_family_facts map_get_def List.map_filter_simps)

lemma parent_ab [simp]: "parent_id pair_ab = bob" "parent_id pair_ac = carol"
  by (simp_all add: pair_ab_def pair_ac_def)

lemma alice_rings:
  assumes w: "pairings w = [pair_ab, pair_ac]" and p: "p = pair_ab \<or> p = pair_ac"
    and cid: "uuid_shape cid"
    and free: "find (in_call (parent_id p)) (map_values (activeCalls w)) = None"
  shows "activeCalls (handleCallOffer (env_at t) (conn_of ''signaling'' alice)
                        (offer_msg cid p alice (parent_id p)) w) =
           map_set (activeCalls w) cid (session cid p t)"
    and "timers (handleCallOffer (env_at t) (conn_of ''signaling'' alice)
                        (offer_msg cid p alice (parent_id p)) w) = timers w @ [(t + 30000, cid)]"
proof -
  note c = alice_offer_conditions[OF w p cid free]
  show "activeCalls (handleCallOffer (env_at t) (conn_of ''signaling'' alice)
                        (offer_msg cid p alice (parent_id p)) w) =
           map_set (activeCalls w) cid (session cid p t)"
    using alice_offer_accepted[OF w p cid free, of t] by (simp add: session_def)
  show "timers (handleCallOffer (env_at t) (conn_of ''signaling'' alice)
                        (offer_msg cid p alice (parent_id p)) w) = timers w @ [(t + 30000, cid)]"
    using handleCallOffer_accepted(2)[OF c(1)[of t] c(2)[of t] c(3) c(4)] c(5)[of t]
    by (simp add: RING_TIMEOUT_def alice_offer_data_def)
qed

lemma first_ring_facts:
  "activeCalls first_ring = [(call1, session call1 pair_ab 1000)]"
  "timers first_ring = [(31000, call1)]"
  "connections first_ring = connections signaling_family"
  "userConnections first_ring = userConnections signaling_family"
  "pairings first_ring = [pair_ab, pair_ac]"
proof -
  have p: "pairings signaling_family = [pair_ab, pair_ac]" by (simp add: signaling_family_facts)
  have f: "find (in_call (parent_id pair_ab)) (map_values (activeCalls signaling_family)) = None"
    by (simp add: signaling_family_facts map_values_def)
  note r = alice_rings[OF p _ uuid_shapes(4) f, of 1000, simplified]
  show "activeCalls first_ring = [(call1, session call1 pair_ab 1000)]"
    unfolding first_ring_def r(1) by (simp add: signaling_family_facts map_set_def)
  show "timers first_ring = [(31000, call1)]"
    unfolding first_ring_def r(2) by (simp add: signaling_family_facts)
  show "connections first_ring = connections signaling_family"
    unfolding first_ring_def by (rule handleCallOffer_registry(1)) simp
  show "userConnections first_ring = userConnections signaling_family"
    unfolding first_ring_def by (rule handleCallOffer_registry(2)) simp
  show "pairings first_ring = [pair_ab, pair_ac]"
    by (simp add: first_ring_def p)
qed

lemma hung_up_is_endCall:
  "hung_up = endCall (env_at 5000) call1 ''hangup'' first_ring"
  by (simp add: hung_up_def handleCallHangup_def sample_hangup_parses)

lemma hung_up_facts:
  "activeCalls hung_up = []"
  "timers hung_up = [(31000, call1)]"
  "connections hung_up = connections signaling_family"
  "userConnections hung_up = userConnections signaling_family"
  "pairings hung_up = [pair_ab, pair_ac]"
  unfolding hung_up_is_endCall
  by (simp_all add: first_ring_facts map_delete_def endCall_registry)

lemma second_ring_facts:
  "activeCalls second_ring = [(call1, session call1 pair_ab 20000)]"
  "timers second_ring = [(31000, call1), (50000, call1)]"
  "connections second_ring = connections signaling_family"
  "userConnections second_ring = userConnections signaling_family"
proof -
  have f: "find (in_call (parent_id pair_ab)) (map_values (activeCalls hung_up)) = None"
    by (simp add: hung_up_facts map_values_def)
  note r = alice_rings[OF hung_up_facts(5) _ uuid_shapes(4) f, of 20000, simplified]
  show "activeCalls second_ring = [(call1, session call1 pair_ab 20000)]"
    unfolding second_ring_def r(1) by (simp add: hung_up_facts map_set_def)
  show "timers second_ring = [(31000, call1), (50000, call1)]"
    unfolding second_ring_def r(2) by (simp add: hung_up_facts)
  show "connections second_ring = connections signaling_family"
    unfolding second_ring_def hung_up_facts(3)[symmetric]
    by (rule handleCallOffer_registry(1)) simp
  show "userConnections second_ring = userConnections signaling_family"
    unfolding second_ring_def hung_up_facts(4)[symmetric]
    by (rule handleCallOffer_registry(2)) simp
qed

text \<open>
  Claim C5 as stated fails in its second half: the task holds the call id only. The
  first session, offered at 1000, is hung up at 5000 and its task stays scheduled for
  31000. The second session, offered at 20000 under the same id, rings when that task
  runs: the task of the session that was hung up is not a no-op, it ends the second
  session after 11 seconds and sends \<open>call_ended\<close> to both users.
\<close>

theorem stale_timeout_ends_new_session_counterexample:
  "map_get (activeCalls first_ring) call1 = Some (session call1 pair_ab 1000) \<and>
   timers first_ring = [(31000, call1)] \<and>
   map_get (activeCalls hung_up) call1 = None \<and>
   timers hung_up = [(31000, call1)] \<and>
   activeCalls second_ring = [(call1, session call1 pair_ab 20000)] \<and>
   timers second_ring = [(31000, call1), (50000, call1)] \<and>
   activeCalls (fire_timer (env_at 31000) (31000, call1) second_ring) = [] \<and>
   new_events second_ring (fire_timer (env_at 31000) (31000, call1) second_ring) =
     [DbWrite (UpdateCallEnded call1 31000 0 ''timeout'') True,
      Send (conn_id (conn_of ''signaling'' alice)) (call_ended (env_at 31000) call1 ''timeout'' 0) True,
      Send (conn_id (conn_of ''signaling'' bob)) (call_ended (env_at 31000) call1 ''timeout'' 0) True]"
proof -
  let ?w = "second_ring\<lparr>timers := remove1 (31000, call1) (timers second_ring)\<rparr>"
  have fire: "fire_timer (env_at 31000) (31000, call1) second_ring =
              endCall (env_at 31000) call1 ''timeout'' ?w"
    by (simp add: fire_timer_def ringing_timeout_def second_ring_facts map_get_def session_def)
  have g: "map_get (activeCalls ?w) call1 = Some (session call1 pair_ab 20000)"
    by (simp add: second_ring_facts map_get_def)
  have l: "getUserConnections ?w alice = [conn_of ''signaling'' alice]"
    "getUserConnections ?w bob = [conn_of ''signaling'' bob]"
    by (rule callers_listen; simp add: second_ring_facts)+
  have ne: "new_events second_ring (endCall (env_at 31000) call1 ''timeout'' ?w) =
            new_events ?w (endCall (env_at 31000) call1 ''timeout'' ?w)"
    by (simp add: new_events_def)
  have 1: "activeCalls (fire_timer (env_at 31000) (31000, call1) second_ring) = []"
    unfolding fire by (simp add: second_ring_facts map_delete_def)
  have 2: "new_events second_ring (fire_timer (env_at 31000) (31000, call1) second_ring) =
     [DbWrite (UpdateCallEnded call1 31000 0 ''timeout'') True,
      Send (conn_id (conn_of ''signaling'' alice)) (call_ended (env_at 31000) call1 ''timeout'' 0) True,
      Send (conn_id (conn_of ''signaling'' bob)) (call_ended (env_at 31000) call1 ''timeout'' 0) True]"
    unfolding fire ne endCall_events[OF env_at_fields(2) g]
    by (simp add: session_def call_duration_def l[unfolded session_def] )
  show ?thesis
    using 1 2 by (simp add: first_ring_facts hung_up_facts second_ring_facts map_get_def)
qed

lemma sample_answer_parses:
  "CallAnswerMessageSchema (env_at t) (answer_msg call1 pair_ab bob alice) =
     Some (\<lparr>callId = call1, sd_pairingId = pairing_id pair_ab, sd_senderId = bob,
            sd_targetId = alice\<rparr>, ''v=0'')"
  by (simp add: CallAnswerMessageSchema_def WSMessageSchema_def signal_data_ok_def answer_msg_def
      env_at_def)

lemma signaling_family_reachable: "engine_reachable signaling_family"
  by (rule engine_reachable.start) (simp add: signaling_family_facts)

lemma first_ring_reachable: "engine_reachable first_ring"
  unfolding first_ring_def by (rule engine_reachable.offer[OF signaling_family_reachable])

lemma hung_up_reachable: "engine_reachable hung_up"
  unfolding hung_up_def by (rule engine_reachable.hangup[OF first_ring_reachable])

lemma answered_calls:
  "activeCalls answered =
     [(call1, (session call1 pair_ab 1000)\<lparr>status := Connected, connectedAt := Some 3000\<rparr>)]"
  by (simp add: answered_def handleCallAnswer_def sample_answer_parses first_ring_facts map_get_def
      session_def conn_of_def Let_def map_set_def)

lemma rung_carol_calls: "activeCalls rung_carol = [(call2, session call2 pair_ac 6000)]"
proof -
  have f: "find (in_call (parent_id pair_ac)) (map_values (activeCalls hung_up)) = None"
    by (simp add: hung_up_facts map_values_def)
  note r = alice_rings(1)[OF hung_up_facts(5) _ uuid_shapes(5) f, of 6000, simplified]
  show ?thesis unfolding rung_carol_def r by (simp add: hung_up_facts map_set_def)
qed

lemma carol_offer_other_id:
  "\<not> offers_id (env_at 6000) (offer_msg call2 pair_ac alice carol) call1"
  using sample_offer_parses[of pair_ac call2 alice carol 6000]
  by (simp add: offers_id_def)

text \<open>The theorem of claim C5 at concrete inputs: the offer at 1000 schedules the task
  for 31000; run while the call rings, the task ends it; run after the parent answered,
  after the hangup, and after the hangup and an offer under another id, it changes
  nothing.\<close>

theorem ringing_timeout_ends_call_witness:
  "engine_reachable first_ring \<and>
   map_get (activeCalls first_ring) call1 = Some (session call1 pair_ab 1000) \<and>
   timers first_ring = [(31000, call1)] \<and>
   map_get (activeCalls (ringing_timeout (env_at 31000) call1 first_ring)) call1 = None \<and>
   take (Suc (length (trace first_ring)))
     (trace (ringing_timeout (env_at 31000) call1 first_ring)) =
     trace first_ring @ [DbWrite (UpdateCallEnded call1 31000 0 ''timeout'') True] \<and>
   activeCalls answered =
     [(call1, (session call1 pair_ab 1000)\<lparr>status := Connected, connectedAt := Some 3000\<rparr>)] \<and>
   ringing_timeout (env_at 31000) call1 answered = answered \<and>
   map_get (activeCalls hung_up) call1 = None \<and>
   ringing_timeout (env_at 31000) call1 hung_up = hung_up \<and>
   activeCalls rung_carol = [(call2, session call2 pair_ac 6000)] \<and>
   ringing_timeout (env_at 31000) call1 rung_carol = rung_carol"
proof -
  note T = ringing_timeout_ends_call[OF first_ring_reachable, of call1 "env_at 31000"]
  have g: "map_get (activeCalls first_ring) call1 = Some (session call1 pair_ab 1000)"
    by (simp add: first_ring_facts map_get_def)
  have r: "status (session call1 pair_ab 1000) = Ringing" by (simp add: session_def)
  from T g r
  have A: "map_get (activeCalls (ringing_timeout (env_at 31000) call1 first_ring)) call1 = None \<and>
      take (Suc (length (trace first_ring)))
        (trace (ringing_timeout (env_at 31000) call1 first_ring)) =
        trace first_ring @ [DbWrite (UpdateCallEnded call1 31000 0 ''timeout'') True]"
    by (simp add: env_at_def)
  have p: "pairings signaling_family = [pair_ab, pair_ac]" by (simp add: signaling_family_facts)
  have f: "find (in_call (parent_id pair_ab)) (map_values (activeCalls signaling_family)) = None"
    by (simp add: signaling_family_facts map_values_def)
  have pp: "pair_ab = pair_ab \<or> pair_ab = pair_ac" by simp
  note c = alice_offer_conditions[OF p pp uuid_shapes(4) f]
  from ringing_timeout_ends_call[OF signaling_family_reachable, of call1 "env_at 1000",
      THEN conjunct2, THEN conjunct2, THEN conjunct1, rule_format,
      of "offer_msg call1 pair_ab alice (parent_id pair_ab)" "alice_offer_data call1 pair_ab"
        "''video''" "''v=0''" pair_ab "conn_of ''signaling'' alice"]
    c(1)[of 1000] c(2)[of 1000] c(3) c(4) c(5)[of 1000]
  have "timers (handleCallOffer (env_at 1000) (conn_of ''signaling'' alice)
          (offer_msg call1 pair_ab alice (parent_id pair_ab)) signaling_family) =
        timers signaling_family @ [(now (env_at 1000) + 30000, callId (alice_offer_data call1 pair_ab))]"
    by blast
  then have C: "timers first_ring = [(31000, call1)]"
    by (simp add: first_ring_def signaling_family_facts alice_offer_data_def)
  have same: "no_reoffer call1 answered answered" by (rule no_reoffer.same)
  from T[THEN conjunct2, THEN conjunct2, THEN conjunct2, THEN conjunct1, rule_format,
      of "env_at 3000" "answer_msg call1 pair_ab bob alice"
         "\<lparr>callId = call1, sd_pairingId = pairing_id pair_ab, sd_senderId = bob, sd_targetId = alice\<rparr>"
         "''v=0''" "session call1 pair_ab 1000" "conn_of ''signaling'' bob" answered]
    sample_answer_parses[of 3000] g same
  have D1: "ringing_timeout (env_at 31000) call1 answered = answered"
    by (simp add: answered_def session_def)
  have later: "no_reoffer call1 hung_up rung_carol"
    unfolding rung_carol_def
    by (rule no_reoffer.offer[OF no_reoffer.same carol_offer_other_id])
  from T[THEN conjunct2, THEN conjunct2, THEN conjunct2, THEN conjunct2, THEN conjunct1, rule_format,
      of "env_at 5000" "hangup_msg call1 pair_ab alice bob"
         "\<lparr>callId = call1, sd_pairingId = pairing_id pair_ab, sd_senderId = alice, sd_targetId = bob\<rparr>"
         None "conn_of ''signaling'' alice" rung_carol]
    sample_hangup_parses[of 5000] later
  have D2: "ringing_timeout (env_at 31000) call1 rung_carol = rung_carol"
    by (simp add: hung_up_def)
  have n: "map_get (activeCalls hung_up) call1 = None" by (simp add: hung_up_facts map_get_def)
  from ringing_timeout_ends_call[OF hung_up_reachable, of call1 "env_at 31000"] n
  have B: "ringing_timeout (env_at 31000) call1 hung_up = hung_up" by blast
  from A B C D1 D2 g n first_ring_reachable answered_calls rung_carol_calls show ?thesis by blast
qed

end
